(* ===== verification/Prelude.thy ===== *)
theory Prelude
  imports Main "HOL-Library.Word" "HOL-Library.Monad_Syntax"
begin

text \<open>
  Generic material shared by the components.

  Faults.  Every operation that follows a pointer returns an option: \<open>None\<close> is the
  crash of the process, either through the \<open>Bug\<close> macro of mcachefs-log.h (which writes
  through a NULL pointer on purpose), or through a NULL or out-of-range dereference, or
  through \<open>exit\<close>; loops that follow pointers are \<open>partial_function (option)\<close>, so
  that not returning is \<open>None\<close> as well.  Functional return codes (\<open>-ENOENT\<close>, ...)
  are ordinary values inside \<open>Some\<close>.

  Strings.  A C string is a HOL string (the characters before the terminating NUL).
\<close>

named_theorems run_simps \<open>symbolic execution of the operations of the model\<close>
named_theorems frame_rules \<open>what an operation leaves unchanged\<close>

section \<open>Faults and the option monad\<close>

abbreviation Bug :: "'a option" where
  "Bug \<equiv> None"

lemma bind_weak_cong: "x = y \<Longrightarrow> Option.bind x f = Option.bind y f"
  by simp

lemma bind_None_right [simp]: "Option.bind x (\<lambda>_. None) = None"
  by (cases x) simp_all

lemma bind_if_distrib:
  "Option.bind (if b then x else y) f = (if b then Option.bind x f else Option.bind y f)"
  by simp

lemma bindE: "Option.bind x f = Some y \<Longrightarrow> (\<And>a. x = Some a \<Longrightarrow> f a = Some y \<Longrightarrow> R) \<Longrightarrow> R"
  by (cases x) auto

section \<open>C strings\<close>

text \<open>
  \<open>strncmp(a, b, n) == 0\<close>: equal up to the first difference, the end of both strings,
  or \<open>n\<close> characters.
\<close>

fun strncmp_eq :: "string \<Rightarrow> string \<Rightarrow> nat \<Rightarrow> bool" where
  "strncmp_eq a b 0 = True"
| "strncmp_eq [] [] (Suc n) = True"
| "strncmp_eq (x # xs) (y # ys) (Suc n) = (x = y \<and> strncmp_eq xs ys n)"
| "strncmp_eq _ _ (Suc n) = False"

lemma strncmp_eq_take: "strncmp_eq a b n \<longleftrightarrow> take n a = take n b"
  by (induction a b n rule: strncmp_eq.induct) auto

declare strncmp_eq.simps [code del]
declare strncmp_eq_take [code]

lemma strncmp_eq_prefix: "strncmp_eq a p (length p) \<longleftrightarrow> (\<exists>r. a = p @ r)"
  by (auto simp: strncmp_eq_take) (metis append_take_drop_id)

abbreviation NUL :: char where
  "NUL \<equiv> CHR 0x00"

text \<open>A byte is what \<open>(unsigned char)\<close> makes of a character.\<close>

abbreviation byte_of :: "char \<Rightarrow> nat" where
  "byte_of c \<equiv> of_char c"

lemma byte_of_less: "byte_of c < 256"
  by (rule nat_of_char_less_256)

section \<open>Lists\<close>

lemma concat_map_append_singleton [simp]:
  "concat (map f (xs @ [x])) = concat (map f xs) @ f x"
  by simp

section \<open>Error codes\<close>

text \<open>The negative \<open>errno\<close> values the code returns, by their Linux numbers.\<close>

definition EPERM :: int where "EPERM = 1"
definition ENOENT :: int where "ENOENT = 2"
definition EIO :: int where "EIO = 5"
definition EBADF :: int where "EBADF = 9"
definition ENOMEM :: int where "ENOMEM = 12"
definition EEXIST :: int where "EEXIST = 17"
definition ENOTDIR :: int where "ENOTDIR = 20"
definition EISDIR :: int where "EISDIR = 21"
definition EINVAL :: int where "EINVAL = 22"
definition ENOSYS :: int where "ENOSYS = 38"
definition ENOTEMPTY :: int where "ENOTEMPTY = 39"

lemmas errno_defs = EPERM_def ENOENT_def EIO_def EBADF_def ENOMEM_def EEXIST_def
  ENOTDIR_def EISDIR_def EINVAL_def ENOSYS_def ENOTEMPTY_def

end
