(* ===== verification/Path_Hash.thy ===== *)
theory Path_Hash
  imports Prelude
begin

text \<open>
  The reentrant string hash of src/src/mcachefs-hash.c, in the configuration that
  mcachefs-types.h selects (\<open>__MCACHEFS_HASH_USE_32_6_16\<close>; the crc32 and crc64 variants
  are not compiled).  \<open>hash_t\<close> is a 32-bit unsigned integer and wraps.
\<close>

type_synonym hash_t = "32 word"

definition hash_byte :: "hash_t \<Rightarrow> char \<Rightarrow> hash_t" where
  "hash_byte h c = of_nat (byte_of c) + push_bit 6 h + push_bit 16 h - h"

text \<open>The loop: \<open>cur\<close> counts the characters done and is compared after each of them.\<close>

fun hash_loop :: "hash_t \<Rightarrow> string \<Rightarrow> int \<Rightarrow> int \<Rightarrow> hash_t" where
  "hash_loop h [] sz cur = h"
| "hash_loop h (c # cs) sz cur =
     (let h = hash_byte h c; cur = cur + 1
      in if cur = sz then h else hash_loop h cs sz cur)"

definition continueHashPartial :: "hash_t \<Rightarrow> string \<Rightarrow> int \<Rightarrow> hash_t" where
  "continueHashPartial h str sz = hash_loop h str sz 0"

definition continueHash :: "hash_t \<Rightarrow> string \<Rightarrow> hash_t" where
  "continueHash h str = continueHashPartial h str (-1)"

definition doHashPartial :: "string \<Rightarrow> int \<Rightarrow> hash_t" where
  "doHashPartial str sz = continueHashPartial 0x245 str sz"

definition doHash :: "string \<Rightarrow> hash_t" where
  "doHash str = doHashPartial str (-1)"

section \<open>The hash is a fold\<close>

lemma hash_loop_take:
  "cur < sz \<Longrightarrow> hash_loop h cs sz cur = foldl hash_byte h (take (nat (sz - cur)) cs)"
proof (induction cs arbitrary: h cur)
  case (Cons c cs)
  show ?case
  proof (cases "cur + 1 = sz")
    case True
    then have "sz - cur = 1" by simp
    then show ?thesis by simp
  next
    case False
    then have "nat (sz - cur) = Suc (nat (sz - (cur + 1)))" using Cons.prems by simp
    then show ?thesis using Cons False by simp
  qed
qed simp

lemma hash_loop_all: "sz \<le> cur \<Longrightarrow> hash_loop h cs sz cur = foldl hash_byte h cs"
  by (induction cs arbitrary: h cur) simp_all

lemma continueHash_foldl: "continueHash h cs = foldl hash_byte h cs"
  by (simp add: continueHash_def continueHashPartial_def hash_loop_all)

lemma doHash_foldl: "doHash cs = foldl hash_byte 0x245 cs"
  by (simp add: doHash_def doHashPartial_def continueHashPartial_def hash_loop_all)

lemma continueHash_append: "continueHash h (a @ b) = continueHash (continueHash h a) b"
  by (simp add: continueHash_foldl)

lemma doHash_append: "doHash (a @ b) = continueHash (doHash a) b"
  by (simp add: continueHash_foldl doHash_foldl)

lemma doHashPartial_take: "0 < sz \<Longrightarrow> doHashPartial cs sz = doHash (take (nat sz) cs)"
  by (simp add: doHashPartial_def continueHashPartial_def hash_loop_take doHash_foldl)

lemma doHashPartial_all: "sz \<le> 0 \<Longrightarrow> doHashPartial cs sz = doHash cs"
  by (simp add: doHashPartial_def continueHashPartial_def hash_loop_all doHash_foldl)

section \<open>The hash as a polynomial\<close>

lemma hash_byte_mult: "hash_byte h c = 65599 * h + of_nat (byte_of c)"
proof -
  have "push_bit 6 h = 64 * h" "push_bit 16 h = 65536 * h"
    by (simp_all add: push_bit_eq_mult mult.commute)
  then show ?thesis by (simp add: hash_byte_def)
qed

text \<open>One byte never collides: the map from the last character to the hash is injective,
  and so is the map from the hash so far.\<close>

lemma hash_byte_inj_char: "hash_byte h c = hash_byte h d \<Longrightarrow> c = d"
proof -
  assume "hash_byte h c = hash_byte h d"
  then have "(of_nat (byte_of c) :: hash_t) = of_nat (byte_of d)"
    by (simp add: hash_byte_mult)
  then have "take_bit 32 (byte_of c) = take_bit 32 (byte_of d)"
    by (simp add: word_of_nat_eq_iff)
  moreover have "take_bit 32 (byte_of x) = byte_of x" for x
    by (rule take_bit_nat_eq_self) (rule less_trans [OF byte_of_less], simp)
  ultimately have "byte_of c = byte_of d" by metis
  then show ?thesis by simp
qed

lemma hash_byte_inj: "hash_byte h c = hash_byte h' c \<Longrightarrow> h = h'"
proof -
  assume "hash_byte h c = hash_byte h' c"
  then have "65599 * h = 65599 * h'" by (simp add: hash_byte_mult)
  then have "2390421439 * (65599 * h) = 2390421439 * (65599 * h')" by (rule arg_cong)
  moreover have "2390421439 * (65599 * x) = x" for x :: hash_t
  proof -
    have "2390421439 * 65599 = (1 :: hash_t)" by simp
    then show ?thesis unfolding mult.assoc [symmetric] by (simp only: mult_1)
  qed
  ultimately show "h = h'" by metis
qed

end
