(* ===== verification/File_Types.thy ===== *)
theory File_Types
  imports Path_Hash
begin

text \<open>
  The structures of src/src/mcachefs-types.h for open files: \<open>struct mcachefs_file_t\<close> with
  its two sources and its transfer, and the enumerations of states.  A file handle
  (\<open>mcachefs_fh_t\<close>) is the address of the structure, here a number, 0 for NULL.
\<close>

type_synonym fh = nat
type_synonym mid = nat

datatype file_type = NoType | FileType | DirType | VopsType

datatype backing = BackingNone | BackingAsked | BackingInProgress | BackingDone | BackingError

datatype read_state = StateNormal | StateFull | StateHandsup | StateNocache | StateQuitting

datatype write_state = WrCache | WrFlush | WrForce

record file_transfer =
  tr_tobacking :: int
  tr_total_size :: int
  tr_transfered_size :: int
  tr_rate :: int
  tr_total_time :: int

record file_source =
  src_fd :: int
  src_use :: nat
  src_wr :: nat
  src_bytesrd :: nat
  src_nbrd :: nat
  src_byteswr :: nat
  src_nbwr :: nat

record mfile =
  mf_hash :: hash_t
  mf_path :: "string option"
  mf_type :: file_type
  mf_metadata_id :: mid
  mf_use :: nat
  mf_ttl :: int
  mf_backing :: file_source
  mf_real :: file_source
  mf_cache_status :: backing
  mf_dirty :: bool
  mf_transfer :: file_transfer
  mf_contents :: "string option"
  mf_contents_size :: nat
  mf_contents_alloced :: nat
  mf_timeslice :: int
  mf_ts_previous :: fh
  mf_ts_next :: fh

text \<open>What \<open>memset(.., 0, ..)\<close> leaves, and \<open>mcachefs_file_source_init\<close>.\<close>

definition zero_transfer :: file_transfer where
  "zero_transfer = \<lparr>tr_tobacking = 0, tr_total_size = 0, tr_transfered_size = 0, tr_rate = 0,
     tr_total_time = 0\<rparr>"

definition zero_source :: file_source where
  "zero_source = \<lparr>src_fd = 0, src_use = 0, src_wr = 0, src_bytesrd = 0, src_nbrd = 0,
     src_byteswr = 0, src_nbwr = 0\<rparr>"

definition mcachefs_file_source_init :: "file_source \<Rightarrow> file_source" where
  "mcachefs_file_source_init source = source\<lparr>src_use := 0, src_fd := -1, src_wr := 0,
     src_bytesrd := 0, src_nbrd := 0, src_byteswr := 0, src_nbwr := 0\<rparr>"

definition zero_mfile :: mfile where
  "zero_mfile = \<lparr>mf_hash = 0, mf_path = None, mf_type = NoType, mf_metadata_id = 0,
     mf_use = 0, mf_ttl = 0, mf_backing = zero_source, mf_real = zero_source,
     mf_cache_status = BackingNone, mf_dirty = False, mf_transfer = zero_transfer,
     mf_contents = None, mf_contents_size = 0, mf_contents_alloced = 0,
     mf_timeslice = 0, mf_ts_previous = 0, mf_ts_next = 0\<rparr>"

end
