(* ===== verification/Meta_Store.thy ===== *)
theory Meta_Store
  imports File_Types
begin

text \<open>
  The metafile of src/src/mcachefs-metadata.c: the header, the array of fixed-size entries
  and the free list threaded through their \<open>next\<close> fields.

  A pointer \<open>struct mcachefs_metadata_t *\<close> is the entry's number (NULL is 0): within one
  critical section the address of an entry is a function of its number.  The mapping of
  blocks of 256 entries into memory (\<open>metadata_map\<close>, mmap and munmap) is not modelled:
  it changes where an entry lives, not what it holds.
\<close>

section \<open>Data\<close>

datatype color = BLACK | RED

record stat =
  st_mode :: nat
  st_nlink :: nat
  st_uid :: nat
  st_gid :: nat
  st_rdev :: nat
  st_size :: int
  st_atime :: int
  st_mtime :: int
  st_ctime :: int

record metadata =
  md_hash :: hash_t
  md_d_name :: string
  md_id :: mid
  md_father :: mid
  md_child :: mid
  md_next :: mid
  md_up :: mid
  md_left :: mid
  md_right :: mid
  md_color :: color
  md_collision_next :: mid
  md_collision_previous :: mid
  md_fh :: fh
  md_st :: stat
  md_hardlink :: mid

definition id_EMPTY :: mid where
  "id_EMPTY = 2 ^ 64 - 1"

definition id_root :: mid where
  "id_root = 1"

definition BLOCK_ENTRY_COUNT :: nat where
  "BLOCK_ENTRY_COUNT = 256"

definition ENTRY_SIZE :: nat where
  "ENTRY_SIZE = 512"

definition zero_stat :: stat where
  "zero_stat = \<lparr>st_mode = 0, st_nlink = 0, st_uid = 0, st_gid = 0, st_rdev = 0,
     st_size = 0, st_atime = 0, st_mtime = 0, st_ctime = 0\<rparr>"

text \<open>The entry that \<open>memset(.., 0, sizeof(struct mcachefs_metadata_t))\<close> leaves.\<close>

definition zero_metadata :: metadata where
  "zero_metadata = \<lparr>md_hash = 0, md_d_name = [], md_id = 0, md_father = 0, md_child = 0,
     md_next = 0, md_up = 0, md_left = 0, md_right = 0, md_color = BLACK,
     md_collision_next = 0, md_collision_previous = 0, md_fh = 0, md_st = zero_stat,
     md_hardlink = 0\<rparr>"

text \<open>
  The process: the metafile (\<open>mcachefs_metadata_head\<close> and the entries), the open files by
  handle (absent once freed), and the heads of the timeslice lists of mcachefs-file-ts.c,
  which are threaded through the files.
\<close>

record mstate =
  entry :: "mid \<Rightarrow> metadata"
  alloced_nb :: mid
  first_free :: mid
  hash_root :: mid
  files :: "fh \<Rightarrow> mfile option"
  timeslices :: "nat \<Rightarrow> fh"
  timeslice_current :: nat

section \<open>Access through pointers\<close>

definition valid :: "mstate \<Rightarrow> mid \<Rightarrow> bool" where
  "valid s p \<longleftrightarrow> 0 < p \<and> p < alloced_nb s"

text \<open>Reading a field and writing a field of \<open>*p\<close>; both fault on NULL and out of range.\<close>

definition ld :: "mstate \<Rightarrow> mid \<Rightarrow> (metadata \<Rightarrow> 'a) \<Rightarrow> 'a option" where
  "ld s p f = (if valid s p then Some (f (entry s p)) else None)"

definition upd :: "mstate \<Rightarrow> mid \<Rightarrow> (metadata \<Rightarrow> metadata) \<Rightarrow> mstate option" where
  "upd s p g = (if valid s p then Some (s\<lparr>entry := (entry s)(p := g (entry s p))\<rparr>) else None)"

text \<open>
  \<open>mcachefs_metadata_do_get\<close>: the number 0 gives NULL, a number past the file is the
  error that the PARANOID build reports and that otherwise reads past the block table.
\<close>

definition mcachefs_metadata_do_get :: "mstate \<Rightarrow> mid \<Rightarrow> mid option" where
  "mcachefs_metadata_do_get s i =
     (if i = 0 then Some 0 else if i \<ge> alloced_nb s then Bug else Some i)"

abbreviation do_get :: "mstate \<Rightarrow> mid \<Rightarrow> mid option" where
  "do_get \<equiv> mcachefs_metadata_do_get"

lemma ld_valid [run_simps]: "valid s p \<Longrightarrow> ld s p f = Some (f (entry s p))"
  by (simp add: ld_def)

lemma upd_valid [run_simps]:
  "valid s p \<Longrightarrow> upd s p g = Some (s\<lparr>entry := (entry s)(p := g (entry s p))\<rparr>)"
  by (simp add: upd_def)

lemma do_get_valid [run_simps]: "valid s p \<Longrightarrow> do_get s p = Some p"
  by (simp add: mcachefs_metadata_do_get_def valid_def)

lemma do_get_0 [run_simps]: "do_get s 0 = Some 0"
  by (simp add: mcachefs_metadata_do_get_def)

lemma valid_entry [simp]: "valid (s\<lparr>entry := e\<rparr>) p = valid s p"
  by (simp add: valid_def)

lemma valid_hash_root [simp]: "valid (s\<lparr>hash_root := r\<rparr>) p = valid s p"
  by (simp add: valid_def)

lemma valid_first_free [simp]: "valid (s\<lparr>first_free := r\<rparr>) p = valid s p"
  by (simp add: valid_def)

lemma valid_nz [simp]: "valid s p \<Longrightarrow> p \<noteq> 0"
  by (simp add: valid_def)

lemma not_valid_0 [simp]: "\<not> valid s 0"
  by (simp add: valid_def)

end
