(* ===== verification/Rb_Tree.thy ===== *)
theory Rb_Tree
  imports Meta_Store "HOL-Library.Tree"
begin

text \<open>
  The abstract side of the hash tree of src/src/mcachefs-metadata.c: red-black trees whose
  nodes carry the entry that heads a collision list, its colour and the list of the other
  colliders, and zippers (a subtree and the frames above it, innermost first), in which the
  pointer algorithms of the code are restated as pure functions.
\<close>

type_synonym node = "mid \<times> color \<times> mid list"
type_synonym htree = "node tree"

text \<open>A frame is a parent seen from its left (\<open>Lf\<close>) or its right (\<open>Rt\<close>) child.\<close>

datatype frame = Lf node htree | Rt htree node

section \<open>Colour, black height, buckets\<close>

fun rcol :: "htree \<Rightarrow> color" where
  "rcol Leaf = BLACK"
| "rcol (Node _ (_, c, _) _) = c"

fun paint :: "color \<Rightarrow> htree \<Rightarrow> htree" where
  "paint c Leaf = Leaf"
| "paint c (Node l (i, _, xs) r) = Node l (i, c, xs) r"

fun blackness :: "color \<Rightarrow> nat" where
  "blackness BLACK = 1"
| "blackness RED = 0"

fun bh :: "htree \<Rightarrow> nat" where
  "bh Leaf = 0"
| "bh (Node l (_, c, _) _) = bh l + blackness c"

fun even_black :: "htree \<Rightarrow> bool" where
  "even_black Leaf = True"
| "even_black (Node l _ r) = (bh l = bh r \<and> even_black l \<and> even_black r)"

fun no_red_red :: "htree \<Rightarrow> bool" where
  "no_red_red Leaf = True"
| "no_red_red (Node l (_, c, _) r) =
     ((c = RED \<longrightarrow> rcol l = BLACK \<and> rcol r = BLACK) \<and> no_red_red l \<and> no_red_red r)"

definition rb :: "htree \<Rightarrow> bool" where
  "rb t \<longleftrightarrow> no_red_red t \<and> even_black t \<and> rcol t = BLACK"

text \<open>The buckets of the table, in hash order: each is a head and its colliders.\<close>

definition buckets :: "htree \<Rightarrow> mid list list" where
  "buckets t = map (\<lambda>(i, _, xs). i # xs) (inorder t)"

definition ids :: "htree \<Rightarrow> mid list" where
  "ids t = concat (buckets t)"

lemma buckets_simps [simp]:
  "buckets Leaf = []"
  "buckets (Node l (i, c, xs) r) = buckets l @ (i # xs) # buckets r"
  by (simp_all add: buckets_def)

lemma ids_simps [simp]:
  "ids Leaf = []"
  "ids (Node l (i, c, xs) r) = ids l @ i # xs @ ids r"
  by (simp_all add: ids_def)

lemma paint_simps [simp]:
  "buckets (paint c t) = buckets t" "ids (paint c t) = ids t"
  "even_black (paint c t) = even_black t"
  by (cases t rule: rcol.cases; simp)+

lemma paint_color [simp]: "t \<noteq> Leaf \<Longrightarrow> rcol (paint c t) = c"
  by (cases t rule: rcol.cases) simp_all

lemma rcol_paint_BLACK [simp]: "rcol (paint BLACK t) = BLACK"
  by (cases t rule: rcol.cases) simp_all

lemma no_red_red_paint_BLACK [simp]: "no_red_red t \<Longrightarrow> no_red_red (paint BLACK t)"
  by (cases t rule: rcol.cases) simp_all

lemma bh_paint_BLACK: "rcol t = RED \<Longrightarrow> bh (paint BLACK t) = Suc (bh t)"
  by (cases t rule: rcol.cases) simp_all

lemma not_RED [simp]: "c \<noteq> RED \<longleftrightarrow> c = BLACK"
  by (cases c) simp_all

lemma not_BLACK [simp]: "c \<noteq> BLACK \<longleftrightarrow> c = RED"
  by (cases c) simp_all

section \<open>Zippers\<close>

fun plug :: "htree \<Rightarrow> frame list \<Rightarrow> htree" where
  "plug t [] = t"
| "plug t (Lf n r # k) = plug (Node t n r) k"
| "plug t (Rt l n # k) = plug (Node l n t) k"

text \<open>The colour of the parent; the missing parent of the root counts as red, so that the
  root itself has to be black.\<close>

fun ccol :: "frame list \<Rightarrow> color" where
  "ccol [] = RED"
| "ccol (Lf (_, c, _) _ # _) = c"
| "ccol (Rt _ (_, c, _) # _) = c"

text \<open>The frames fit around a subtree of black height \<open>h\<close>.\<close>

fun cinv :: "nat \<Rightarrow> frame list \<Rightarrow> bool" where
  "cinv h [] = True"
| "cinv h (Lf (_, c, _) r # k) =
     (no_red_red r \<and> even_black r \<and> bh r = h \<and>
      (c = RED \<longrightarrow> rcol r = BLACK \<and> ccol k = BLACK) \<and> cinv (h + blackness c) k)"
| "cinv h (Rt l (_, c, _) # k) =
     (no_red_red l \<and> even_black l \<and> bh l = h \<and>
      (c = RED \<longrightarrow> rcol l = BLACK \<and> ccol k = BLACK) \<and> cinv (h + blackness c) k)"

fun left_of :: "frame list \<Rightarrow> mid list list" where
  "left_of [] = []"
| "left_of (Lf _ _ # k) = left_of k"
| "left_of (Rt l (i, _, xs) # k) = left_of k @ buckets l @ [i # xs]"

fun right_of :: "frame list \<Rightarrow> mid list list" where
  "right_of [] = []"
| "right_of (Lf (i, _, xs) r # k) = (i # xs) # buckets r @ right_of k"
| "right_of (Rt _ _ # k) = right_of k"

lemma buckets_plug [simp]: "buckets (plug t k) = left_of k @ buckets t @ right_of k"
  by (induction t k rule: plug.induct) (auto split: prod.splits)

lemma ids_plug: "ids (plug t k) = concat (left_of k) @ ids t @ concat (right_of k)"
  by (simp add: ids_def)

lemma rb_plug:
  "rb (plug t k) \<longleftrightarrow>
     no_red_red t \<and> even_black t \<and> cinv (bh t) k \<and> (rcol t = RED \<longrightarrow> ccol k = BLACK)"
proof (induction t k rule: plug.induct)
  case (1 t)
  then show ?case by (cases "rcol t") (auto simp: rb_def)
next
  case (2 t n r k)
  obtain i c xs where n: "n = (i, c, xs)" by (cases n)
  show ?case using 2 by (cases c; cases "rcol t") (auto simp: n)
next
  case (3 t l n k)
  obtain i c xs where n: "n = (i, c, xs)" by (cases n)
  show ?case using 3 by (cases c; cases "rcol t") (auto simp: n)
qed

section \<open>Repair after an insertion\<close>

text \<open>
  The node \<open>x\<close> in focus is red, with black-rooted subtrees \<open>a\<close> and \<open>b\<close>; the four
  cases of \<open>mcachefs_metadata_repair_hash\<close>: no parent, black parent, red uncle, and
  the rotations.
\<close>

fun repair_tree :: "htree \<Rightarrow> mid \<times> mid list \<Rightarrow> htree \<Rightarrow> frame list \<Rightarrow> htree" where
  "repair_tree a (x, xs) b [] = Node a (x, BLACK, xs) b"
| "repair_tree a (x, xs) b (Lf (p, RED, ps) r # Lf (g, _, gs) u # k) =
     (if rcol u = RED
      then repair_tree (Node (Node a (x, RED, xs) b) (p, BLACK, ps) r) (g, gs) (paint BLACK u) k
      else plug (Node (Node a (x, RED, xs) b) (p, BLACK, ps) (Node r (g, RED, gs) u)) k)"
| "repair_tree a (x, xs) b (Rt l (p, RED, ps) # Lf (g, _, gs) u # k) =
     (if rcol u = RED
      then repair_tree (Node l (p, BLACK, ps) (Node a (x, RED, xs) b)) (g, gs) (paint BLACK u) k
      else plug (Node (Node l (p, RED, ps) a) (x, BLACK, xs) (Node b (g, RED, gs) u)) k)"
| "repair_tree a (x, xs) b (Rt l (p, RED, ps) # Rt u (g, _, gs) # k) =
     (if rcol u = RED
      then repair_tree (paint BLACK u) (g, gs) (Node l (p, BLACK, ps) (Node a (x, RED, xs) b)) k
      else plug (Node (Node u (g, RED, gs) l) (p, BLACK, ps) (Node a (x, RED, xs) b)) k)"
| "repair_tree a (x, xs) b (Lf (p, RED, ps) r # Rt u (g, _, gs) # k) =
     (if rcol u = RED
      then repair_tree (paint BLACK u) (g, gs) (Node (Node a (x, RED, xs) b) (p, BLACK, ps) r) k
      else plug (Node (Node u (g, RED, gs) a) (x, BLACK, xs) (Node b (p, RED, ps) r)) k)"
| "repair_tree a (x, xs) b k = plug (Node a (x, RED, xs) b) k"

lemma buckets_repair_tree:
  "buckets (repair_tree a (x, xs) b k) =
     left_of k @ buckets a @ (x # xs) # buckets b @ right_of k"
  by (induction a "(x, xs)" b k arbitrary: x xs rule: repair_tree.induct) auto

lemma cinv_single: "cinv h [f] \<Longrightarrow> ccol [f] = BLACK"
  by (cases "(h, [f])" rule: cinv.cases; cases "ccol [f]") auto

lemma rb_repair_tree:
  assumes "no_red_red a" "even_black a" "rcol a = BLACK"
    and "no_red_red b" "even_black b" "rcol b = BLACK"
    and "bh a = bh b" "cinv (bh a) k"
  shows "rb (repair_tree a (x, xs) b k)"
  using assms
proof (induction a "(x, xs)" b k arbitrary: x xs rule: repair_tree.induct)
  case 1
  then show ?case by (simp add: rb_def)
next
  case (2 a x xs b p ps r g gc gs u k)
  then show ?case by (cases "rcol u"; cases gc) (simp_all add: rb_plug bh_paint_BLACK)
next
  case (3 a x xs b l p ps g gc gs u k)
  then show ?case by (cases "rcol u"; cases gc) (simp_all add: rb_plug bh_paint_BLACK)
next
  case (4 a x xs b l p ps u g gc gs k)
  then show ?case by (cases "rcol u"; cases gc) (simp_all add: rb_plug bh_paint_BLACK)
next
  case (5 a x xs b p ps r u g gc gs k)
  then show ?case by (cases "rcol u"; cases gc) (simp_all add: rb_plug bh_paint_BLACK)
qed (auto simp: rb_plug simp del: plug.simps dest: cinv_single)

section \<open>Insertion\<close>

text \<open>Descend by hash, as the loop of \<open>mcachefs_metadata_do_insert_hash\<close> does.\<close>

fun locate :: "(mid \<Rightarrow> 'h::linorder) \<Rightarrow> 'h \<Rightarrow> htree \<Rightarrow> frame list \<Rightarrow> htree \<times> frame list" where
  "locate h v Leaf k = (Leaf, k)"
| "locate h v (Node l (i, c, xs) r) k =
     (if v < h i then locate h v l (Lf (i, c, xs) r # k)
      else if h i < v then locate h v r (Rt l (i, c, xs) # k)
      else (Node l (i, c, xs) r, k))"

fun insert_at :: "mid \<Rightarrow> htree \<times> frame list \<Rightarrow> htree" where
  "insert_at x (Leaf, k) = repair_tree Leaf (x, []) Leaf k"
| "insert_at x (Node l (i, c, xs) r, k) = plug (Node l (i, c, xs @ [x]) r) k"

definition insert_tree :: "(mid \<Rightarrow> 'h::linorder) \<Rightarrow> mid \<Rightarrow> htree \<Rightarrow> htree" where
  "insert_tree h x t = insert_at x (locate h (h x) t [])"

text \<open>The specification: a table of buckets, in strictly increasing hash order.\<close>

fun put_bucket :: "(mid \<Rightarrow> 'h::linorder) \<Rightarrow> mid \<Rightarrow> mid list list \<Rightarrow> mid list list" where
  "put_bucket h x [] = [[x]]"
| "put_bucket h x (b # bs) =
     (if h x < h (hd b) then [x] # b # bs
      else if h (hd b) < h x then b # put_bucket h x bs
      else (b @ [x]) # bs)"

definition bucket_table :: "(mid \<Rightarrow> 'h::linorder) \<Rightarrow> mid list list \<Rightarrow> bool" where
  "bucket_table h bs \<longleftrightarrow> sorted_wrt (\<lambda>b b'. h (hd b) < h (hd b')) bs \<and>
     (\<forall>b\<in>set bs. b \<noteq> [] \<and> (\<forall>i\<in>set b. h (hd b) = h i))"

lemma plug_locate: "locate h v t k = (t', k') \<Longrightarrow> plug t' k' = plug t k"
  by (induction h v t k rule: locate.induct) (auto split: if_splits)

lemma locate_Node:
  "locate h v t k = (Node l (i, c, xs) r, k') \<Longrightarrow> h i = v"
  by (induction h v t k rule: locate.induct) (auto split: if_splits)

lemma rb_insert_at: "rb (plug t k) \<Longrightarrow> rb (insert_at x (t, k))"
  by (cases t rule: rcol.cases) (auto simp: rb_plug rb_repair_tree)

theorem rb_insert_tree: "rb t \<Longrightarrow> rb (insert_tree h x t)"
proof -
  assume "rb t"
  obtain t' k where loc: "locate h (h x) t [] = (t', k)" by fastforce
  with \<open>rb t\<close> have "rb (plug t' k)" by (simp add: plug_locate [OF loc])
  then show ?thesis by (simp add: insert_tree_def loc rb_insert_at)
qed

lemma locate_between:
  assumes "locate h v t k = (t', k')"
    and "\<forall>b\<in>set (left_of k). h (hd b) < v" and "\<forall>b\<in>set (right_of k). v < h (hd b)"
    and "bucket_table h (buckets (plug t k))"
  shows "(\<forall>b\<in>set (left_of k'). h (hd b) < v) \<and> (\<forall>b\<in>set (right_of k'). v < h (hd b))"
  using assms
proof (induction h v t k rule: locate.induct)
  case 1
  then show ?case by simp
next
  case (2 h v l i c xs r k)
  from 2(6) have lr: "\<forall>b\<in>set (buckets l). h (hd b) < h i" "\<forall>b\<in>set (buckets r). h i < h (hd b)"
    by (auto simp: bucket_table_def sorted_wrt_append)
  show ?case
  proof (cases "v < h i")
    case True
    then have "\<forall>b\<in>set (right_of (Lf (i, c, xs) r # k)). v < h (hd b)"
      using lr(2) 2(5) by (auto intro: less_trans)
    with True 2 show ?thesis by simp
  next
    case False
    show ?thesis
    proof (cases "h i < v")
      case True
      then have "\<forall>b\<in>set (left_of (Rt l (i, c, xs) # k)). h (hd b) < v"
        using lr(1) 2(4) by (auto intro: less_trans)
      with True False 2 show ?thesis by simp
    next
      case eq: False
      with False 2 show ?thesis by simp
    qed
  qed
qed

lemma put_bucket_mid:
  assumes "\<forall>b\<in>set ls. h (hd b) < h x" and "\<forall>b\<in>set rs. h x < h (hd b)"
  shows "put_bucket h x (ls @ rs) = ls @ [x] # rs"
    and "h (hd b) = h x \<Longrightarrow> put_bucket h x (ls @ b # rs) = ls @ (b @ [x]) # rs"
proof -
  show "put_bucket h x (ls @ rs) = ls @ [x] # rs"
    using assms by (induction ls) (cases rs, auto)
  show "put_bucket h x (ls @ b # rs) = ls @ (b @ [x]) # rs" if "h (hd b) = h x"
    using assms that by (induction ls) auto
qed

theorem buckets_insert_tree:
  assumes "bucket_table h (buckets t)"
  shows "buckets (insert_tree h x t) = put_bucket h x (buckets t)"
proof -
  obtain t' k where loc: "locate h (h x) t [] = (t', k)" by fastforce
  have bt: "buckets t = left_of k @ buckets t' @ right_of k"
    using plug_locate [OF loc] by (metis buckets_plug plug.simps(1))
  have btw: "\<forall>b\<in>set (left_of k). h (hd b) < h x" "\<forall>b\<in>set (right_of k). h x < h (hd b)"
    using locate_between [OF loc] assms by auto
  show ?thesis
  proof (cases t' rule: rcol.cases)
    case 1
    then show ?thesis using bt put_bucket_mid(1) [OF btw]
      by (simp add: insert_tree_def loc buckets_repair_tree)
  next
    case (2 l i c xs r)
    have hi: "h i = h x" using locate_Node loc 2 by metis
    have "\<forall>b\<in>set (left_of k @ buckets l). h (hd b) < h x"
      "\<forall>b\<in>set (buckets r @ right_of k). h x < h (hd b)"
      using assms btw hi unfolding bt 2 by (auto simp: bucket_table_def sorted_wrt_append)
    from put_bucket_mid(2) [OF this, of "i # xs"] hi show ?thesis
      by (simp add: insert_tree_def loc 2 bt)
  qed
qed

lemma bucket_table_simps [simp]:
  "bucket_table h []"
  "bucket_table h (b # bs) \<longleftrightarrow> b \<noteq> [] \<and> (\<forall>i\<in>set b. h (hd b) = h i) \<and>
     (\<forall>b'\<in>set bs. h (hd b) < h (hd b')) \<and> bucket_table h bs"
  by (auto simp: bucket_table_def)

lemma put_bucket_heads:
  assumes "bucket_table h bs" and "b \<in> set (put_bucket h x bs)"
  shows "h (hd b) = h x \<or> (\<exists>b'\<in>set bs. h (hd b) = h (hd b'))"
  using assms by (induction h x bs rule: put_bucket.induct) (auto split: if_splits)

lemma put_bucket_table: "bucket_table h bs \<Longrightarrow> bucket_table h (put_bucket h x bs)"
proof (induction h x bs rule: put_bucket.induct)
  case (2 h x b bs)
  show ?case
  proof (cases "h (hd b) < h x")
    case True
    have "\<forall>b'\<in>set (put_bucket h x bs). h (hd b) < h (hd b')"
      using 2(2) True put_bucket_heads [of h bs _ x] by fastforce
    with 2 True show ?thesis by auto
  next
    case False
    with 2(2) show ?thesis by (auto intro: less_trans)
  qed
qed simp

lemma set_put_bucket: "set (concat (put_bucket h x bs)) = insert x (set (concat bs))"
  by (induction h x bs rule: put_bucket.induct) auto

lemma distinct_put_bucket:
  "distinct (concat bs) \<Longrightarrow> x \<notin> set (concat bs) \<Longrightarrow> distinct (concat (put_bucket h x bs))"
proof (induction bs)
  case (Cons b bs)
  then show ?case using set_put_bucket [of h x bs] by auto
qed simp

section \<open>Depth\<close>

lemma bh_height: "no_red_red t \<Longrightarrow> even_black t \<Longrightarrow> height t \<le> 2 * bh t + (if rcol t = RED then 1 else 0)"
proof (induction t rule: no_red_red.induct)
  case (2 l i c xs r)
  then show ?case by (cases c; cases "rcol l"; cases "rcol r") auto
qed simp

lemma bh_size: "even_black t \<Longrightarrow> 2 ^ bh t \<le> size1 t"
proof (induction t rule: no_red_red.induct)
  case (2 l i c xs r)
  then show ?case by (cases c) auto
qed simp

theorem rb_depth: "rb t \<Longrightarrow> 2 ^ (height t div 2) \<le> size1 t"
proof -
  assume "rb t"
  then have "height t div 2 \<le> bh t" "2 ^ bh t \<le> size1 t"
    using bh_height [of t] bh_size [of t] by (auto simp: rb_def)
  then show ?thesis by (metis le_trans one_le_numeral power_increasing)
qed

end
