(* ===== verification/Hash_Tree.thy ===== *)
theory Hash_Tree
  imports Rb_Tree
begin

text \<open>
  The hash tree of src/src/mcachefs-metadata.c: the entries of the metafile are the nodes of
  a red-black tree (\<open>up\<close>, \<open>left\<close>, \<open>right\<close>, \<open>color\<close>), keyed by \<open>hash\<close>; entries with
  the same hash hang off a node through \<open>collision_next\<close> and \<open>collision_previous\<close>.
  This theory holds the rotations, the insertion and its repair, the abstraction of a
  store to a tree, and the refinement of the pointer code to the pure functions of Rb_Tree.
\<close>

section \<open>The code\<close>

definition mcachefs_metadata_cleanup_hash :: "mstate \<Rightarrow> mid \<Rightarrow> mstate option" where
  "mcachefs_metadata_cleanup_hash s meta =
     upd s meta (\<lambda>m. m\<lparr>md_right := 0, md_left := 0, md_up := 0\<rparr>)"

text \<open>The loop of \<open>do_insert_hash\<close>, at the node \<open>current\<close>.\<close>

partial_function (option) insert_hash_loop :: "mstate \<Rightarrow> mid \<Rightarrow> mid \<Rightarrow> mstate option" where
  "insert_hash_loop s newmeta current = do {
     nh \<leftarrow> ld s newmeta md_hash;
     ch \<leftarrow> ld s current md_hash;
     ni \<leftarrow> ld s newmeta md_id;
     ci \<leftarrow> ld s current md_id;
     l \<leftarrow> ld s current md_left;
     r \<leftarrow> ld s current md_right;
     n \<leftarrow> ld s current md_collision_next;
     if nh < ch then
       if l \<noteq> 0 then do {
         c \<leftarrow> do_get s l;
         insert_hash_loop s newmeta c
       } else do {
         s \<leftarrow> upd s current (\<lambda>m. m\<lparr>md_left := ni\<rparr>);
         upd s newmeta (\<lambda>m. m\<lparr>md_up := ci\<rparr>)
       }
     else if ch < nh then
       if r \<noteq> 0 then do {
         c \<leftarrow> do_get s r;
         insert_hash_loop s newmeta c
       } else do {
         s \<leftarrow> upd s current (\<lambda>m. m\<lparr>md_right := ni\<rparr>);
         upd s newmeta (\<lambda>m. m\<lparr>md_up := ci\<rparr>)
       }
     else if n \<noteq> 0 then do {
       c \<leftarrow> do_get s n;
       insert_hash_loop s newmeta c
     } else do {
       s \<leftarrow> upd s current (\<lambda>m. m\<lparr>md_collision_next := ni\<rparr>);
       upd s newmeta (\<lambda>m. m\<lparr>md_collision_previous := ci\<rparr>)
     }
   }"

declare insert_hash_loop.simps [code]

definition mcachefs_metadata_do_insert_hash :: "mstate \<Rightarrow> mid \<Rightarrow> mstate option" where
  "mcachefs_metadata_do_insert_hash s newmeta = do {
     s \<leftarrow> mcachefs_metadata_cleanup_hash s newmeta;
     root \<leftarrow> do_get s (hash_root s);
     insert_hash_loop s newmeta root
   }"

definition mcachefs_metadata_brother :: "mstate \<Rightarrow> mid \<Rightarrow> mid option" where
  "mcachefs_metadata_brother s meta = do {
     up \<leftarrow> ld s meta md_up;
     if up \<noteq> 0 then do {
       father \<leftarrow> do_get s up;
       fl \<leftarrow> ld s father md_left;
       fr \<leftarrow> ld s father md_right;
       mi \<leftarrow> ld s meta md_id;
       do_get s (if fl = mi then fr else fl)
     } else Some 0
   }"

definition mcachefs_metadata_uncle :: "mstate \<Rightarrow> mid \<Rightarrow> mid option" where
  "mcachefs_metadata_uncle s meta = do {
     up \<leftarrow> ld s meta md_up;
     if up \<noteq> 0 then do {
       father \<leftarrow> do_get s up;
       mcachefs_metadata_brother s father
     } else Some 0
   }"

text \<open>The part of both rotations that hangs \<open>y\<close> where \<open>x\<close> was.\<close>

definition relink_up :: "mstate \<Rightarrow> mid \<Rightarrow> mid \<Rightarrow> mstate option" where
  "relink_up s x y = do {
     xu \<leftarrow> ld s x md_up;
     yi \<leftarrow> ld s y md_id;
     if xu = 0 then Some (s\<lparr>hash_root := yi\<rparr>)
     else do {
       u \<leftarrow> do_get s xu;
       xi \<leftarrow> ld s x md_id;
       ul \<leftarrow> ld s u md_left;
       if xi = ul then upd s u (\<lambda>m. m\<lparr>md_left := yi\<rparr>)
       else upd s u (\<lambda>m. m\<lparr>md_right := yi\<rparr>)
     }
   }"

definition mcachefs_metadata_rotate_left :: "mstate \<Rightarrow> mid \<Rightarrow> mstate option" where
  "mcachefs_metadata_rotate_left s x = do {
     xr \<leftarrow> ld s x md_right;
     if xr = 0 then Some s
     else do {
       y \<leftarrow> do_get s xr;
       yl \<leftarrow> ld s y md_left;
       s \<leftarrow> upd s x (\<lambda>m. m\<lparr>md_right := yl\<rparr>);
       yl \<leftarrow> ld s y md_left;
       s \<leftarrow> (if yl \<noteq> 0 then do {
               b \<leftarrow> do_get s yl;
               xi \<leftarrow> ld s x md_id;
               upd s b (\<lambda>m. m\<lparr>md_up := xi\<rparr>)
             } else Some s);
       xu \<leftarrow> ld s x md_up;
       s \<leftarrow> upd s y (\<lambda>m. m\<lparr>md_up := xu\<rparr>);
       s \<leftarrow> relink_up s x y;
       xi \<leftarrow> ld s x md_id;
       s \<leftarrow> upd s y (\<lambda>m. m\<lparr>md_left := xi\<rparr>);
       yi \<leftarrow> ld s y md_id;
       upd s x (\<lambda>m. m\<lparr>md_up := yi\<rparr>)
     }
   }"

definition mcachefs_metadata_rotate_right :: "mstate \<Rightarrow> mid \<Rightarrow> mstate option" where
  "mcachefs_metadata_rotate_right s x = do {
     xl \<leftarrow> ld s x md_left;
     if xl = 0 then Some s
     else do {
       y \<leftarrow> do_get s xl;
       yr \<leftarrow> ld s y md_right;
       s \<leftarrow> upd s x (\<lambda>m. m\<lparr>md_left := yr\<rparr>);
       yr \<leftarrow> ld s y md_right;
       s \<leftarrow> (if yr \<noteq> 0 then do {
               b \<leftarrow> do_get s yr;
               xi \<leftarrow> ld s x md_id;
               upd s b (\<lambda>m. m\<lparr>md_up := xi\<rparr>)
             } else Some s);
       xu \<leftarrow> ld s x md_up;
       s \<leftarrow> upd s y (\<lambda>m. m\<lparr>md_up := xu\<rparr>);
       s \<leftarrow> relink_up s x y;
       xi \<leftarrow> ld s x md_id;
       s \<leftarrow> upd s y (\<lambda>m. m\<lparr>md_right := xi\<rparr>);
       yi \<leftarrow> ld s y md_id;
       upd s x (\<lambda>m. m\<lparr>md_up := yi\<rparr>)
     }
   }"

definition mcachefs_metadata_repair_hash_step4_2 :: "mstate \<Rightarrow> mid \<Rightarrow> mstate option" where
  "mcachefs_metadata_repair_hash_step4_2 s newmeta = do {
     up \<leftarrow> ld s newmeta md_up;
     father \<leftarrow> do_get s up;
     fu \<leftarrow> ld s father md_up;
     grandfather \<leftarrow> do_get s fu;
     ni \<leftarrow> ld s newmeta md_id;
     fl \<leftarrow> ld s father md_left;
     s \<leftarrow> (if ni = fl then mcachefs_metadata_rotate_right s grandfather
           else mcachefs_metadata_rotate_left s grandfather);
     s \<leftarrow> upd s father (\<lambda>m. m\<lparr>md_color := BLACK\<rparr>);
     upd s grandfather (\<lambda>m. m\<lparr>md_color := RED\<rparr>)
   }"

text \<open>Case 4 of \<open>repair_hash\<close>: bring the node to the outside, then rotate the grandfather.\<close>

definition repair_hash_case4 :: "mstate \<Rightarrow> mid \<Rightarrow> mid \<Rightarrow> mstate option" where
  "repair_hash_case4 s newmeta father = do {
     fu \<leftarrow> ld s father md_up;
     grandfather \<leftarrow> do_get s fu;
     ni \<leftarrow> ld s newmeta md_id;
     gl \<leftarrow> ld s grandfather md_left;
     gr \<leftarrow> ld s grandfather md_right;
     inner_left \<leftarrow> (if gl \<noteq> 0 then do {
         p \<leftarrow> do_get s gl;
         pr \<leftarrow> ld s p md_right;
         Some (ni = pr)
       } else Some False);
     inner_right \<leftarrow> (if \<not> inner_left \<and> gr \<noteq> 0 then do {
         p \<leftarrow> do_get s gr;
         pl \<leftarrow> ld s p md_left;
         Some (ni = pl)
       } else Some False);
     s \<leftarrow> (if inner_left then mcachefs_metadata_rotate_left s father
           else if inner_right then mcachefs_metadata_rotate_right s father
           else Some s);
     nl \<leftarrow> ld s newmeta md_left;
     nr \<leftarrow> ld s newmeta md_right;
     sibling \<leftarrow> (if inner_left then do_get s nl
                 else if inner_right then do_get s nr
                 else Some newmeta);
     if sibling \<noteq> 0 then mcachefs_metadata_repair_hash_step4_2 s sibling else Some s
   }"

partial_function (option) mcachefs_metadata_repair_hash :: "mstate \<Rightarrow> mid \<Rightarrow> mstate option" where
  "mcachefs_metadata_repair_hash s newmeta = do {
     up \<leftarrow> ld s newmeta md_up;
     if up = 0 then upd s newmeta (\<lambda>m. m\<lparr>md_color := BLACK\<rparr>)
     else do {
       father \<leftarrow> do_get s up;
       fc \<leftarrow> ld s father md_color;
       if fc = BLACK then Some s
       else do {
         uncle \<leftarrow> mcachefs_metadata_uncle s newmeta;
         uc \<leftarrow> (if uncle \<noteq> 0 then ld s uncle md_color else Some BLACK);
         if uncle \<noteq> 0 \<and> uc = RED then do {
           s \<leftarrow> upd s father (\<lambda>m. m\<lparr>md_color := BLACK\<rparr>);
           s \<leftarrow> upd s uncle (\<lambda>m. m\<lparr>md_color := BLACK\<rparr>);
           fu \<leftarrow> ld s father md_up;
           grandfather \<leftarrow> do_get s fu;
           s \<leftarrow> upd s grandfather (\<lambda>m. m\<lparr>md_color := RED\<rparr>);
           mcachefs_metadata_repair_hash s grandfather
         } else repair_hash_case4 s newmeta father
       }
     }
   }"

declare mcachefs_metadata_repair_hash.simps [code]

definition mcachefs_metadata_insert_hash :: "mstate \<Rightarrow> mid \<Rightarrow> mstate option" where
  "mcachefs_metadata_insert_hash s newmeta = do {
     s \<leftarrow> mcachefs_metadata_do_insert_hash s newmeta;
     s \<leftarrow> upd s newmeta (\<lambda>m. m\<lparr>md_color := RED\<rparr>);
     mcachefs_metadata_repair_hash s newmeta
   }"

end
