(* ===== verification/Hash_Refine.thy ===== *)
theory Hash_Refine
  imports Hash_Tree
begin

text \<open>
  The store of Hash_Tree represents a tree of Rb_Tree, and every pointer operation of the
  insertion refines its pure counterpart: it does not fault, and it changes nothing but the
  tree links and colours of the entries of the tree.
\<close>

section \<open>A store represents a tree\<close>

fun rid :: "htree \<Rightarrow> mid" where
  "rid Leaf = 0"
| "rid (Node _ (i, _, _) _) = i"

fun chain :: "mstate \<Rightarrow> mid \<Rightarrow> mid list \<Rightarrow> bool" where
  "chain s i [] \<longleftrightarrow> md_collision_next (entry s i) = 0"
| "chain s i (j # xs) \<longleftrightarrow> md_collision_next (entry s i) = j \<and> valid s j \<and>
     md_id (entry s j) = j \<and> md_collision_previous (entry s j) = i \<and> chain s j xs"

text \<open>The entry \<open>i\<close> is a tree node with these links, colour and colliders.\<close>

definition tnode :: "mstate \<Rightarrow> mid \<Rightarrow> node \<Rightarrow> mid \<Rightarrow> mid \<Rightarrow> bool" where
  "tnode s u n l r \<longleftrightarrow> (case n of (i, c, xs) \<Rightarrow>
     valid s i \<and> md_id (entry s i) = i \<and> md_up (entry s i) = u \<and>
     md_left (entry s i) = l \<and> md_right (entry s i) = r \<and> md_color (entry s i) = c \<and>
     md_collision_previous (entry s i) = 0 \<and> chain s i xs)"

fun shape :: "mstate \<Rightarrow> mid \<Rightarrow> htree \<Rightarrow> bool" where
  "shape s u Leaf = True"
| "shape s u (Node l n r) \<longleftrightarrow>
     tnode s u n (rid l) (rid r) \<and> shape s (fst n) l \<and> shape s (fst n) r"

fun cup :: "frame list \<Rightarrow> mid" where
  "cup [] = 0"
| "cup (Lf n _ # _) = fst n"
| "cup (Rt _ n # _) = fst n"

text \<open>The frames \<open>k\<close> surround a subtree whose root is \<open>p\<close>.\<close>

fun ctx_at :: "mstate \<Rightarrow> frame list \<Rightarrow> mid \<Rightarrow> bool" where
  "ctx_at s [] p \<longleftrightarrow> hash_root s = p"
| "ctx_at s (Lf n r # k) p \<longleftrightarrow>
     tnode s (cup k) n p (rid r) \<and> shape s (fst n) r \<and> ctx_at s k (fst n)"
| "ctx_at s (Rt l n # k) p \<longleftrightarrow>
     tnode s (cup k) n (rid l) p \<and> shape s (fst n) l \<and> ctx_at s k (fst n)"

definition table :: "mstate \<Rightarrow> htree \<Rightarrow> bool" where
  "table s t \<longleftrightarrow> shape s 0 t \<and> hash_root s = rid t \<and> distinct (ids t)"

lemma focus: "shape s 0 (plug t k) \<and> hash_root s = rid (plug t k) \<longleftrightarrow>
  shape s (cup k) t \<and> ctx_at s k (rid t)"
proof (induction t k rule: plug.induct)
  case (2 t n r k)
  then show ?case by (cases n) auto
next
  case (3 t l n k)
  then show ?case by (cases n) auto
qed auto

lemma table_plug: "table s (plug t k) \<longleftrightarrow>
  shape s (cup k) t \<and> ctx_at s k (rid t) \<and> distinct (ids (plug t k))"
  using focus [of s t k] by (auto simp: table_def)

section \<open>Heads and frames\<close>

fun hds :: "htree \<Rightarrow> mid list" where
  "hds Leaf = []"
| "hds (Node l n r) = hds l @ fst n # hds r"

fun khds :: "frame list \<Rightarrow> mid list" where
  "khds [] = []"
| "khds (Lf n r # k) = fst n # hds r @ khds k"
| "khds (Rt l n # k) = fst n # hds l @ khds k"

lemma hds_buckets: "hds t = map hd (buckets t)"
  by (induction t) (auto simp: buckets_def split: prod.split)

lemma set_khds: "set (khds k) = hd ` set (left_of k) \<union> hd ` set (right_of k)"
  by (induction k rule: left_of.induct) (auto simp: hds_buckets)

lemma rid_in_hds: "t \<noteq> Leaf \<Longrightarrow> rid t \<in> set (hds t)"
  by (cases t rule: rcol.cases) auto

lemma rid_Leaf: "shape s u t \<Longrightarrow> rid t = 0 \<longleftrightarrow> t = Leaf"
  by (cases t rule: rcol.cases) (auto simp: tnode_def valid_def)

lemma shape_valid: "shape s u t \<Longrightarrow> i \<in> set (hds t) \<Longrightarrow> valid s i \<and> md_id (entry s i) = i"
  by (induction t arbitrary: u) (auto simp: tnode_def)

lemma shape_valid_rid: "shape s u t \<Longrightarrow> t \<noteq> Leaf \<Longrightarrow> valid s (rid t) \<and> md_id (entry s (rid t)) = rid t"
  using shape_valid rid_in_hds by blast

lemma ctx_valid: "ctx_at s k p \<Longrightarrow> i \<in> set (khds k) \<Longrightarrow> valid s i \<and> md_id (entry s i) = i"
  by (induction k arbitrary: p rule: khds.induct) (auto simp: tnode_def dest: shape_valid)

lemma cup_in: "k \<noteq> [] \<Longrightarrow> cup k \<in> set (khds k)"
  by (cases k rule: cup.cases) auto

lemma distinct_hd_concat:
  "distinct (concat bs) \<Longrightarrow> [] \<notin> set bs \<Longrightarrow> distinct (map hd bs)"
proof (induction bs)
  case (Cons b bs)
  then have "hd b \<notin> hd ` set bs"
    by (auto dest!: hd_in_set) (metis IntI emptyE hd_in_set UN_I)
  with Cons show ?case by auto
qed simp

lemma Nil_notin_buckets: "[] \<notin> set (buckets t)"
  by (auto simp: buckets_def)

lemma distinct_hds: "distinct (ids t) \<Longrightarrow> distinct (hds t)"
  by (simp add: hds_buckets ids_def distinct_hd_concat Nil_notin_buckets)

lemma set_hds_plug: "set (hds (plug t k)) = set (hds t) \<union> set (khds k)"
  by (induction t k rule: plug.induct) auto

lemma distinct_hds_plug:
  "distinct (hds (plug t k)) \<longleftrightarrow>
     distinct (hds t) \<and> distinct (khds k) \<and> set (hds t) \<inter> set (khds k) = {}"
  by (induction t k rule: plug.induct) auto

section \<open>Frame rules\<close>

text \<open>What the tree operations leave unchanged in every entry.\<close>

definition strip :: "metadata \<Rightarrow> metadata" where
  "strip m = m\<lparr>md_up := 0, md_left := 0, md_right := 0, md_color := BLACK\<rparr>"

definition links :: "metadata \<Rightarrow> mid \<times> mid \<times> mid \<times> color" where
  "links m = (md_up m, md_left m, md_right m, md_color m)"

definition same_data :: "mstate \<Rightarrow> mstate \<Rightarrow> bool" where
  "same_data s s' \<longleftrightarrow> alloced_nb s' = alloced_nb s \<and> first_free s' = first_free s \<and>
     files s' = files s \<and> timeslices s' = timeslices s \<and>
     timeslice_current s' = timeslice_current s \<and>
     (\<forall>i. strip (entry s' i) = strip (entry s i))"

lemma strip_simps [simp]:
  "strip (m\<lparr>md_up := v\<rparr>) = strip m" "strip (m\<lparr>md_left := v\<rparr>) = strip m"
  "strip (m\<lparr>md_right := v\<rparr>) = strip m" "strip (m\<lparr>md_color := c\<rparr>) = strip m"
  by (simp_all add: strip_def)

lemma links_simps [simp]:
  "links (m\<lparr>md_up := v\<rparr>) = (v, md_left m, md_right m, md_color m)"
  "links (m\<lparr>md_left := v\<rparr>) = (md_up m, v, md_right m, md_color m)"
  "links (m\<lparr>md_right := v\<rparr>) = (md_up m, md_left m, v, md_color m)"
  "links (m\<lparr>md_color := c\<rparr>) = (md_up m, md_left m, md_right m, c)"
  by (simp_all add: links_def)

lemma strip_eqD:
  assumes "strip m = strip m'"
  shows "md_id m = md_id m'" "md_hash m = md_hash m'" "md_d_name m = md_d_name m'"
    "md_collision_next m = md_collision_next m'"
    "md_collision_previous m = md_collision_previous m'"
    "md_father m = md_father m'" "md_child m = md_child m'" "md_next m = md_next m'"
    "md_st m = md_st m'" "md_fh m = md_fh m'" "md_hardlink m = md_hardlink m'"
  using assms by (cases m; cases m'; simp add: strip_def)+

lemma same_data_refl [simp]: "same_data s s"
  by (simp add: same_data_def)

lemma same_data_trans: "same_data s s' \<Longrightarrow> same_data s' s'' \<Longrightarrow> same_data s s''"
  by (simp add: same_data_def)

lemma same_data_upd [intro]:
  "same_data s s' \<Longrightarrow> strip m = strip (entry s' p) \<Longrightarrow>
   same_data s (s'\<lparr>entry := (entry s')(p := m)\<rparr>)"
  by (simp add: same_data_def)

lemma same_data_root [intro]: "same_data s s' \<Longrightarrow> same_data s (s'\<lparr>hash_root := r\<rparr>)"
  by (simp add: same_data_def)

lemma same_data_valid: "same_data s s' \<Longrightarrow> valid s' p = valid s p"
  by (simp add: same_data_def valid_def)

lemma same_dataD:
  assumes "same_data s s'"
  shows "md_id (entry s' i) = md_id (entry s i)"
    "md_hash (entry s' i) = md_hash (entry s i)"
    "md_collision_next (entry s' i) = md_collision_next (entry s i)"
    "md_collision_previous (entry s' i) = md_collision_previous (entry s i)"
  using assms strip_eqD [of "entry s' i" "entry s i"] by (simp_all add: same_data_def)

lemma chain_same: "same_data s s' \<Longrightarrow> chain s' i xs = chain s i xs"
  by (induction xs arbitrary: i) (simp_all add: same_dataD same_data_valid)

lemma tnode_same:
  assumes "same_data s s'"
  shows "tnode s' u (i, c, xs) l r \<longleftrightarrow>
    valid s i \<and> md_id (entry s i) = i \<and> links (entry s' i) = (u, l, r, c) \<and>
    md_collision_previous (entry s i) = 0 \<and> chain s i xs"
  using assms by (auto simp: tnode_def links_def same_dataD same_data_valid chain_same)

lemma tnode_links: "tnode s u (i, c, xs) l r \<Longrightarrow> links (entry s i) = (u, l, r, c)"
  by (simp add: tnode_def links_def)

lemma shape_cong:
  assumes "same_data s s'" and "\<And>i. i \<in> set (hds t) \<Longrightarrow> links (entry s' i) = links (entry s i)"
  shows "shape s' u t = shape s u t"
  using assms(2)
proof (induction t arbitrary: u)
  case (Node l n r)
  obtain i c xs where n: "n = (i, c, xs)" by (cases n)
  show ?case using Node
    by (simp add: n tnode_same [OF assms(1)]) (auto simp: tnode_def links_def)
qed simp

lemma shape_up:
  assumes "same_data s s'" and "shape s u t" and "distinct (hds t)"
    and "\<And>i. i \<in> set (hds t) \<Longrightarrow> i \<noteq> rid t \<Longrightarrow> links (entry s' i) = links (entry s i)"
    and "t \<noteq> Leaf \<Longrightarrow> links (entry s' (rid t)) = links ((entry s (rid t))\<lparr>md_up := v\<rparr>)"
  shows "shape s' v t"
proof (cases t rule: rcol.cases)
  case (2 l i c xs r)
  have "shape s' i l = shape s i l" "shape s' i r = shape s i r"
    using assms(3,4) 2 by (auto intro!: shape_cong [OF assms(1)])
  then show ?thesis using assms(2,5) 2
    by (simp add: tnode_same [OF assms(1)]) (auto simp: tnode_def)
qed simp

lemma ctx_cong:
  assumes "same_data s s'" and "hash_root s' = hash_root s"
    and "\<And>i. i \<in> set (khds k) \<Longrightarrow> links (entry s' i) = links (entry s i)"
  shows "ctx_at s' k p = ctx_at s k p"
  using assms(3)
proof (induction k arbitrary: p rule: khds.induct)
  case (2 n r k)
  obtain i c xs where n: "n = (i, c, xs)" by (cases n)
  have "shape s' i r = shape s i r"
    using 2(2) n by (intro shape_cong [OF assms(1)]) simp
  with 2 show ?case
    by (simp add: n tnode_same [OF assms(1)]) (auto simp: tnode_def links_def)
next
  case (3 l n k)
  obtain i c xs where n: "n = (i, c, xs)" by (cases n)
  have "shape s' i l = shape s i l"
    using 3(2) n by (intro shape_cong [OF assms(1)]) simp
  with 3 show ?case
    by (simp add: n tnode_same [OF assms(1)]) (auto simp: tnode_def links_def)
qed (simp add: assms(2))

text \<open>Only links and colours change, and only in the entries of \<open>A\<close>.\<close>

definition only :: "mid set \<Rightarrow> mstate \<Rightarrow> mstate \<Rightarrow> bool" where
  "only A s s' \<longleftrightarrow> same_data s s' \<and> (\<forall>i. i \<notin> A \<longrightarrow> entry s' i = entry s i)"

lemma only_refl [simp]: "only A s s"
  by (simp add: only_def)

lemma only_trans: "only A s s' \<Longrightarrow> only A s' s'' \<Longrightarrow> only A s s''"
  by (auto simp: only_def intro: same_data_trans)

lemma only_mono: "only A s s' \<Longrightarrow> A \<subseteq> B \<Longrightarrow> only B s s'"
  by (auto simp: only_def)

lemma only_same_data: "only A s s' \<Longrightarrow> same_data s s'"
  by (simp add: only_def)

section \<open>Rotations\<close>

fun relinked :: "mstate \<Rightarrow> frame list \<Rightarrow> mid \<Rightarrow> mstate" where
  "relinked s [] y = s\<lparr>hash_root := y\<rparr>"
| "relinked s (Lf n _ # _) y = s\<lparr>entry := (entry s)(fst n := (entry s (fst n))\<lparr>md_left := y\<rparr>)\<rparr>"
| "relinked s (Rt _ n # _) y = s\<lparr>entry := (entry s)(fst n := (entry s (fst n))\<lparr>md_right := y\<rparr>)\<rparr>"

lemma same_data_relinked [simp]: "same_data s (relinked s k y)"
  by (cases "(s, k, y)" rule: relinked.cases) (auto intro!: same_data_upd same_data_root)

lemma relinked_entry: "i \<notin> set (khds k) \<Longrightarrow> entry (relinked s k y) i = entry s i"
  by (cases "(s, k, y)" rule: relinked.cases) auto

lemma valid_relinked [simp]: "valid (relinked s k y) p = valid s p"
  by (rule same_data_valid) simp

lemma relink_up_ok:
  assumes "ctx_at s k x" and "md_up (entry s x) = cup k"
    and "valid s x" "md_id (entry s x) = x" "valid s y" "md_id (entry s y) = y"
    and "x \<notin> set (khds k)"
  shows "relink_up s x y = Some (relinked s k y)"
proof (cases k rule: cup.cases)
  case 1
  with assms show ?thesis by (simp add: relink_up_def run_simps)
next
  case (2 n r k')
  with assms show ?thesis by (cases n) (auto simp: relink_up_def run_simps tnode_def)
next
  case (3 l n k')
  have "rid l \<noteq> x"
  proof (cases "l = Leaf")
    case True
    then show ?thesis using assms(3) by auto
  next
    case False
    then show ?thesis using rid_in_hds [OF False] assms(7) 3 by auto
  qed
  then show ?thesis using assms 3 by (cases n) (auto simp: relink_up_def run_simps tnode_def)
qed

lemma ctx_relinked:
  assumes "ctx_at s k x" and "distinct (khds k)"
  shows "ctx_at (relinked s k y) k y"
proof (cases k rule: cup.cases)
  case (2 n r k')
  let ?s = "relinked s (Lf n r # k') y"
  have "shape ?s (fst n) r = shape s (fst n) r" "ctx_at ?s k' (fst n) = ctx_at s k' (fst n)"
    by (rule shape_cong ctx_cong; use assms(2) 2 in \<open>auto intro!: same_data_upd\<close>)+
  with assms 2 show ?thesis
    by (cases n) (simp del: relinked.simps add: tnode_same [OF same_data_relinked],
      auto simp: tnode_def links_def)
next
  case (3 l n k')
  let ?s = "relinked s (Rt l n # k') y"
  have "shape ?s (fst n) l = shape s (fst n) l" "ctx_at ?s k' (fst n) = ctx_at s k' (fst n)"
    by (rule shape_cong ctx_cong; use assms(2) 3 in \<open>auto intro!: same_data_upd\<close>)+
  with assms 3 show ?thesis
    by (cases n) (simp del: relinked.simps add: tnode_same [OF same_data_relinked],
      auto simp: tnode_def links_def)
qed (use assms in simp)

text \<open>
  The two rotations at once: the entry \<open>x\<close> gives its place to its child \<open>y\<close>, takes
  the inner subtree \<open>b\<close> of \<open>y\<close>, and becomes a child of \<open>y\<close>.
\<close>

definition set_up :: "mid \<Rightarrow> mid \<Rightarrow> mstate \<Rightarrow> mstate" where
  "set_up i v s = s\<lparr>entry := (entry s)(i := (entry s i)\<lparr>md_up := v\<rparr>)\<rparr>"

definition set_left :: "mid \<Rightarrow> mid \<Rightarrow> mstate \<Rightarrow> mstate" where
  "set_left i v s = s\<lparr>entry := (entry s)(i := (entry s i)\<lparr>md_left := v\<rparr>)\<rparr>"

definition set_right :: "mid \<Rightarrow> mid \<Rightarrow> mstate \<Rightarrow> mstate" where
  "set_right i v s = s\<lparr>entry := (entry s)(i := (entry s i)\<lparr>md_right := v\<rparr>)\<rparr>"

lemmas set_link_defs = set_up_def set_left_def set_right_def

lemma same_data_set_links [simp]:
  "same_data s (set_up i v s') = same_data s s'" "same_data s (set_left i v s') = same_data s s'"
  "same_data s (set_right i v s') = same_data s s'"
  by (auto simp: set_link_defs same_data_def)

lemma set_links_valid [simp]:
  "valid (set_up i v s) p = valid s p" "valid (set_left i v s) p = valid s p"
  "valid (set_right i v s) p = valid s p"
  by (simp_all add: set_link_defs)

lemma set_links_root [simp]:
  "hash_root (set_up i v s) = hash_root s" "hash_root (set_left i v s) = hash_root s"
  "hash_root (set_right i v s) = hash_root s"
  by (simp_all add: set_link_defs)

lemma set_links_entry [simp]:
  "entry (set_up i v s) j = (if j = i then (entry s i)\<lparr>md_up := v\<rparr> else entry s j)"
  "entry (set_left i v s) j = (if j = i then (entry s i)\<lparr>md_left := v\<rparr> else entry s j)"
  "entry (set_right i v s) j = (if j = i then (entry s i)\<lparr>md_right := v\<rparr> else entry s j)"
  by (simp_all add: set_link_defs)

definition rotated_left :: "mstate \<Rightarrow> frame list \<Rightarrow> mid \<Rightarrow> mid \<Rightarrow> mid \<Rightarrow> mstate" where
  "rotated_left s k x y b =
     (let s1 = set_right x b s; s2 = (if b = 0 then s1 else set_up b x s1)
      in set_up x y (set_left y x (relinked (set_up y (cup k) s2) k y)))"

definition rotated_right :: "mstate \<Rightarrow> frame list \<Rightarrow> mid \<Rightarrow> mid \<Rightarrow> mid \<Rightarrow> mstate" where
  "rotated_right s k x y b =
     (let s1 = set_left x b s; s2 = (if b = 0 then s1 else set_up b x s1)
      in set_up x y (set_right y x (relinked (set_up y (cup k) s2) k y)))"

text \<open>What a rotation needs of the store: the nodes \<open>x\<close> and \<open>y\<close>, the subtree \<open>b\<close>
  between them, the frames, and that none of them overlap.\<close>

lemma rotate_facts:
  assumes "tnode s (cup k) (x, c, xs) lx rx" and "tnode s x (y, d, ys) ly ry"
    and "ctx_at s k x" and "shape s y b"
    and "distinct (x # y # hds b @ khds k)"
  shows "valid s x" "md_id (entry s x) = x" "md_up (entry s x) = cup k"
    "md_left (entry s x) = lx" "md_right (entry s x) = rx"
    "valid s y" "md_id (entry s y) = y" "md_left (entry s y) = ly" "md_right (entry s y) = ry"
    "x \<noteq> y" "x \<notin> set (khds k)" "y \<notin> set (khds k)"
    "rid b \<noteq> x" "rid b \<noteq> y" "rid b \<noteq> 0 \<Longrightarrow> valid s (rid b)" "rid b \<noteq> 0 \<Longrightarrow> rid b \<notin> set (khds k)"
proof -
  show x: "valid s x" and "md_id (entry s x) = x" "md_up (entry s x) = cup k"
    "md_left (entry s x) = lx" "md_right (entry s x) = rx"
    using assms(1) by (simp_all add: tnode_def)
  show y: "valid s y" and "md_id (entry s y) = y" "md_left (entry s y) = ly" "md_right (entry s y) = ry"
    using assms(2) by (simp_all add: tnode_def)
  show "x \<noteq> y" "x \<notin> set (khds k)" "y \<notin> set (khds k)"
    using assms(5) by auto
  have b: "b \<noteq> Leaf" "rid b \<in> set (hds b)" "valid s (rid b)" if "rid b \<noteq> 0"
    using that rid_in_hds [of b] shape_valid_rid [OF assms(4)] by fastforce+
  show "rid b \<noteq> x" using b(2) x assms(5) by (cases "rid b = 0") auto
  show "rid b \<noteq> y" using b(2) y assms(5) by (cases "rid b = 0") auto
  show "valid s (rid b)" "rid b \<notin> set (khds k)" if "rid b \<noteq> 0"
    using b [OF that] assms(5) by auto
qed

lemma rotate_left_exec:
  assumes "tnode s (cup k) (x, c, xs) lx y" and "tnode s x (y, d, ys) (rid b) ry"
    and "ctx_at s k x" and "shape s y b"
    and "distinct (x # y # hds b @ khds k)"
  shows "mcachefs_metadata_rotate_left s x = Some (rotated_left s k x y (rid b))"
proof -
  note f = rotate_facts [OF assms]
  define s3 where "s3 = set_up y (cup k)
    (if rid b = 0 then set_right x (rid b) s else set_up (rid b) x (set_right x (rid b) s))"
  have "ctx_at s3 k x = ctx_at s k x"
    by (rule ctx_cong) (use f in \<open>auto simp: s3_def\<close>)
  then have r: "relink_up s3 x y = Some (relinked s3 k y)"
    by (intro relink_up_ok) (use assms(3) f in \<open>auto simp: s3_def\<close>)
  have v: "valid s3 x" "valid s3 y" "md_id (entry s3 x) = x" "md_id (entry s3 y) = y"
    using f by (auto simp: s3_def)
  have e: "entry (relinked s3 k y) x = entry s3 x" "entry (relinked s3 k y) y = entry s3 y"
    using f by (simp_all add: relinked_entry)
  show ?thesis using f r v e
    by (cases "rid b = 0") (simp_all add: mcachefs_metadata_rotate_left_def run_simps
      rotated_left_def Let_def s3_def set_link_defs)
qed

lemma rotate_right_exec:
  assumes "tnode s (cup k) (x, c, xs) y rx" and "tnode s x (y, d, ys) ly (rid b)"
    and "ctx_at s k x" and "shape s y b"
    and "distinct (x # y # hds b @ khds k)"
  shows "mcachefs_metadata_rotate_right s x = Some (rotated_right s k x y (rid b))"
proof -
  note f = rotate_facts [OF assms]
  define s3 where "s3 = set_up y (cup k)
    (if rid b = 0 then set_left x (rid b) s else set_up (rid b) x (set_left x (rid b) s))"
  have "ctx_at s3 k x = ctx_at s k x"
    by (rule ctx_cong) (use f in \<open>auto simp: s3_def\<close>)
  then have r: "relink_up s3 x y = Some (relinked s3 k y)"
    by (intro relink_up_ok) (use assms(3) f in \<open>auto simp: s3_def\<close>)
  have v: "valid s3 x" "valid s3 y" "md_id (entry s3 x) = x" "md_id (entry s3 y) = y"
    using f by (auto simp: s3_def)
  have e: "entry (relinked s3 k y) x = entry s3 x" "entry (relinked s3 k y) y = entry s3 y"
    using f by (simp_all add: relinked_entry)
  show ?thesis using f r v e
    by (cases "rid b = 0") (simp_all add: mcachefs_metadata_rotate_right_def run_simps
      rotated_right_def Let_def s3_def set_link_defs)
qed

lemma rotate_left_ok:
  assumes "shape s (cup k) (Node a (x, c, xs) (Node b (y, d, ys) e))"
    and "ctx_at s k x"
    and "distinct (hds (plug (Node a (x, c, xs) (Node b (y, d, ys) e)) k))"
  shows "\<exists>s'. mcachefs_metadata_rotate_left s x = Some s' \<and>
    shape s' (cup k) (Node (Node a (x, c, xs) b) (y, d, ys) e) \<and> ctx_at s' k y \<and>
    only (set (hds (plug (Node a (x, c, xs) (Node b (y, d, ys) e)) k))) s s'"
proof -
  have x: "tnode s (cup k) (x, c, xs) (rid a) y" and y: "tnode s x (y, d, ys) (rid b) (rid e)"
    and abe: "shape s x a" "shape s y b" "shape s y e"
    using assms(1) by auto
  have dist: "distinct (x # y # hds a @ hds b @ hds e)" "distinct (khds k)"
    "set (x # y # hds a @ hds b @ hds e) \<inter> set (khds k) = {}"
    using assms(3) unfolding distinct_hds_plug by auto
  have d: "distinct (x # y # hds b @ khds k)"
    using dist by auto
  note f = rotate_facts [OF x y assms(2) abe(2) d]
  define s3 where "s3 = set_up y (cup k)
    (if rid b = 0 then set_right x (rid b) s else set_up (rid b) x (set_right x (rid b) s))"
  define s' where "s' = rotated_left s k x y (rid b)"
  have s': "s' = set_up x y (set_left y x (relinked s3 k y))"
    by (simp add: s'_def s3_def rotated_left_def Let_def)
  have sd: "same_data s s3" "same_data s s'"
    using same_data_trans [OF _ same_data_relinked, of s s3] by (auto simp: s3_def s')
  have ctx3: "ctx_at s3 k x"
    by (subst ctx_cong [OF sd(1)]) (use assms(2) f in \<open>auto simp: s3_def\<close>)
  have "ctx_at s' k y = ctx_at (relinked s3 k y) k y"
    by (rule ctx_cong) (use f in \<open>auto simp: s'\<close>)
  with ctx_relinked [OF ctx3 dist(2)] have ctx: "ctx_at s' k y"
    by simp
  have e: "entry s' i = entry s3 i" if "i \<notin> set (khds k)" "i \<noteq> x" "i \<noteq> y" for i
    using that by (simp add: s' relinked_entry)
  have "entry s3 x = (entry s x)\<lparr>md_right := rid b\<rparr>" "entry s3 y = (entry s y)\<lparr>md_up := cup k\<rparr>"
    using f(10,13,14) by (auto simp: s3_def)
  then have ex: "entry s' x = (entry s x)\<lparr>md_right := rid b, md_up := y\<rparr>"
    and ey: "entry s' y = (entry s y)\<lparr>md_up := cup k, md_left := x\<rparr>"
    using f(10-12) by (simp_all add: s' relinked_entry)
  have cx: "md_color (entry s x) = c" "md_color (entry s y) = d"
    using x y by (simp_all add: tnode_def)
  have lx: "links (entry s' x) = (y, rid a, rid b, c)" and ly: "links (entry s' y) = (cup k, x, rid e, d)"
    using f(4,5,8,9) cx by (simp_all add: ex ey links_def)
  have same: "entry s' i = entry s i" if "i \<notin> set (khds k)" "i \<noteq> x" "i \<noteq> y" "i \<noteq> rid b" for i
    using that by (simp add: e) (simp add: s3_def)
  have nb: "i \<noteq> rid b" if "i \<in> set (hds a) \<union> set (hds e)" for i
    using that dist(1) rid_in_hds [of b] shape_valid [OF abe(1), of i] shape_valid [OF abe(3), of i]
    by (cases "b = Leaf") auto
  have "links (entry s' i) = links (entry s i)" if "i \<in> set (hds a) \<union> set (hds e)" for i
    using that nb [OF that] dist by (subst same) auto
  then have "shape s' x a" "shape s' y e"
    using abe shape_cong [OF sd(2), of a x] shape_cong [OF sd(2), of e y] by simp_all
  moreover have "shape s' x b"
  proof (rule shape_up [OF sd(2) abe(2)])
    show "links (entry s' (rid b)) = links ((entry s (rid b))\<lparr>md_up := x\<rparr>)" if "b \<noteq> Leaf"
      using that f rid_Leaf [OF abe(2)] by (simp add: e) (simp add: s3_def)
    show "links (entry s' i) = links (entry s i)" if "i \<in> set (hds b)" "i \<noteq> rid b" for i
      using that dist by (subst same) auto
  qed (use dist in auto)
  moreover have tn: "tnode s' y (x, c, xs) (rid a) (rid b)" "tnode s' (cup k) (y, d, ys) x (rid e)"
    unfolding tnode_same [OF sd(2)] using x y lx ly by (simp_all add: tnode_def)
  ultimately have "shape s' (cup k) (Node (Node a (x, c, xs) b) (y, d, ys) e)"
    using tn by simp
  moreover have "\<forall>i. i \<notin> set (hds (plug (Node a (x, c, xs) (Node b (y, d, ys) e)) k)) \<longrightarrow> entry s' i = entry s i"
    using same rid_in_hds [of b] s3_def e by (cases "b = Leaf") (auto simp: set_hds_plug)
  ultimately show ?thesis
    using rotate_left_exec [OF x y assms(2) abe(2) d] ctx sd(2) by (auto simp: s'_def only_def)
qed

lemma rotate_right_ok:
  assumes "shape s (cup k) (Node (Node e (y, d, ys) b) (x, c, xs) a)"
    and "ctx_at s k x"
    and "distinct (hds (plug (Node (Node e (y, d, ys) b) (x, c, xs) a) k))"
  shows "\<exists>s'. mcachefs_metadata_rotate_right s x = Some s' \<and>
    shape s' (cup k) (Node e (y, d, ys) (Node b (x, c, xs) a)) \<and> ctx_at s' k y \<and>
    only (set (hds (plug (Node (Node e (y, d, ys) b) (x, c, xs) a) k))) s s'"
proof -
  have x: "tnode s (cup k) (x, c, xs) y (rid a)" and y: "tnode s x (y, d, ys) (rid e) (rid b)"
    and abe: "shape s x a" "shape s y b" "shape s y e"
    using assms(1) by auto
  have dist: "distinct (x # y # hds a @ hds b @ hds e)" "distinct (khds k)"
    "set (x # y # hds a @ hds b @ hds e) \<inter> set (khds k) = {}"
    using assms(3) unfolding distinct_hds_plug by auto
  have d: "distinct (x # y # hds b @ khds k)"
    using dist by auto
  note f = rotate_facts [OF x y assms(2) abe(2) d]
  define s3 where "s3 = set_up y (cup k)
    (if rid b = 0 then set_left x (rid b) s else set_up (rid b) x (set_left x (rid b) s))"
  define s' where "s' = rotated_right s k x y (rid b)"
  have s': "s' = set_up x y (set_right y x (relinked s3 k y))"
    by (simp add: s'_def s3_def rotated_right_def Let_def)
  have sd: "same_data s s3" "same_data s s'"
    using same_data_trans [OF _ same_data_relinked, of s s3] by (auto simp: s3_def s')
  have ctx3: "ctx_at s3 k x"
    by (subst ctx_cong [OF sd(1)]) (use assms(2) f in \<open>auto simp: s3_def\<close>)
  have "ctx_at s' k y = ctx_at (relinked s3 k y) k y"
    by (rule ctx_cong) (use f in \<open>auto simp: s'\<close>)
  with ctx_relinked [OF ctx3 dist(2)] have ctx: "ctx_at s' k y"
    by simp
  have e: "entry s' i = entry s3 i" if "i \<notin> set (khds k)" "i \<noteq> x" "i \<noteq> y" for i
    using that by (simp add: s' relinked_entry)
  have "entry s3 x = (entry s x)\<lparr>md_left := rid b\<rparr>" "entry s3 y = (entry s y)\<lparr>md_up := cup k\<rparr>"
    using f(10,13,14) by (auto simp: s3_def)
  then have ex: "entry s' x = (entry s x)\<lparr>md_left := rid b, md_up := y\<rparr>"
    and ey: "entry s' y = (entry s y)\<lparr>md_up := cup k, md_right := x\<rparr>"
    using f(10-12) by (simp_all add: s' relinked_entry)
  have cx: "md_color (entry s x) = c" "md_color (entry s y) = d"
    using x y by (simp_all add: tnode_def)
  have lx: "links (entry s' x) = (y, rid b, rid a, c)" and ly: "links (entry s' y) = (cup k, rid e, x, d)"
    using f(4,5,8,9) cx by (simp_all add: ex ey links_def)
  have same: "entry s' i = entry s i" if "i \<notin> set (khds k)" "i \<noteq> x" "i \<noteq> y" "i \<noteq> rid b" for i
    using that by (simp add: e) (simp add: s3_def)
  have nb: "i \<noteq> rid b" if "i \<in> set (hds a) \<union> set (hds e)" for i
    using that dist(1) rid_in_hds [of b] shape_valid [OF abe(1), of i] shape_valid [OF abe(3), of i]
    by (cases "b = Leaf") auto
  have "links (entry s' i) = links (entry s i)" if "i \<in> set (hds a) \<union> set (hds e)" for i
    using that nb [OF that] dist by (subst same) auto
  then have "shape s' x a" "shape s' y e"
    using abe shape_cong [OF sd(2), of a x] shape_cong [OF sd(2), of e y] by simp_all
  moreover have "shape s' x b"
  proof (rule shape_up [OF sd(2) abe(2)])
    show "links (entry s' (rid b)) = links ((entry s (rid b))\<lparr>md_up := x\<rparr>)" if "b \<noteq> Leaf"
      using that f rid_Leaf [OF abe(2)] by (simp add: e) (simp add: s3_def)
    show "links (entry s' i) = links (entry s i)" if "i \<in> set (hds b)" "i \<noteq> rid b" for i
      using that dist by (subst same) auto
  qed (use dist in auto)
  moreover have tn: "tnode s' y (x, c, xs) (rid b) (rid a)" "tnode s' (cup k) (y, d, ys) (rid e) x"
    unfolding tnode_same [OF sd(2)] using x y lx ly by (simp_all add: tnode_def)
  ultimately have "shape s' (cup k) (Node e (y, d, ys) (Node b (x, c, xs) a))"
    using tn by simp
  moreover have "\<forall>i. i \<notin> set (hds (plug (Node (Node e (y, d, ys) b) (x, c, xs) a) k)) \<longrightarrow> entry s' i = entry s i"
    using same rid_in_hds [of b] s3_def e by (cases "b = Leaf") (auto simp: set_hds_plug)
  ultimately show ?thesis
    using rotate_right_exec [OF x y assms(2) abe(2) d] ctx sd(2) by (auto simp: s'_def only_def)
qed

section \<open>Repair\<close>

definition set_color :: "mid \<Rightarrow> color \<Rightarrow> mstate \<Rightarrow> mstate" where
  "set_color i c s = s\<lparr>entry := (entry s)(i := (entry s i)\<lparr>md_color := c\<rparr>)\<rparr>"

lemma same_data_set_color [simp]: "same_data s (set_color i c s') = same_data s s'"
  by (auto simp: set_color_def same_data_def)

lemma set_color_simps [simp]:
  "valid (set_color i c s) p = valid s p" "hash_root (set_color i c s) = hash_root s"
  "entry (set_color i c s) j = (if j = i then (entry s i)\<lparr>md_color := c\<rparr> else entry s j)"
  by (simp_all add: set_color_def)

lemma only_set_color: "only A s s' \<Longrightarrow> i \<in> A \<Longrightarrow> only A s (set_color i c s')"
  by (auto simp: only_def)

lemma shape_color_other [simp]: "i \<notin> set (hds t) \<Longrightarrow> shape (set_color i c s) u t = shape s u t"
  by (rule shape_cong) auto

lemma ctx_color_other [simp]: "i \<notin> set (khds k) \<Longrightarrow> ctx_at (set_color i c s) k p = ctx_at s k p"
  by (rule ctx_cong) auto

lemma chain_color [simp]: "chain (set_color i c s) j xs = chain s j xs"
  by (rule chain_same) simp

lemma tnode_color_other [simp]: "i \<noteq> j \<Longrightarrow> tnode (set_color i c s) u (j, d, xs) l r = tnode s u (j, d, xs) l r"
  by (auto simp: tnode_def)

lemma tnode_color [simp]: "tnode s u (i, d, xs) l r \<Longrightarrow> tnode (set_color i c s) u (i, c, xs) l r"
  by (auto simp: tnode_def)

lemma tnodeD:
  assumes "tnode s u (i, c, xs) l r"
  shows "valid s i" "md_id (entry s i) = i" "md_up (entry s i) = u" "md_left (entry s i) = l"
    "md_right (entry s i) = r" "md_color (entry s i) = c"
  using assms by (simp_all add: tnode_def)

text \<open>Neither child of a subtree's root is a node outside of the subtree.\<close>

lemma child_ne:
  assumes "shape s u t" and "x \<notin> set (hds t)" and "x \<noteq> 0" and "rid t \<noteq> 0"
  shows "valid s (rid t)" "x \<noteq> md_left (entry s (rid t))" "x \<noteq> md_right (entry s (rid t))"
    "x \<noteq> rid t" "md_color (entry s (rid t)) = rcol t" "md_id (entry s (rid t)) = rid t"
proof -
  have ne: "rid l \<noteq> x" if "x \<notin> set (hds l)" for l
    using that assms(3) rid_in_hds [of l] by (cases "l = Leaf") auto
  obtain l i c xs r where t: "t = Node l (i, c, xs) r"
    using assms(4) by (cases t rule: rcol.cases) auto
  show "valid s (rid t)" "x \<noteq> md_left (entry s (rid t))" "x \<noteq> md_right (entry s (rid t))"
    "x \<noteq> rid t" "md_color (entry s (rid t)) = rcol t" "md_id (entry s (rid t)) = rid t"
    using assms ne [of l] ne [of r] by (auto simp: t tnode_def)
qed

lemma step4_2_right:
  assumes "shape s (cup k) (Node (Node (Node na (n, nc, ns) nb) (f, fc, fs) r) (g, gc, gs) u)"
    and "ctx_at s k g"
    and dist: "distinct (hds (plug (Node (Node (Node na (n, nc, ns) nb) (f, fc, fs) r) (g, gc, gs) u) k))"
    and A: "A = set (hds (plug (Node (Node (Node na (n, nc, ns) nb) (f, fc, fs) r) (g, gc, gs) u) k))"
  shows "\<exists>s'. mcachefs_metadata_repair_hash_step4_2 s n = Some s' \<and>
    shape s' (cup k) (Node (Node na (n, nc, ns) nb) (f, BLACK, fs) (Node r (g, RED, gs) u)) \<and>
    ctx_at s' k f \<and> only A s s'"
proof -
  obtain s1 where rot: "mcachefs_metadata_rotate_right s g = Some s1"
    and sh: "shape s1 (cup k) (Node (Node na (n, nc, ns) nb) (f, fc, fs) (Node r (g, gc, gs) u))"
    and ctx: "ctx_at s1 k f" and o: "only A s s1"
    using rotate_right_ok [OF assms(1-3)] A by auto
  have fn: "tnode s f (n, nc, ns) (rid na) (rid nb)" and ff: "tnode s g (f, fc, fs) n (rid r)"
    and fg: "tnode s (cup k) (g, gc, gs) f (rid u)"
    using assms(1) by auto
  have d: "f \<noteq> g" "f \<notin> set (khds k)" "g \<notin> set (khds k)"
    "f \<notin> set (hds (Node na (n, nc, ns) nb))" "g \<notin> set (hds (Node na (n, nc, ns) nb))"
    "f \<notin> set (hds r @ hds u)" "g \<notin> set (hds r @ hds u)" "f \<in> A" "g \<in> A"
    using dist unfolding A distinct_hds_plug set_hds_plug by auto
  have v: "valid s1 f" "valid s1 g"
    using sh by (auto simp: tnode_def)
  have "mcachefs_metadata_repair_hash_step4_2 s n = Some (set_color g RED (set_color f BLACK s1))"
    using v d(1) by (simp add: mcachefs_metadata_repair_hash_step4_2_def run_simps set_color_def
      tnodeD [OF fn] tnodeD [OF ff] tnodeD [OF fg] rot)
  moreover have "shape (set_color g RED (set_color f BLACK s1)) (cup k)
      (Node (Node na (n, nc, ns) nb) (f, BLACK, fs) (Node r (g, RED, gs) u))"
    using sh d by auto
  ultimately show ?thesis using ctx o d by (auto intro!: only_set_color)
qed

lemma step4_2_left:
  assumes "shape s (cup k) (Node u (g, gc, gs) (Node r (f, fc, fs) (Node na (n, nc, ns) nb)))"
    and "ctx_at s k g"
    and dist: "distinct (hds (plug (Node u (g, gc, gs) (Node r (f, fc, fs) (Node na (n, nc, ns) nb))) k))"
    and A: "A = set (hds (plug (Node u (g, gc, gs) (Node r (f, fc, fs) (Node na (n, nc, ns) nb))) k))"
  shows "\<exists>s'. mcachefs_metadata_repair_hash_step4_2 s n = Some s' \<and>
    shape s' (cup k) (Node (Node u (g, RED, gs) r) (f, BLACK, fs) (Node na (n, nc, ns) nb)) \<and>
    ctx_at s' k f \<and> only A s s'"
proof -
  obtain s1 where rot: "mcachefs_metadata_rotate_left s g = Some s1"
    and sh: "shape s1 (cup k) (Node (Node u (g, gc, gs) r) (f, fc, fs) (Node na (n, nc, ns) nb))"
    and ctx: "ctx_at s1 k f" and o: "only A s s1"
    using rotate_left_ok [OF assms(1-3)] A by auto
  have fn: "tnode s f (n, nc, ns) (rid na) (rid nb)" and ff: "tnode s g (f, fc, fs) (rid r) n"
    and fg: "tnode s (cup k) (g, gc, gs) (rid u) f"
    using assms(1) by auto
  have d: "f \<noteq> g" "f \<notin> set (khds k)" "g \<notin> set (khds k)" "n \<notin> set (hds r)"
    "f \<notin> set (hds (Node na (n, nc, ns) nb))" "g \<notin> set (hds (Node na (n, nc, ns) nb))"
    "f \<notin> set (hds r @ hds u)" "g \<notin> set (hds r @ hds u)" "f \<in> A" "g \<in> A"
    using dist unfolding A distinct_hds_plug set_hds_plug by auto
  have v: "valid s1 f" "valid s1 g"
    using sh by (auto simp: tnode_def)
  have nr: "n \<noteq> rid r"
    using d(4) rid_in_hds [of r] tnodeD(1) [OF fn] by (cases "r = Leaf") auto
  have "mcachefs_metadata_repair_hash_step4_2 s n = Some (set_color g RED (set_color f BLACK s1))"
    using v nr d(1) by (simp add: mcachefs_metadata_repair_hash_step4_2_def run_simps set_color_def
      tnodeD [OF fn] tnodeD [OF ff] tnodeD [OF fg] rot)
  moreover have "shape (set_color g RED (set_color f BLACK s1)) (cup k)
      (Node (Node u (g, RED, gs) r) (f, BLACK, fs) (Node na (n, nc, ns) nb))"
    using sh d by auto
  ultimately show ?thesis using ctx o d by (auto intro!: only_set_color)
qed

text \<open>Case 4 in its four positions: the node \<open>x\<close>, its parent \<open>p\<close>, its grandparent \<open>g\<close>.\<close>

lemma case4_LL:
  assumes "shape s (cup k) (Node (Node (Node a (x, c, xs) b) (p, pc, ps) r) (g, gc, gs) u)"
    and "ctx_at s k g"
    and dist: "distinct (hds (plug (Node (Node (Node a (x, c, xs) b) (p, pc, ps) r) (g, gc, gs) u) k))"
    and A: "A = set (hds (plug (Node (Node (Node a (x, c, xs) b) (p, pc, ps) r) (g, gc, gs) u) k))"
  shows "\<exists>s'. repair_hash_case4 s x p = Some s' \<and>
    shape s' (cup k) (Node (Node a (x, c, xs) b) (p, BLACK, ps) (Node r (g, RED, gs) u)) \<and>
    ctx_at s' k p \<and> only A s s'"
proof -
  have fx: "tnode s p (x, c, xs) (rid a) (rid b)" and fp: "tnode s g (p, pc, ps) x (rid r)"
    and fg: "tnode s (cup k) (g, gc, gs) p (rid u)" and sh: "shape s p r" "shape s g u"
    using assms(1) by auto
  have "x \<notin> set (hds r)" "x \<notin> set (hds u)"
    using dist unfolding distinct_hds_plug by auto
  moreover have "x \<noteq> 0" using tnodeD(1) [OF fx] by (simp add: valid_def)
  ultimately have "x \<noteq> rid r" "rid u \<noteq> 0 \<Longrightarrow> valid s (rid u) \<and> x \<noteq> md_left (entry s (rid u))"
    using child_ne [OF sh(1)] child_ne [OF sh(2)] by auto
  then have "repair_hash_case4 s x p = mcachefs_metadata_repair_hash_step4_2 s x"
    using \<open>x \<noteq> 0\<close>
    by (cases "rid u = 0") (simp_all add: repair_hash_case4_def run_simps
      tnodeD [OF fx] tnodeD [OF fp] tnodeD [OF fg])
  with step4_2_right [OF assms] show ?thesis by simp
qed

lemma case4_RR:
  assumes "shape s (cup k) (Node u (g, gc, gs) (Node r (p, pc, ps) (Node a (x, c, xs) b)))"
    and "ctx_at s k g"
    and dist: "distinct (hds (plug (Node u (g, gc, gs) (Node r (p, pc, ps) (Node a (x, c, xs) b))) k))"
    and A: "A = set (hds (plug (Node u (g, gc, gs) (Node r (p, pc, ps) (Node a (x, c, xs) b))) k))"
  shows "\<exists>s'. repair_hash_case4 s x p = Some s' \<and>
    shape s' (cup k) (Node (Node u (g, RED, gs) r) (p, BLACK, ps) (Node a (x, c, xs) b)) \<and>
    ctx_at s' k p \<and> only A s s'"
proof -
  have fx: "tnode s p (x, c, xs) (rid a) (rid b)" and fp: "tnode s g (p, pc, ps) (rid r) x"
    and fg: "tnode s (cup k) (g, gc, gs) (rid u) p" and sh: "shape s p r" "shape s g u"
    using assms(1) by auto
  have "x \<notin> set (hds r)" "x \<notin> set (hds u)"
    using dist unfolding distinct_hds_plug by auto
  moreover have "x \<noteq> 0" using tnodeD(1) [OF fx] by (simp add: valid_def)
  ultimately have "x \<noteq> rid r" "rid u \<noteq> 0 \<Longrightarrow> valid s (rid u) \<and> x \<noteq> md_right (entry s (rid u))"
    using child_ne [OF sh(1)] child_ne [OF sh(2)] by auto
  then have "repair_hash_case4 s x p = mcachefs_metadata_repair_hash_step4_2 s x"
    using \<open>x \<noteq> 0\<close>
    by (cases "rid u = 0") (simp_all add: repair_hash_case4_def run_simps
      tnodeD [OF fx] tnodeD [OF fp] tnodeD [OF fg])
  with step4_2_left [OF assms] show ?thesis by simp
qed

lemma case4_LR:
  assumes "shape s (cup k) (Node (Node l (p, pc, ps) (Node a (x, c, xs) b)) (g, gc, gs) u)"
    and "ctx_at s k g"
    and dist: "distinct (hds (plug (Node (Node l (p, pc, ps) (Node a (x, c, xs) b)) (g, gc, gs) u) k))"
    and A: "A = set (hds (plug (Node (Node l (p, pc, ps) (Node a (x, c, xs) b)) (g, gc, gs) u) k))"
  shows "\<exists>s'. repair_hash_case4 s x p = Some s' \<and>
    shape s' (cup k) (Node (Node l (p, pc, ps) a) (x, BLACK, xs) (Node b (g, RED, gs) u)) \<and>
    ctx_at s' k x \<and> only A s s'"
proof -
  let ?k = "Lf (g, gc, gs) u # k"
  have fx: "tnode s p (x, c, xs) (rid a) (rid b)" and fp: "tnode s g (p, pc, ps) (rid l) x"
    and fg: "tnode s (cup k) (g, gc, gs) p (rid u)"
    using assms(1) by auto
  have "shape s (cup ?k) (Node l (p, pc, ps) (Node a (x, c, xs) b))" "ctx_at s ?k p"
    using assms(1,2) by auto
  from rotate_left_ok [OF this] dist A obtain s1
    where rot: "mcachefs_metadata_rotate_left s p = Some s1"
      and sh: "shape s1 g (Node (Node l (p, pc, ps) a) (x, c, xs) b)"
      and ctx: "ctx_at s1 ?k x" and o: "only A s s1"
    by auto
  have fx1: "tnode s1 g (x, c, xs) p (rid b)" using sh by simp
  have "valid s1 p" "x \<noteq> 0" "p \<noteq> 0" using sh by (auto simp: tnode_def valid_def)
  then have "repair_hash_case4 s x p = mcachefs_metadata_repair_hash_step4_2 s1 p"
    by (simp add: repair_hash_case4_def run_simps rot
      tnodeD [OF fx] tnodeD [OF fp] tnodeD [OF fg] tnodeD [OF fx1])
  moreover have "distinct (hds (plug (Node (Node (Node l (p, pc, ps) a) (x, c, xs) b) (g, gc, gs) u) k))"
    "A = set (hds (plug (Node (Node (Node l (p, pc, ps) a) (x, c, xs) b) (g, gc, gs) u) k))"
    using dist A unfolding distinct_hds_plug set_hds_plug by auto
  ultimately show ?thesis
    using step4_2_right [of s1 k l p pc ps a x c xs b g gc gs u A] sh ctx only_trans [OF o]
    by auto
qed

lemma case4_RL:
  assumes "shape s (cup k) (Node u (g, gc, gs) (Node (Node a (x, c, xs) b) (p, pc, ps) r))"
    and "ctx_at s k g"
    and dist: "distinct (hds (plug (Node u (g, gc, gs) (Node (Node a (x, c, xs) b) (p, pc, ps) r)) k))"
    and A: "A = set (hds (plug (Node u (g, gc, gs) (Node (Node a (x, c, xs) b) (p, pc, ps) r)) k))"
  shows "\<exists>s'. repair_hash_case4 s x p = Some s' \<and>
    shape s' (cup k) (Node (Node u (g, RED, gs) a) (x, BLACK, xs) (Node b (p, pc, ps) r)) \<and>
    ctx_at s' k x \<and> only A s s'"
proof -
  let ?k = "Rt u (g, gc, gs) # k"
  have fx: "tnode s p (x, c, xs) (rid a) (rid b)" and fp: "tnode s g (p, pc, ps) x (rid r)"
    and fg: "tnode s (cup k) (g, gc, gs) (rid u) p" and shu: "shape s g u"
    using assms(1) by auto
  have "x \<notin> set (hds u)"
    using dist unfolding distinct_hds_plug by auto
  moreover have "x \<noteq> 0" using tnodeD(1) [OF fx] by (simp add: valid_def)
  ultimately have xu: "rid u \<noteq> 0 \<Longrightarrow> valid s (rid u) \<and> x \<noteq> md_right (entry s (rid u))"
    using child_ne [OF shu] by auto
  have "shape s (cup ?k) (Node (Node a (x, c, xs) b) (p, pc, ps) r)" "ctx_at s ?k p"
    using assms(1,2) by auto
  from rotate_right_ok [OF this] dist A obtain s1
    where rot: "mcachefs_metadata_rotate_right s p = Some s1"
      and sh: "shape s1 g (Node a (x, c, xs) (Node b (p, pc, ps) r))"
      and ctx: "ctx_at s1 ?k x" and o: "only A s s1"
    by auto
  have fx1: "tnode s1 g (x, c, xs) (rid a) p" using sh by simp
  have "valid s1 p" "x \<noteq> 0" "p \<noteq> 0" using sh by (auto simp: tnode_def valid_def)
  then have "repair_hash_case4 s x p = mcachefs_metadata_repair_hash_step4_2 s1 p"
    using xu by (cases "rid u = 0") (simp_all add: repair_hash_case4_def run_simps rot
      tnodeD [OF fx] tnodeD [OF fp] tnodeD [OF fg] tnodeD [OF fx1])
  moreover have "distinct (hds (plug (Node u (g, gc, gs) (Node a (x, c, xs) (Node b (p, pc, ps) r))) k))"
    "A = set (hds (plug (Node u (g, gc, gs) (Node a (x, c, xs) (Node b (p, pc, ps) r))) k))"
    using dist A unfolding distinct_hds_plug set_hds_plug by auto
  ultimately show ?thesis
    using step4_2_left [of s1 k u g gc gs a x c xs b p pc ps r A] sh ctx only_trans [OF o]
    by auto
qed

text \<open>The uncle of a node whose grandparent is \<open>g\<close>.\<close>

lemma uncle_exec:
  assumes "tnode s p (x, c, xs) lx rx" and "tnode s g (p, pc, ps) lp rp"
    and "tnode s v (g, gc, gs) lg rg" and "lg = p \<and> w = rg \<or> lg \<noteq> p \<and> w = lg"
    and "w = 0 \<or> valid s w"
  shows "mcachefs_metadata_uncle s x = Some w"
proof -
  have "p \<noteq> 0" "g \<noteq> 0" using tnodeD(1) [OF assms(2)] tnodeD(1) [OF assms(3)] by auto
  then show ?thesis using assms(4,5)
    by (auto simp: mcachefs_metadata_uncle_def mcachefs_metadata_brother_def run_simps
      tnodeD [OF assms(1)] tnodeD [OF assms(2)] tnodeD [OF assms(3)])
qed

text \<open>Cases 3 and 4 of the repair, by the colour of the uncle.\<close>

lemma repair_case3:
  assumes "tnode s p (x, c, xs) lx rx" and "tnode s g (p, RED, ps) lp rp"
    and "tnode s v (g, gc, gs) lg rg" and "p \<noteq> 0"
    and "mcachefs_metadata_uncle s x = Some w" and "valid s w" and "md_color (entry s w) = RED"
    and "p \<noteq> w"
  shows "mcachefs_metadata_repair_hash s x =
    mcachefs_metadata_repair_hash (set_color g RED (set_color w BLACK (set_color p BLACK s))) g"
  by (subst mcachefs_metadata_repair_hash.simps)
    (use assms(4-8) in \<open>simp add: run_simps tnodeD [OF assms(1)] tnodeD [OF assms(2)]
      tnodeD [OF assms(3)] set_color_def fun_upd_twist\<close>)

lemma repair_case4:
  assumes "tnode s p (x, c, xs) lx rx" and "tnode s g (p, RED, ps) lp rp" and "p \<noteq> 0"
    and "mcachefs_metadata_uncle s x = Some w" and "w = 0 \<or> valid s w \<and> md_color (entry s w) = BLACK"
  shows "mcachefs_metadata_repair_hash s x = repair_hash_case4 s x p"
  by (subst mcachefs_metadata_repair_hash.simps)
    (use assms(3-5) in \<open>auto simp: run_simps tnodeD [OF assms(1)] tnodeD [OF assms(2)]\<close>)

lemma repair_case1:
  assumes "tnode s 0 (x, c, xs) lx rx"
  shows "mcachefs_metadata_repair_hash s x = Some (set_color x BLACK s)"
  by (subst mcachefs_metadata_repair_hash.simps)
    (simp add: run_simps tnodeD [OF assms] set_color_def)

lemma repair_case2:
  assumes "tnode s p (x, c, xs) lx rx" and "valid s p" and "md_color (entry s p) = BLACK"
  shows "mcachefs_metadata_repair_hash s x = Some s"
  by (subst mcachefs_metadata_repair_hash.simps)
    (use assms(2,3) in \<open>simp add: run_simps tnodeD [OF assms(1)]\<close>)

text \<open>Recolouring an entry of the store recolours the node in the tree.\<close>

fun recolor :: "mid \<Rightarrow> color \<Rightarrow> htree \<Rightarrow> htree" where
  "recolor i c Leaf = Leaf"
| "recolor i c (Node l (j, d, xs) r) =
     Node (recolor i c l) (j, if j = i then c else d, xs) (recolor i c r)"

lemma rid_recolor [simp]: "rid (recolor i c t) = rid t"
  by (cases t rule: rid.cases) simp_all

lemma recolor_other [simp]: "i \<notin> set (hds t) \<Longrightarrow> recolor i c t = t"
  by (induction i c t rule: recolor.induct) auto

lemma shape_recolor: "shape s u t \<Longrightarrow> shape (set_color i c s) u (recolor i c t)"
  by (induction i c t arbitrary: u rule: recolor.induct) (auto simp: tnode_def)

lemma rcol_RED_cases:
  assumes "rcol u = RED"
  obtains l w ws r where "u = Node l (w, RED, ws) r" "paint BLACK u = Node l (w, BLACK, ws) r" "rid u = w"
  using assms by (cases u rule: rcol.cases) auto

lemma rcol_BLACK_uncle:
  "shape s v u \<Longrightarrow> rcol u = BLACK \<Longrightarrow> rid u = 0 \<or> valid s (rid u) \<and> md_color (entry s (rid u)) = BLACK"
  by (cases u rule: rcol.cases) (auto simp: tnode_def)

lemma repair_default:
  assumes "shape s (cup k) (Node a (x, RED, xs) b)" and "ctx_at s k x"
    and "k \<noteq> []" and "ccol k = BLACK"
  shows "\<exists>s'. mcachefs_metadata_repair_hash s x = Some s' \<and>
    shape s' 0 (plug (Node a (x, RED, xs) b) k) \<and>
    hash_root s' = rid (plug (Node a (x, RED, xs) b) k) \<and> only A s s'"
proof -
  have "valid s (cup k)" "md_color (entry s (cup k)) = BLACK"
    using assms(2-4) by (cases k rule: ccol.cases; auto simp: tnode_def)+
  then have "mcachefs_metadata_repair_hash s x = Some s"
    using repair_case2 assms(1) by auto
  moreover have "shape s 0 (plug (Node a (x, RED, xs) b) k) \<and>
      hash_root s = rid (plug (Node a (x, RED, xs) b) k)"
    using assms(1,2) by (subst focus) simp
  ultimately show ?thesis by auto
qed

lemma repair_ok:
  assumes "shape s (cup k) (Node a (x, RED, xs) b)" and "ctx_at s k x"
    and "distinct (hds (plug (Node a (x, RED, xs) b) k))"
    and "A = set (hds (plug (Node a (x, RED, xs) b) k))" and "cinv h k"
  shows "\<exists>s'. mcachefs_metadata_repair_hash s x = Some s' \<and>
    shape s' 0 (repair_tree a (x, xs) b k) \<and>
    hash_root s' = rid (repair_tree a (x, xs) b k) \<and> only A s s'"
  using assms
proof (induction a "(x, xs)" b k arbitrary: s x xs h rule: repair_tree.induct)
  case (1 a x xs b)
  then have "mcachefs_metadata_repair_hash s x = Some (set_color x BLACK s)"
    using repair_case1 by auto
  with 1 show ?case by (auto intro!: only_set_color)
next
  case (2 a x xs b p ps r g gc gs u k)
  let ?T = "Node (Node (Node a (x, RED, xs) b) (p, RED, ps) r) (g, gc, gs) u"
  have sh: "shape s (cup k) (?T)" and ctx: "ctx_at s k g"
    using 2(2,3) by auto
  have dist: "distinct (hds (plug ?T k))" and A: "A = set (hds (plug ?T k))"
    using 2(4,5) by simp_all
  have fx: "tnode s p (x, RED, xs) (rid a) (rid b)" and fp: "tnode s g (p, RED, ps) x (rid r)" and fg: "tnode s (cup k) (g, gc, gs) p (rid u)" and shu: "shape s g u"
    using sh by auto
  have p: "p \<noteq> 0" "p \<notin> set (hds u)" "p \<noteq> rid u"
    using tnodeD(1) [OF fp] dist rid_in_hds [of u] unfolding distinct_hds_plug
    by (cases "u = Leaf"; auto)+
  show ?case
  proof (cases "rcol u = RED")
    case True
    then obtain ul w ws ur where u: "u = Node ul (w, RED, ws) ur"
        "paint BLACK u = Node ul (w, BLACK, ws) ur" "rid u = w"
      by (rule rcol_RED_cases)
    define s1 where "s1 = set_color g RED (set_color w BLACK (set_color p BLACK s))"
    have w: "valid s w" "md_color (entry s w) = RED" using shu u by (auto simp: tnode_def)
    have "mcachefs_metadata_uncle s x = Some w"
      by (rule uncle_exec [OF fx fp fg]) (use p u w in auto)
    from repair_case3 [OF fx fp fg p(1) this w] p u
    have step: "mcachefs_metadata_repair_hash s x = mcachefs_metadata_repair_hash s1 g"
      by (simp add: s1_def)
    have d: "p \<noteq> w" "g \<noteq> w" "g \<noteq> p" "p \<notin> set (khds k)" "w \<notin> set (khds k)" "g \<notin> set (khds k)"
      using dist u unfolding distinct_hds_plug by auto
    have "recolor g RED (recolor w BLACK (recolor p BLACK ?T)) =
        Node (Node (Node a (x, RED, xs) b) (p, BLACK, ps) r) (g, RED, gs) (paint BLACK u)"
      using dist unfolding distinct_hds_plug by (auto simp: u)
    with shape_recolor [OF shape_recolor [OF shape_recolor [OF sh]]]
    have sh1: "shape s1 (cup k) (Node (Node (Node a (x, RED, xs) b) (p, BLACK, ps) r) (g, RED, gs) (paint BLACK u))"
      unfolding s1_def by metis
    have ctx1: "ctx_at s1 k g"
      using ctx d by (simp add: s1_def)
    have dist1: "distinct (hds (plug (Node (Node (Node a (x, RED, xs) b) (p, BLACK, ps) r) (g, RED, gs) (paint BLACK u)) k))"
      and A1: "A = set (hds (plug (Node (Node (Node a (x, RED, xs) b) (p, BLACK, ps) r) (g, RED, gs) (paint BLACK u)) k))"
      using dist A unfolding distinct_hds_plug set_hds_plug by (auto simp: u)
    obtain h' where h': "cinv h' k" using 2(6) by auto
    have eq: "repair_tree a (x, xs) b (Lf (p, RED, ps) r # Lf (g, gc, gs) u # k) =
        repair_tree (Node (Node a (x, RED, xs) b) (p, BLACK, ps) r) (g, gs) (paint BLACK u) k"
      using True by simp
    from 2(1) [OF True sh1 ctx1 dist1 A1 h'] obtain s'
      where s': "mcachefs_metadata_repair_hash s1 g = Some s'"
        "shape s' 0 (repair_tree (Node (Node a (x, RED, xs) b) (p, BLACK, ps) r) (g, gs) (paint BLACK u) k)"
        "hash_root s' = rid (repair_tree (Node (Node a (x, RED, xs) b) (p, BLACK, ps) r) (g, gs) (paint BLACK u) k)"
        "only A s1 s'"
      by blast
    have "only A s s1"
      unfolding s1_def using A u by (intro only_set_color) (auto simp: set_hds_plug)
    from only_trans [OF this s'(4)] s'(1-3) show ?thesis
      unfolding step eq by blast
  next
    case False
    then have "rcol u = BLACK" by simp
    note w = rcol_BLACK_uncle [OF shu this]
    have "mcachefs_metadata_uncle s x = Some (rid u)"
      by (rule uncle_exec [OF fx fp fg]) (use p w in auto)
    from repair_case4 [OF fx fp p(1) this w] case4_LL [OF sh ctx dist A]
    show ?thesis using False by (auto simp: focus)
  qed
next
  case (3 a x xs b l p ps g gc gs u k)
  let ?T = "Node (Node l (p, RED, ps) (Node a (x, RED, xs) b)) (g, gc, gs) u"
  have sh: "shape s (cup k) (?T)" and ctx: "ctx_at s k g"
    using 3(2,3) by auto
  have dist: "distinct (hds (plug ?T k))" and A: "A = set (hds (plug ?T k))"
    using 3(4,5) by simp_all
  have fx: "tnode s p (x, RED, xs) (rid a) (rid b)" and fp: "tnode s g (p, RED, ps) (rid l) x" and fg: "tnode s (cup k) (g, gc, gs) p (rid u)" and shu: "shape s g u"
    using sh by auto
  have p: "p \<noteq> 0" "p \<notin> set (hds u)" "p \<noteq> rid u"
    using tnodeD(1) [OF fp] dist rid_in_hds [of u] unfolding distinct_hds_plug
    by (cases "u = Leaf"; auto)+
  show ?case
  proof (cases "rcol u = RED")
    case True
    then obtain ul w ws ur where u: "u = Node ul (w, RED, ws) ur"
        "paint BLACK u = Node ul (w, BLACK, ws) ur" "rid u = w"
      by (rule rcol_RED_cases)
    define s1 where "s1 = set_color g RED (set_color w BLACK (set_color p BLACK s))"
    have w: "valid s w" "md_color (entry s w) = RED" using shu u by (auto simp: tnode_def)
    have "mcachefs_metadata_uncle s x = Some w"
      by (rule uncle_exec [OF fx fp fg]) (use p u w in auto)
    from repair_case3 [OF fx fp fg p(1) this w] p u
    have step: "mcachefs_metadata_repair_hash s x = mcachefs_metadata_repair_hash s1 g"
      by (simp add: s1_def)
    have d: "p \<noteq> w" "g \<noteq> w" "g \<noteq> p" "p \<notin> set (khds k)" "w \<notin> set (khds k)" "g \<notin> set (khds k)"
      using dist u unfolding distinct_hds_plug by auto
    have "recolor g RED (recolor w BLACK (recolor p BLACK ?T)) =
        Node (Node l (p, BLACK, ps) (Node a (x, RED, xs) b)) (g, RED, gs) (paint BLACK u)"
      using dist unfolding distinct_hds_plug by (auto simp: u)
    with shape_recolor [OF shape_recolor [OF shape_recolor [OF sh]]]
    have sh1: "shape s1 (cup k) (Node (Node l (p, BLACK, ps) (Node a (x, RED, xs) b)) (g, RED, gs) (paint BLACK u))"
      unfolding s1_def by metis
    have ctx1: "ctx_at s1 k g"
      using ctx d by (simp add: s1_def)
    have dist1: "distinct (hds (plug (Node (Node l (p, BLACK, ps) (Node a (x, RED, xs) b)) (g, RED, gs) (paint BLACK u)) k))"
      and A1: "A = set (hds (plug (Node (Node l (p, BLACK, ps) (Node a (x, RED, xs) b)) (g, RED, gs) (paint BLACK u)) k))"
      using dist A unfolding distinct_hds_plug set_hds_plug by (auto simp: u)
    obtain h' where h': "cinv h' k" using 3(6) by auto
    have eq: "repair_tree a (x, xs) b (Rt l (p, RED, ps) # Lf (g, gc, gs) u # k) =
        repair_tree (Node l (p, BLACK, ps) (Node a (x, RED, xs) b)) (g, gs) (paint BLACK u) k"
      using True by simp
    from 3(1) [OF True sh1 ctx1 dist1 A1 h'] obtain s'
      where s': "mcachefs_metadata_repair_hash s1 g = Some s'"
        "shape s' 0 (repair_tree (Node l (p, BLACK, ps) (Node a (x, RED, xs) b)) (g, gs) (paint BLACK u) k)"
        "hash_root s' = rid (repair_tree (Node l (p, BLACK, ps) (Node a (x, RED, xs) b)) (g, gs) (paint BLACK u) k)"
        "only A s1 s'"
      by blast
    have "only A s s1"
      unfolding s1_def using A u by (intro only_set_color) (auto simp: set_hds_plug)
    from only_trans [OF this s'(4)] s'(1-3) show ?thesis
      unfolding step eq by blast
  next
    case False
    then have "rcol u = BLACK" by simp
    note w = rcol_BLACK_uncle [OF shu this]
    have "mcachefs_metadata_uncle s x = Some (rid u)"
      by (rule uncle_exec [OF fx fp fg]) (use p w in auto)
    from repair_case4 [OF fx fp p(1) this w] case4_LR [OF sh ctx dist A]
    show ?thesis using False by (auto simp: focus)
  qed
next
  case (4 a x xs b l p ps u g gc gs k)
  let ?T = "Node u (g, gc, gs) (Node l (p, RED, ps) (Node a (x, RED, xs) b))"
  have sh: "shape s (cup k) (?T)" and ctx: "ctx_at s k g"
    using 4(2,3) by auto
  have dist: "distinct (hds (plug ?T k))" and A: "A = set (hds (plug ?T k))"
    using 4(4,5) by simp_all
  have fx: "tnode s p (x, RED, xs) (rid a) (rid b)" and fp: "tnode s g (p, RED, ps) (rid l) x" and fg: "tnode s (cup k) (g, gc, gs) (rid u) p" and shu: "shape s g u"
    using sh by auto
  have p: "p \<noteq> 0" "p \<notin> set (hds u)" "p \<noteq> rid u"
    using tnodeD(1) [OF fp] dist rid_in_hds [of u] unfolding distinct_hds_plug
    by (cases "u = Leaf"; auto)+
  show ?case
  proof (cases "rcol u = RED")
    case True
    then obtain ul w ws ur where u: "u = Node ul (w, RED, ws) ur"
        "paint BLACK u = Node ul (w, BLACK, ws) ur" "rid u = w"
      by (rule rcol_RED_cases)
    define s1 where "s1 = set_color g RED (set_color w BLACK (set_color p BLACK s))"
    have w: "valid s w" "md_color (entry s w) = RED" using shu u by (auto simp: tnode_def)
    have "mcachefs_metadata_uncle s x = Some w"
      by (rule uncle_exec [OF fx fp fg]) (use p u w in auto)
    from repair_case3 [OF fx fp fg p(1) this w] p u
    have step: "mcachefs_metadata_repair_hash s x = mcachefs_metadata_repair_hash s1 g"
      by (simp add: s1_def)
    have d: "p \<noteq> w" "g \<noteq> w" "g \<noteq> p" "p \<notin> set (khds k)" "w \<notin> set (khds k)" "g \<notin> set (khds k)"
      using dist u unfolding distinct_hds_plug by auto
    have "recolor g RED (recolor w BLACK (recolor p BLACK ?T)) =
        Node (paint BLACK u) (g, RED, gs) (Node l (p, BLACK, ps) (Node a (x, RED, xs) b))"
      using dist unfolding distinct_hds_plug by (auto simp: u)
    with shape_recolor [OF shape_recolor [OF shape_recolor [OF sh]]]
    have sh1: "shape s1 (cup k) (Node (paint BLACK u) (g, RED, gs) (Node l (p, BLACK, ps) (Node a (x, RED, xs) b)))"
      unfolding s1_def by metis
    have ctx1: "ctx_at s1 k g"
      using ctx d by (simp add: s1_def)
    have dist1: "distinct (hds (plug (Node (paint BLACK u) (g, RED, gs) (Node l (p, BLACK, ps) (Node a (x, RED, xs) b))) k))"
      and A1: "A = set (hds (plug (Node (paint BLACK u) (g, RED, gs) (Node l (p, BLACK, ps) (Node a (x, RED, xs) b))) k))"
      using dist A unfolding distinct_hds_plug set_hds_plug by (auto simp: u)
    obtain h' where h': "cinv h' k" using 4(6) by auto
    have eq: "repair_tree a (x, xs) b (Rt l (p, RED, ps) # Rt u (g, gc, gs) # k) =
        repair_tree (paint BLACK u) (g, gs) (Node l (p, BLACK, ps) (Node a (x, RED, xs) b)) k"
      using True by simp
    from 4(1) [OF True sh1 ctx1 dist1 A1 h'] obtain s'
      where s': "mcachefs_metadata_repair_hash s1 g = Some s'"
        "shape s' 0 (repair_tree (paint BLACK u) (g, gs) (Node l (p, BLACK, ps) (Node a (x, RED, xs) b)) k)"
        "hash_root s' = rid (repair_tree (paint BLACK u) (g, gs) (Node l (p, BLACK, ps) (Node a (x, RED, xs) b)) k)"
        "only A s1 s'"
      by blast
    have "only A s s1"
      unfolding s1_def using A u by (intro only_set_color) (auto simp: set_hds_plug)
    from only_trans [OF this s'(4)] s'(1-3) show ?thesis
      unfolding step eq by blast
  next
    case False
    then have "rcol u = BLACK" by simp
    note w = rcol_BLACK_uncle [OF shu this]
    have "mcachefs_metadata_uncle s x = Some (rid u)"
      by (rule uncle_exec [OF fx fp fg]) (use p w in auto)
    from repair_case4 [OF fx fp p(1) this w] case4_RR [OF sh ctx dist A]
    show ?thesis using False by (auto simp: focus)
  qed
next
  case (5 a x xs b p ps r u g gc gs k)
  let ?T = "Node u (g, gc, gs) (Node (Node a (x, RED, xs) b) (p, RED, ps) r)"
  have sh: "shape s (cup k) (?T)" and ctx: "ctx_at s k g"
    using 5(2,3) by auto
  have dist: "distinct (hds (plug ?T k))" and A: "A = set (hds (plug ?T k))"
    using 5(4,5) by simp_all
  have fx: "tnode s p (x, RED, xs) (rid a) (rid b)" and fp: "tnode s g (p, RED, ps) x (rid r)" and fg: "tnode s (cup k) (g, gc, gs) (rid u) p" and shu: "shape s g u"
    using sh by auto
  have p: "p \<noteq> 0" "p \<notin> set (hds u)" "p \<noteq> rid u"
    using tnodeD(1) [OF fp] dist rid_in_hds [of u] unfolding distinct_hds_plug
    by (cases "u = Leaf"; auto)+
  show ?case
  proof (cases "rcol u = RED")
    case True
    then obtain ul w ws ur where u: "u = Node ul (w, RED, ws) ur"
        "paint BLACK u = Node ul (w, BLACK, ws) ur" "rid u = w"
      by (rule rcol_RED_cases)
    define s1 where "s1 = set_color g RED (set_color w BLACK (set_color p BLACK s))"
    have w: "valid s w" "md_color (entry s w) = RED" using shu u by (auto simp: tnode_def)
    have "mcachefs_metadata_uncle s x = Some w"
      by (rule uncle_exec [OF fx fp fg]) (use p u w in auto)
    from repair_case3 [OF fx fp fg p(1) this w] p u
    have step: "mcachefs_metadata_repair_hash s x = mcachefs_metadata_repair_hash s1 g"
      by (simp add: s1_def)
    have d: "p \<noteq> w" "g \<noteq> w" "g \<noteq> p" "p \<notin> set (khds k)" "w \<notin> set (khds k)" "g \<notin> set (khds k)"
      using dist u unfolding distinct_hds_plug by auto
    have "recolor g RED (recolor w BLACK (recolor p BLACK ?T)) =
        Node (paint BLACK u) (g, RED, gs) (Node (Node a (x, RED, xs) b) (p, BLACK, ps) r)"
      using dist unfolding distinct_hds_plug by (auto simp: u)
    with shape_recolor [OF shape_recolor [OF shape_recolor [OF sh]]]
    have sh1: "shape s1 (cup k) (Node (paint BLACK u) (g, RED, gs) (Node (Node a (x, RED, xs) b) (p, BLACK, ps) r))"
      unfolding s1_def by metis
    have ctx1: "ctx_at s1 k g"
      using ctx d by (simp add: s1_def)
    have dist1: "distinct (hds (plug (Node (paint BLACK u) (g, RED, gs) (Node (Node a (x, RED, xs) b) (p, BLACK, ps) r)) k))"
      and A1: "A = set (hds (plug (Node (paint BLACK u) (g, RED, gs) (Node (Node a (x, RED, xs) b) (p, BLACK, ps) r)) k))"
      using dist A unfolding distinct_hds_plug set_hds_plug by (auto simp: u)
    obtain h' where h': "cinv h' k" using 5(6) by auto
    have eq: "repair_tree a (x, xs) b (Lf (p, RED, ps) r # Rt u (g, gc, gs) # k) =
        repair_tree (paint BLACK u) (g, gs) (Node (Node a (x, RED, xs) b) (p, BLACK, ps) r) k"
      using True by simp
    from 5(1) [OF True sh1 ctx1 dist1 A1 h'] obtain s'
      where s': "mcachefs_metadata_repair_hash s1 g = Some s'"
        "shape s' 0 (repair_tree (paint BLACK u) (g, gs) (Node (Node a (x, RED, xs) b) (p, BLACK, ps) r) k)"
        "hash_root s' = rid (repair_tree (paint BLACK u) (g, gs) (Node (Node a (x, RED, xs) b) (p, BLACK, ps) r) k)"
        "only A s1 s'"
      by blast
    have "only A s s1"
      unfolding s1_def using A u by (intro only_set_color) (auto simp: set_hds_plug)
    from only_trans [OF this s'(4)] s'(1-3) show ?thesis
      unfolding step eq by blast
  next
    case False
    then have "rcol u = BLACK" by simp
    note w = rcol_BLACK_uncle [OF shu this]
    have "mcachefs_metadata_uncle s x = Some (rid u)"
      by (rule uncle_exec [OF fx fp fg]) (use p w in auto)
    from repair_case4 [OF fx fp p(1) this w] case4_RL [OF sh ctx dist A]
    show ?thesis using False by (auto simp: focus)
  qed
qed ((simp only: repair_tree.simps), (rule repair_default; auto dest: cinv_single))+

end
