(* ===== verification/Hash_Insert.thy ===== *)
theory Hash_Insert
  imports Hash_Refine
begin

text \<open>
  Correctness of the insertion: the descent of \<open>mcachefs_metadata_do_insert_hash\<close> finds
  the place \<open>locate\<close> describes, links the entry there (or appends it to the colliders),
  and with the repair the whole operation refines \<open>insert_tree\<close>.
\<close>

abbreviation hash_of :: "mstate \<Rightarrow> mid \<Rightarrow> hash_t" where
  "hash_of s i \<equiv> md_hash (entry s i)"

text \<open>An entry that may be inserted: allocated, not in the tree, no stale collision links.\<close>

definition fresh :: "mstate \<Rightarrow> mid \<Rightarrow> htree \<Rightarrow> bool" where
  "fresh s n t \<longleftrightarrow> valid s n \<and> md_id (entry s n) = n \<and> n \<notin> set (ids t) \<and>
     md_collision_next (entry s n) = 0 \<and> md_collision_previous (entry s n) = 0"

section \<open>Frame rules for whole entries\<close>

lemma set_hds_ids: "set (hds t) \<subseteq> set (ids t)"
proof (induction t)
  case (Node l n r)
  then show ?case by (cases n) auto
qed simp

lemma chain_entries:
  "\<forall>j\<in>set (i # xs). entry s' j = entry s j \<Longrightarrow> alloced_nb s' = alloced_nb s \<Longrightarrow>
   chain s' i xs = chain s i xs"
  by (induction xs arbitrary: i) (auto simp: valid_def)

lemma tnode_entries:
  "\<forall>j\<in>set (i # xs). entry s' j = entry s j \<Longrightarrow> alloced_nb s' = alloced_nb s \<Longrightarrow>
   tnode s' u (i, c, xs) l r = tnode s u (i, c, xs) l r"
  using chain_entries [of i xs s' s] by (auto simp: tnode_def valid_def)

lemma shape_entries:
  "\<forall>j\<in>set (ids t). entry s' j = entry s j \<Longrightarrow> alloced_nb s' = alloced_nb s \<Longrightarrow>
   shape s' u t = shape s u t"
proof (induction t arbitrary: u)
  case (Node l n r)
  obtain i c xs where n: "n = (i, c, xs)" by (cases n)
  have "tnode s' u n (rid l) (rid r) = tnode s u n (rid l) (rid r)"
    using Node.prems unfolding n by (intro tnode_entries) auto
  moreover have "shape s' i l = shape s i l" "shape s' i r = shape s i r"
    using Node by (auto simp: n)
  ultimately show ?case by (simp add: n)
qed simp

lemma ctx_entries:
  "\<forall>j\<in>set (concat (left_of k) @ concat (right_of k)). entry s' j = entry s j \<Longrightarrow>
   alloced_nb s' = alloced_nb s \<Longrightarrow> hash_root s' = hash_root s \<Longrightarrow>
   ctx_at s' k p = ctx_at s k p"
proof (induction k arbitrary: p rule: left_of.induct)
  case (2 n r k)
  obtain i c xs where n: "n = (i, c, xs)" by (cases n)
  have "shape s' i r = shape s i r"
    using 2(2,3) by (intro shape_entries) (auto simp: n ids_def)
  moreover have "tnode s' (cup k) n p (rid r) = tnode s (cup k) n p (rid r)"
    using 2(2,3) unfolding n by (intro tnode_entries) auto
  moreover have "ctx_at s' k i = ctx_at s k i"
    using 2 by (intro "2.IH") (auto simp: n)
  ultimately show ?case by (simp add: n)
next
  case (3 l i c xs k)
  have "shape s' i l = shape s i l"
    using 3(2,3) by (intro shape_entries) (auto simp: ids_def)
  moreover have "tnode s' (cup k) (i, c, xs) (rid l) p = tnode s (cup k) (i, c, xs) (rid l) p"
    using 3(2,3) by (intro tnode_entries) auto
  moreover have "ctx_at s' k i = ctx_at s k i"
    using 3 by (intro "3.IH") auto
  ultimately show ?case by simp
qed simp

section \<open>The descent\<close>

text \<open>Appending to the colliders of the node \<open>i\<close>.\<close>

definition appended :: "mstate \<Rightarrow> mid \<Rightarrow> mid \<Rightarrow> mstate" where
  "appended s i n = s\<lparr>entry := (entry s)
     (i := (entry s i)\<lparr>md_collision_next := n\<rparr>,
      n := (entry s n)\<lparr>md_collision_previous := i\<rparr>)\<rparr>"

lemma chain_loop:
  assumes "chain s i xs" and "valid s i" "md_id (entry s i) = i" and "valid s n" "md_id (entry s n) = n"
    and "\<forall>j\<in>set (i # xs). hash_of s j = hash_of s n" and "n \<notin> set (i # xs)"
  shows "insert_hash_loop s n i = Some (appended s (last (i # xs)) n)"
  using assms
proof (induction xs arbitrary: i)
  case Nil
  then show ?case by (subst insert_hash_loop.simps) (simp add: run_simps appended_def)
next
  case (Cons j xs)
  have "j \<noteq> 0" using Cons.prems(1) by (auto simp: valid_def)
  then have "insert_hash_loop s n i = insert_hash_loop s n j"
    by (subst insert_hash_loop.simps) (use Cons.prems in \<open>simp add: run_simps\<close>)
  moreover have "insert_hash_loop s n j = Some (appended s (last (j # xs)) n)"
    by (rule Cons.IH) (use Cons.prems in simp_all)
  ultimately show ?case by simp
qed

lemma insert_loop_ok:
  assumes "t \<noteq> Leaf" and "shape s (cup k) t" and "ctx_at s k (rid t)"
    and "valid s n" "md_id (entry s n) = n" and "n \<notin> set (ids t)"
    and "\<forall>b\<in>set (buckets t). \<forall>j\<in>set b. hash_of s (hd b) = hash_of s j"
    and "locate (hash_of s) (hash_of s n) t k = (t', k')"
  shows "insert_hash_loop s n (rid t) =
    (case t' of Leaf \<Rightarrow> Some (set_up n (cup k') (relinked s k' n))
     | Node l (i, c, xs) r \<Rightarrow> Some (appended s (last (i # xs)) n))"
  using assms
proof (induction t arbitrary: k)
  case (Node l m r)
  obtain i c xs where m: "m = (i, c, xs)" by (cases m)
  let ?h = "hash_of s"
  have ti: "tnode s (cup k) (i, c, xs) (rid l) (rid r)" and sh: "shape s i l" "shape s i r"
    using Node.prems(2) by (auto simp: m)
  have ne: "n \<noteq> i" using Node.prems(6) by (simp add: m)
  consider (lt) "?h n < ?h i" | (gt) "?h i < ?h n" | (eq) "?h n = ?h i" by force
  then show ?case
  proof cases
    case lt
    let ?k = "Lf (i, c, xs) r # k"
    show ?thesis
    proof (cases "l = Leaf")
      case True
      with lt Node.prems have "t' = Leaf" "k' = ?k" by (auto simp: m)
      then show ?thesis using lt True ne Node.prems(4,5)
        by (subst insert_hash_loop.simps) (simp add: m run_simps tnodeD [OF ti] set_up_def)
    next
      case False
      have "insert_hash_loop s n i = insert_hash_loop s n (rid l)"
        using lt Node.prems(4) shape_valid_rid [OF sh(1) False] valid_nz
        by (subst insert_hash_loop.simps) (auto simp: run_simps tnodeD [OF ti])
      moreover have "ctx_at s ?k (rid l)" using Node.prems(3) ti sh by (simp add: m)
      ultimately show ?thesis
        using Node.IH(1) [of ?k] False sh Node.prems lt by (simp add: m)
    qed
  next
    case gt
    then have ng: "\<not> ?h n < ?h i" by simp
    let ?k = "Rt l (i, c, xs) # k"
    show ?thesis
    proof (cases "r = Leaf")
      case True
      with gt ng Node.prems have "t' = Leaf" "k' = ?k" by (auto simp: m)
      then show ?thesis using gt ng True ne Node.prems(4,5)
        by (subst insert_hash_loop.simps) (auto simp: m run_simps tnodeD [OF ti] set_up_def)
    next
      case False
      have "insert_hash_loop s n i = insert_hash_loop s n (rid r)"
        using gt ng Node.prems(4) shape_valid_rid [OF sh(2) False] valid_nz
        by (subst insert_hash_loop.simps) (auto simp: run_simps tnodeD [OF ti])
      moreover have "ctx_at s ?k (rid r)" using Node.prems(3) ti sh by (simp add: m)
      ultimately show ?thesis
        using Node.IH(2) [of ?k] False sh Node.prems gt ng by (simp add: m)
    qed
  next
    case eq
    with Node.prems(8) have "t' = Node l m r" by (auto simp: m)
    moreover have "insert_hash_loop s n i = Some (appended s (last (i # xs)) n)"
    proof (rule chain_loop)
      show "\<forall>j\<in>set (i # xs). hash_of s j = hash_of s n"
        using Node.prems(7) eq by (auto simp: m)
    qed (use ti Node.prems(4-6) in \<open>auto simp: tnode_def m\<close>)
    ultimately show ?thesis by (simp add: m)
  qed
qed simp

section \<open>The whole insertion\<close>

text \<open>What the insertion leaves unchanged of an entry, and where it changes anything at all.\<close>

definition hstrip :: "metadata \<Rightarrow> metadata" where
  "hstrip m = (strip m)\<lparr>md_collision_next := 0, md_collision_previous := 0\<rparr>"

definition hash_only :: "mid set \<Rightarrow> mstate \<Rightarrow> mstate \<Rightarrow> bool" where
  "hash_only A s s' \<longleftrightarrow> alloced_nb s' = alloced_nb s \<and> first_free s' = first_free s \<and>
     files s' = files s \<and> timeslices s' = timeslices s \<and>
     timeslice_current s' = timeslice_current s \<and>
     (\<forall>i. hstrip (entry s' i) = hstrip (entry s i)) \<and> (\<forall>i. i \<notin> A \<longrightarrow> entry s' i = entry s i)"

lemma hash_only_trans: "hash_only A s s' \<Longrightarrow> hash_only A s' s'' \<Longrightarrow> hash_only A s s''"
  by (simp add: hash_only_def)

lemma hash_only_mono: "hash_only A s s' \<Longrightarrow> A \<subseteq> B \<Longrightarrow> hash_only B s s'"
  by (auto simp: hash_only_def)

lemma only_hash_only: "only A s s' \<Longrightarrow> hash_only A s s'"
  by (auto simp: only_def hash_only_def same_data_def hstrip_def)

lemma hstrip_eqD:
  assumes "hstrip m = hstrip m'"
  shows "md_id m = md_id m'" "md_hash m = md_hash m'" "md_d_name m = md_d_name m'"
    "md_father m = md_father m'" "md_child m = md_child m'" "md_next m = md_next m'"
    "md_st m = md_st m'" "md_fh m = md_fh m'" "md_hardlink m = md_hardlink m'"
  using assms by (cases m; cases m'; simp add: hstrip_def strip_def)+

lemma hash_only_hash: "hash_only A s s' \<Longrightarrow> hash_of s' = hash_of s"
  by (rule ext) (auto simp: hash_only_def dest: hstrip_eqD(2))

lemma cleanup_exec:
  assumes "valid s n"
  shows "mcachefs_metadata_cleanup_hash s n =
    Some (s\<lparr>entry := (entry s)(n := (entry s n)\<lparr>md_right := 0, md_left := 0, md_up := 0\<rparr>)\<rparr>)"
  using assms by (simp add: mcachefs_metadata_cleanup_hash_def run_simps)

lemma table_entries:
  assumes "table s t" and "\<forall>j\<in>set (ids t). entry s' j = entry s j"
    and "alloced_nb s' = alloced_nb s" "hash_root s' = hash_root s"
  shows "table s' t"
  using assms(1,4) shape_entries [OF assms(2,3)] by (simp add: table_def)

lemma table_set_color: "table s t \<Longrightarrow> n \<notin> set (hds t) \<Longrightarrow> table (set_color n c s) t"
  by (simp add: table_def)

text \<open>A new leaf: link it below its parent, colour it red.\<close>

lemma linked_leaf:
  assumes "ctx_at s k 0" and "distinct (khds k)" and "n \<notin> set (khds k)"
    and "valid s n" "md_id (entry s n) = n" "md_left (entry s n) = 0" "md_right (entry s n) = 0"
    and "md_collision_next (entry s n) = 0" "md_collision_previous (entry s n) = 0"
  defines "s' \<equiv> set_color n RED (set_up n (cup k) (relinked s k n))"
  shows "shape s' (cup k) (Node Leaf (n, RED, []) Leaf)" and "ctx_at s' k n"
    and "only (insert n (set (khds k))) s s'"
proof -
  have sd: "same_data s s'" by (simp add: s'_def)
  have e: "entry s' n = (entry s n)\<lparr>md_up := cup k, md_color := RED\<rparr>"
    using assms(3) by (simp add: s'_def relinked_entry)
  then show "shape s' (cup k) (Node Leaf (n, RED, []) Leaf)"
    using assms(4-9) by (simp add: tnode_def s'_def [symmetric])
      (simp add: s'_def)
  have "ctx_at s' k n = ctx_at (relinked s k n) k n"
    by (rule ctx_cong) (use assms(3) in \<open>auto simp: s'_def\<close>)
  then show "ctx_at s' k n"
    using ctx_relinked [OF assms(1,2)] by simp
  show "only (insert n (set (khds k))) s s'"
    using sd by (auto simp: only_def s'_def relinked_entry)
qed

text \<open>A new collider: the chain of the node grows at its end.\<close>

lemma chain_append:
  assumes "chain s i xs" and "distinct (i # xs)" and "n \<notin> set (i # xs)"
    and "valid s n" "md_id (entry s n) = n" "md_collision_next (entry s n) = 0"
  shows "chain (appended s (last (i # xs)) n) i (xs @ [n])"
  using assms
proof (induction xs arbitrary: i)
  case Nil
  then show ?case by (simp add: appended_def)
next
  case (Cons j xs)
  let ?s = "appended s (last (j # xs)) n"
  have "chain ?s j (xs @ [n])" by (rule Cons.IH) (use Cons.prems in auto)
  moreover have "i \<noteq> last (j # xs)"
    using Cons.prems(2) by (metis distinct.simps(2) last_in_set list.distinct(1))
  ultimately show ?case
    using Cons.prems by (auto simp: appended_def)
qed

lemma appended_simps [simp]:
  "valid (appended s j n) p = valid s p" "alloced_nb (appended s j n) = alloced_nb s"
  "hash_root (appended s j n) = hash_root s" "first_free (appended s j n) = first_free s"
  "md_id (entry (appended s j n) i) = md_id (entry s i)"
  "md_up (entry (appended s j n) i) = md_up (entry s i)"
  "md_left (entry (appended s j n) i) = md_left (entry s i)"
  "md_right (entry (appended s j n) i) = md_right (entry s i)"
  "md_color (entry (appended s j n) i) = md_color (entry s i)"
  "i \<noteq> n \<Longrightarrow>
     md_collision_previous (entry (appended s j n) i) = md_collision_previous (entry s i)"
  by (simp_all add: appended_def)

lemma appended_other: "i \<noteq> j \<Longrightarrow> i \<noteq> n \<Longrightarrow> entry (appended s j n) i = entry s i"
  by (simp add: appended_def)

lemma table_appended:
  assumes "table s (plug (Node l (i, c, xs) r) k)" and "fresh s n (plug (Node l (i, c, xs) r) k)"
  shows "table (appended s (last (i # xs)) n) (plug (Node l (i, c, xs @ [n]) r) k)"
proof -
  let ?s = "appended s (last (i # xs)) n"
  have t: "tnode s (cup k) (i, c, xs) (rid l) (rid r)" "shape s i l" "shape s i r" "ctx_at s k i"
    and d: "distinct (concat (left_of k) @ (ids l @ i # xs @ ids r) @ concat (right_of k))"
    using assms(1) by (auto simp: table_plug ids_plug simp del: set_concat)
  have n: "valid s n" "md_id (entry s n) = n" "md_collision_next (entry s n) = 0"
    "n \<notin> set (concat (left_of k) @ (ids l @ i # xs @ ids r) @ concat (right_of k))"
    using assms(2) by (auto simp: fresh_def ids_plug simp del: set_concat)
  have l: "last (i # xs) \<in> set (i # xs)" by (rule last_in_set) simp
  have e: "entry ?s j = entry s j" if "j \<noteq> n" "j \<notin> set (i # xs)" for j
    by (rule appended_other) (use that l in metis)+
  have out: "entry ?s j = entry s j"
    if "j \<in> set (concat (left_of k) @ ids l @ ids r @ concat (right_of k))" for j
    using that d n(4) by (intro e) auto
  have "chain ?s i (xs @ [n])"
    by (rule chain_append) (use t(1) d n in \<open>auto simp: tnode_def simp del: last.simps\<close>)
  then have "tnode ?s (cup k) (i, c, xs @ [n]) (rid l) (rid r)"
    using t(1) n(4) by (simp add: tnode_def del: last.simps)
  moreover have "shape ?s i l = shape s i l" "shape ?s i r = shape s i r"
    by (rule shape_entries; use out in \<open>simp del: last.simps\<close>)+
  moreover have "ctx_at ?s k i = ctx_at s k i"
  proof (rule ctx_entries)
    show "\<forall>j\<in>set (concat (left_of k) @ concat (right_of k)). entry ?s j = entry s j"
      by (intro ballI out) auto
  qed simp_all
  ultimately show ?thesis
    using d n(4) t(2-4) by (auto simp: table_plug ids_plug simp del: set_concat last.simps)
qed

text \<open>The entry after \<open>cleanup_hash\<close>, and the store around it.\<close>

definition cleaned :: "mid \<Rightarrow> mstate \<Rightarrow> mstate" where
  "cleaned n s = s\<lparr>entry := (entry s)(n := (entry s n)\<lparr>md_right := 0, md_left := 0, md_up := 0\<rparr>)\<rparr>"

lemma cleaned_simps [simp]:
  "valid (cleaned n s) p = valid s p" "hash_root (cleaned n s) = hash_root s"
  "alloced_nb (cleaned n s) = alloced_nb s"
  "md_hash (entry (cleaned n s) j) = md_hash (entry s j)"
  "md_id (entry (cleaned n s) j) = md_id (entry s j)"
  "md_collision_next (entry (cleaned n s) j) = md_collision_next (entry s j)"
  "md_collision_previous (entry (cleaned n s) j) = md_collision_previous (entry s j)"
  "j \<noteq> n \<Longrightarrow> entry (cleaned n s) j = entry s j"
  "md_up (entry (cleaned n s) n) = 0" "md_left (entry (cleaned n s) n) = 0"
  "md_right (entry (cleaned n s) n) = 0"
  by (simp_all add: cleaned_def)

lemma same_data_cleaned: "same_data s (cleaned n s)"
  by (auto simp: same_data_def cleaned_def)

lemma table_cleaned: "table s t \<Longrightarrow> n \<notin> set (ids t) \<Longrightarrow> table (cleaned n s) t"
  by (erule table_entries) (auto intro!: cleaned_simps(8))

lemma fresh_cleaned: "fresh s n t \<Longrightarrow> fresh (cleaned n s) n t"
  by (simp add: fresh_def)

lemma do_insert_exec:
  assumes "table s t" "t \<noteq> Leaf" "bucket_table (hash_of s) (buckets t)" "fresh s n t"
    and "locate (hash_of s) (hash_of s n) t [] = (t', k')"
  shows "mcachefs_metadata_do_insert_hash s n =
    (case t' of Leaf \<Rightarrow> Some (set_up n (cup k') (relinked (cleaned n s) k' n))
     | Node l (i, c, xs) r \<Rightarrow> Some (appended (cleaned n s) (last (i # xs)) n))"
proof -
  let ?s = "cleaned n s"
  have h: "hash_of ?s = hash_of s" by auto
  have t: "table ?s t" using assms(1,4) by (simp add: table_cleaned fresh_def)
  then have sh: "shape ?s 0 t" "hash_root s = rid t" by (simp_all add: table_def)
  have "mcachefs_metadata_cleanup_hash s n = Some ?s"
    using assms(4) by (simp add: cleanup_exec cleaned_def fresh_def)
  moreover have "do_get ?s (hash_root s) = Some (rid t)"
    using shape_valid_rid [OF sh(1) assms(2)] sh(2) by (simp add: run_simps)
  moreover have "insert_hash_loop ?s n (rid t) =
    (case t' of Leaf \<Rightarrow> Some (set_up n (cup k') (relinked ?s k' n))
     | Node l (i, c, xs) r \<Rightarrow> Some (appended ?s (last (i # xs)) n))"
    by (rule insert_loop_ok [where k = "[]"])
      (use assms sh in \<open>auto simp: fresh_def h bucket_table_def\<close>)
  ultimately show ?thesis by (simp add: mcachefs_metadata_do_insert_hash_def)
qed

lemma hash_only_cleaned: "hash_only {n} s (cleaned n s)"
  by (rule only_hash_only) (simp add: only_def same_data_cleaned)

lemma hash_only_appended: "hash_only {i, n} s (appended s i n)"
  by (auto simp: hash_only_def appended_def hstrip_def strip_def)

lemma hash_only_set_color: "hash_only {n} s (set_color n c s)"
  by (rule only_hash_only) (auto intro: only_set_color)

lemma hash_only_color: "hash_only A s s' \<Longrightarrow> n \<in> A \<Longrightarrow> hash_only A s (set_color n c s')"
  by (rule hash_only_trans, assumption) (rule hash_only_mono [OF hash_only_set_color], simp)

text \<open>The insertion of a new hash.\<close>

lemma insert_leaf_ok:
  assumes "table s (plug Leaf k)" "rb (plug Leaf k)" "fresh s n (plug Leaf k)"
    and "md_left (entry s n) = 0" "md_right (entry s n) = 0"
  shows "\<exists>s'. mcachefs_metadata_repair_hash
      (set_color n RED (set_up n (cup k) (relinked s k n))) n = Some s' \<and>
    table s' (insert_at n (Leaf, k)) \<and> hash_only (insert n (set (ids (plug Leaf k)))) s s'"
proof -
  let ?s = "set_color n RED (set_up n (cup k) (relinked s k n))"
  let ?T = "Node Leaf (n, RED, []) Leaf"
  let ?A = "set (hds (plug ?T k))"
  have f: "ctx_at s k 0" "distinct (ids (plug Leaf k))" "cinv 0 k"
    using assms(1,2) by (simp_all add: table_plug rb_plug)
  have A: "?A \<subseteq> insert n (set (ids (plug Leaf k)))"
    using set_hds_ids [of "plug Leaf k"] by (auto simp: set_hds_plug)
  have d: "distinct (khds k)" "n \<notin> set (khds k)"
    using distinct_hds [OF f(2)] assms(3) set_hds_ids [of "plug Leaf k"]
    by (auto simp: distinct_hds_plug set_hds_plug fresh_def)
  note leaf = linked_leaf [OF f(1) d, of]
  have l: "shape ?s (cup k) ?T" "ctx_at ?s k n" "only (insert n (set (khds k))) s ?s"
    by (rule leaf; use assms(3-5) in \<open>simp add: fresh_def\<close>)+
  obtain s' where s': "mcachefs_metadata_repair_hash ?s n = Some s'"
      "shape s' 0 (repair_tree Leaf (n, []) Leaf k)"
      "hash_root s' = rid (repair_tree Leaf (n, []) Leaf k)" "only ?A ?s s'"
    using repair_ok [OF l(1,2) _ refl f(3)] d by (auto simp: distinct_hds_plug)
  have "only ?A s s'"
    using only_trans [OF _ s'(4)] l(3) by (auto simp: set_hds_plug)
  then have "hash_only (insert n (set (ids (plug Leaf k)))) s s'"
    using A by (blast intro: only_hash_only only_mono)
  moreover have "distinct (ids (insert_at n (Leaf, k)))"
    using f(2) assms(3)
    by (simp add: fresh_def ids_plug) (auto simp: ids_def buckets_repair_tree)
  ultimately show ?thesis using s' by (simp add: table_def)
qed

text \<open>The insertion of a hash that is already there.\<close>

lemma insert_collider_ok:
  assumes "table s (plug (Node l (i, c, xs) r) k)" "fresh s n (plug (Node l (i, c, xs) r) k)"
    and "md_up (entry s n) = 0"
  shows "\<exists>s'. mcachefs_metadata_repair_hash (set_color n RED (appended s (last (i # xs)) n)) n = Some s' \<and>
    table s' (plug (Node l (i, c, xs @ [n]) r) k) \<and>
    hash_only (insert n (set (ids (plug (Node l (i, c, xs) r) k)))) s s'"
proof -
  let ?s1 = "appended s (last (i # xs)) n"
  let ?s = "set_color n RED ?s1"
  let ?A = "insert n (set (ids (plug (Node l (i, c, xs) r) k)))"
  have "mcachefs_metadata_repair_hash ?s n = Some (set_color n BLACK ?s)"
    using assms(2,3)
    by (subst mcachefs_metadata_repair_hash.simps) (simp add: run_simps set_color_def fresh_def)
  moreover have "n \<notin> set (hds (plug (Node l (i, c, xs @ [n]) r) k))"
    using assms(2) set_hds_ids [of "plug (Node l (i, c, xs) r) k"]
    by (auto simp: set_hds_plug fresh_def)
  then have "table (set_color n BLACK ?s) (plug (Node l (i, c, xs @ [n]) r) k)"
    using table_appended [OF assms(1,2)] by (simp add: table_set_color del: last.simps)
  moreover have "{last (i # xs), n} \<subseteq> ?A"
    using last_in_set [of "i # xs"] by (auto simp: ids_plug simp del: last.simps)
  then have "hash_only ?A s ?s1" by (rule hash_only_mono [OF hash_only_appended])
  then have "hash_only ?A s (set_color n BLACK ?s)"
    by (intro hash_only_color) auto
  ultimately show ?thesis by blast
qed

lemma insert_hash_ok:
  assumes "table s t" "rb t" "t \<noteq> Leaf" "bucket_table (hash_of s) (buckets t)" "fresh s n t"
  shows "\<exists>s'. mcachefs_metadata_insert_hash s n = Some s' \<and>
    table s' (insert_tree (hash_of s) n t) \<and> hash_only (insert n (set (ids t))) s s'"
proof -
  obtain t' k where loc: "locate (hash_of s) (hash_of s n) t [] = (t', k)" by fastforce
  have t: "plug t' k = t" using plug_locate [OF loc] by simp
  let ?s = "cleaned n s"
  have tab: "table ?s (plug t' k)" "fresh ?s n (plug t' k)" "rb (plug t' k)"
    using assms by (simp_all add: t table_cleaned fresh_cleaned) (simp add: fresh_def table_cleaned)
  note exec = do_insert_exec [OF assms(1,3-5) loc]
  have v: "valid s n" using assms(5) by (simp add: fresh_def)
  have "\<exists>s2 s'. mcachefs_metadata_do_insert_hash s n = Some s2 \<and> valid s2 n \<and>
      mcachefs_metadata_repair_hash (set_color n RED s2) n = Some s' \<and>
      table s' (insert_at n (t', k)) \<and> hash_only (insert n (set (ids t))) ?s s'"
  proof (cases t' rule: rcol.cases)
    case 1
    with insert_leaf_ok [of ?s k n] tab t exec v show ?thesis by auto
  next
    case (2 l i c xs r)
    with insert_collider_ok [of ?s l i c xs r k n] tab t exec v show ?thesis by auto
  qed
  then obtain s2 s' where s': "mcachefs_metadata_do_insert_hash s n = Some s2" "valid s2 n"
      "mcachefs_metadata_repair_hash (set_color n RED s2) n = Some s'"
      "table s' (insert_at n (t', k))" "hash_only (insert n (set (ids t))) ?s s'"
    by blast
  have "hash_only (insert n (set (ids t))) s ?s"
    by (rule hash_only_mono [OF hash_only_cleaned]) simp
  from hash_only_trans [OF this s'(5)] have "hash_only (insert n (set (ids t))) s s'" .
  moreover have "mcachefs_metadata_insert_hash s n = Some s'"
    using s'(1-3) by (simp add: mcachefs_metadata_insert_hash_def run_simps set_color_def)
  ultimately show ?thesis using s'(4) by (simp add: insert_tree_def loc)
qed

end
