(* ===== verification/Hash_Lookup.thy ===== *)
theory Hash_Lookup
  imports Hash_Tree
begin

text \<open>
  Lookup in the hash tree (src/src/mcachefs-metadata.c): comparing a path with the names up
  the directory tree (\<open>mcachefs_metadata_equals\<close>) and \<open>mcachefs_metadata_find_hash\<close>.
\<close>

section \<open>The code\<close>

definition MAX_LEVELS :: nat where
  "MAX_LEVELS = 1024"

text \<open>
  The stack of names, from the entry up to below the root.  The buffer has
  \<open>MAX_LEVELS\<close> places, and filling it is a \<open>Bug\<close>.
\<close>

function namestack_loop :: "mstate \<Rightarrow> mid \<Rightarrow> string list \<Rightarrow> string list option" where
  "namestack_loop s current ns = do {
     f \<leftarrow> ld s current md_father;
     if f = 0 then Some ns
     else do {
       n \<leftarrow> ld s current md_d_name;
       if length ns + 1 \<ge> MAX_LEVELS then Bug
       else do {
         up \<leftarrow> do_get s f;
         namestack_loop s up (n # ns)
       }
     }
   }"
  by pat_completeness auto
termination by (relation "measure (\<lambda>(s, current, ns). MAX_LEVELS - length ns)") auto

declare namestack_loop.simps [simp del]

text \<open>
  The comparison, from the outermost name inwards: the rest of the path, the index of its
  first character, the rest of the current name, and the names below it.
\<close>

fun equals_loop :: "string \<Rightarrow> int \<Rightarrow> int \<Rightarrow> string \<Rightarrow> string list \<Rightarrow> bool option" where
  "equals_loop [] path_idx path_size current_name names =
     Some (names = [] \<and> current_name = [])"
| "equals_loop (c # cpath) path_idx path_size current_name names =
     (let path_idx = path_idx + 1 in
      if path_idx = path_size then Some True
      else case current_name of
        [] \<Rightarrow> if c \<noteq> CHR ''/'' then Bug
              else (case names of
                  [] \<Rightarrow> Bug
                | name # names \<Rightarrow> equals_loop cpath path_idx path_size name names)
      | d # name \<Rightarrow> if c \<noteq> d then Some False else equals_loop cpath path_idx path_size name names)"

text \<open>The names end up outermost first; for the root itself \<open>namestack[-1]\<close> is read.\<close>

definition mcachefs_metadata_equals :: "mstate \<Rightarrow> mid \<Rightarrow> string \<Rightarrow> int \<Rightarrow> bool option" where
  "mcachefs_metadata_equals s mdata path path_size =
     (if path = ''/'' then do { i \<leftarrow> ld s mdata md_id; Some (i = id_root) }
      else do {
        names \<leftarrow> namestack_loop s mdata [];
        case names of
          [] \<Rightarrow> Bug
        | name # names \<Rightarrow>
            (case path of [] \<Rightarrow> Bug | _ # cpath \<Rightarrow> equals_loop cpath 0 path_size name names)
      })"

partial_function (option) find_hash_loop ::
  "mstate \<Rightarrow> string \<Rightarrow> hash_t \<Rightarrow> int \<Rightarrow> mid \<Rightarrow> mid option" where
  "find_hash_loop s path hash path_size current =
     (if current = 0 then Some 0
      else do {
        ch \<leftarrow> ld s current md_hash;
        if hash < ch then do {
          l \<leftarrow> ld s current md_left;
          c \<leftarrow> do_get s l;
          find_hash_loop s path hash path_size c
        } else if ch < hash then do {
          r \<leftarrow> ld s current md_right;
          c \<leftarrow> do_get s r;
          find_hash_loop s path hash path_size c
        } else do {
          eq \<leftarrow> mcachefs_metadata_equals s current path path_size;
          if eq then Some current
          else do {
            n \<leftarrow> ld s current md_collision_next;
            c \<leftarrow> do_get s n;
            find_hash_loop s path hash path_size c
          }
        }
      })"

declare find_hash_loop.simps [code]

definition mcachefs_metadata_find_hash :: "mstate \<Rightarrow> string \<Rightarrow> hash_t \<Rightarrow> int \<Rightarrow> mid option" where
  "mcachefs_metadata_find_hash s path hash path_size = do {
     current \<leftarrow> do_get s (hash_root s);
     find_hash_loop s path hash path_size current
   }"

end
