(* ===== verification/Hash_Find.thy ===== *)
theory Hash_Find
  imports Hash_Insert Hash_Lookup
begin

text \<open>
  Correctness of the lookup: the comparison of Hash_Lookup decides whether a path is the one
  of an entry (or faults, when the entry's path is a proper prefix), and the search of the tree
  returns the first entry of the bucket that compares equal.
\<close>

section \<open>What a comparison decides\<close>

text \<open>The path of an entry: its names from the top, each after a slash.\<close>

definition join_path :: "string list \<Rightarrow> string" where
  "join_path ns = concat (map ((#) (CHR ''/'')) ns)"

lemma join_path_simps [simp]:
  "join_path [] = []" "join_path (n # ns) = CHR ''/'' # n @ join_path ns"
  by (simp_all add: join_path_def)

lemma join_path_append: "join_path (a @ b) = join_path a @ join_path b"
  by (simp add: join_path_def)

text \<open>The names above an entry, by the father links up to the root.\<close>

inductive names_of :: "mstate \<Rightarrow> mid \<Rightarrow> string list \<Rightarrow> bool" for s where
  root: "valid s id_root \<Longrightarrow> md_father (entry s id_root) = 0 \<Longrightarrow> names_of s id_root []"
| below: "valid s i \<Longrightarrow> md_father (entry s i) = f \<Longrightarrow> f \<noteq> 0 \<Longrightarrow> names_of s f ns \<Longrightarrow>
     names_of s i (ns @ [md_d_name (entry s i)])"

inductive_cases names_ofE: "names_of s i ns"

lemma names_of_valid: "names_of s i ns \<Longrightarrow> valid s i"
  by (auto elim: names_ofE)

lemma names_of_unique: "names_of s i ns \<Longrightarrow> names_of s i ms \<Longrightarrow> ms = ns"
proof (induction arbitrary: ms rule: names_of.induct)
  case root
  from root.prems show ?case
  proof cases
    case (below f ns)
    with root.hyps show ?thesis by simp
  qed simp
next
  case (below i f ns)
  from below.prems show ?case
  proof cases
    case root
    with below.hyps show ?thesis by simp
  next
    case (below f' ns')
    with below.hyps below.IH [of ns'] show ?thesis by simp
  qed
qed

lemma namestack_loop_names:
  "names_of s i ns \<Longrightarrow> length ns + length acc < MAX_LEVELS \<Longrightarrow>
   namestack_loop s i acc = Some (ns @ acc)"
proof (induction arbitrary: acc rule: names_of.induct)
  case root
  then show ?case by (subst namestack_loop.simps) (simp add: run_simps)
next
  case (below i f ns)
  have "valid s f" using below.hyps(4) by (rule names_of_valid)
  moreover have "namestack_loop s f (md_d_name (entry s i) # acc) =
      Some (ns @ md_d_name (entry s i) # acc)"
    using below.prems by (intro below.IH) simp
  ultimately show ?case using below.hyps below.prems
    by (subst namestack_loop.simps) (simp add: run_simps)
qed

text \<open>A whole path (\<open>path_size\<close> its length): the answer, when there is one, is right.\<close>

lemma equals_loop_sound:
  "idx + int (length cs) < sz \<Longrightarrow> equals_loop cs idx sz cur ns = Some b \<Longrightarrow>
   b \<longleftrightarrow> cs = cur @ join_path ns"
proof (induction cs idx sz cur ns rule: equals_loop.induct)
  case (1 idx sz cur ns)
  then show ?case by (cases ns) auto
next
  case (2 c cs idx sz cur ns)
  then show ?case by (cases cur; cases ns) (auto split: if_splits)
qed

lemma equals_loop_complete:
  "idx + int (length (cur @ join_path ns)) < sz \<Longrightarrow>
   equals_loop (cur @ join_path ns) idx sz cur ns = Some True"
proof (induction ns arbitrary: idx cur)
  case Nil
  then show ?case by (induction cur arbitrary: idx) auto
next
  case (Cons n ns)
  then show ?case
  proof (induction cur arbitrary: idx)
    case Nil
    then show ?case using Nil(1) [of "idx + 1" n] by auto
  next
    case (Cons c cur)
    then show ?case by auto
  qed
qed

text \<open>The comparison faults exactly when the entry's path ends, at a name, before the path.\<close>

lemma equals_loop_fault:
  "idx + int (length (cur @ join_path ns @ c # cs)) < sz \<Longrightarrow>
   equals_loop (cur @ join_path ns @ c # cs) idx sz cur ns = Bug"
proof (induction ns arbitrary: idx cur)
  case Nil
  then show ?case by (induction cur arbitrary: idx) auto
next
  case (Cons n ns)
  then show ?case
  proof (induction cur arbitrary: idx)
    case Nil
    then show ?case using Nil(1) [of "idx + 1" n] by auto
  next
    case (Cons d cur)
    then show ?case by auto
  qed
qed

lemma equals_sound:
  assumes "names_of s i ns" "ns \<noteq> []" "length ns < MAX_LEVELS"
    and "path \<noteq> ''/''" "mcachefs_metadata_equals s i path (int (length path)) = Some b"
  shows "b \<longleftrightarrow> tl path = tl (join_path ns)"
proof -
  obtain n ms where ns: "ns = n # ms" using assms(2) by (cases ns) auto
  have "namestack_loop s i [] = Some ns" using namestack_loop_names [OF assms(1), of "[]"] assms(3) by simp
  with assms(4,5) obtain c cs where "path = c # cs" "equals_loop cs 0 (int (length path)) n ms = Some b"
    by (auto simp: mcachefs_metadata_equals_def ns split: list.splits)
  with equals_loop_sound [of 0 cs "int (length path)" n ms b] show ?thesis by (simp add: ns)
qed

lemma equals_complete:
  assumes "names_of s i ns" "ns \<noteq> []" "length ns < MAX_LEVELS" "path = join_path ns" "path \<noteq> ''/''"
  shows "mcachefs_metadata_equals s i path (int (length path)) = Some True"
proof -
  obtain n ms where ns: "ns = n # ms" using assms(2) by (cases ns) auto
  have "namestack_loop s i [] = Some ns" using namestack_loop_names [OF assms(1), of "[]"] assms(3) by simp
  moreover have "equals_loop (n @ join_path ms) 0 (int (length path)) n ms = Some True"
    by (rule equals_loop_complete) (simp add: assms(4) ns)
  moreover have "path = CHR ''/'' # n @ join_path ms" by (simp add: assms(4) ns)
  ultimately show ?thesis using assms(5)
    by (simp only: mcachefs_metadata_equals_def ns if_False bind.bind_lunit list.case)
qed

lemma equals_fault:
  assumes "names_of s i ns" "ns \<noteq> []" "length ns < MAX_LEVELS" "path = join_path ns @ c # cs"
  shows "mcachefs_metadata_equals s i path (int (length path)) = Bug"
proof -
  obtain n ms where ns: "ns = n # ms" using assms(2) by (cases ns) auto
  have "namestack_loop s i [] = Some ns" using namestack_loop_names [OF assms(1), of "[]"] assms(3) by simp
  moreover have "equals_loop (n @ join_path ms @ c # cs) 0 (int (length path)) n ms = Bug"
    by (rule equals_loop_fault) (simp add: assms(4) ns)
  ultimately show ?thesis
    by (simp add: mcachefs_metadata_equals_def ns assms(4))
qed

section \<open>The descent\<close>

text \<open>The first entry of a bucket that compares equal, 0 when there is none.\<close>

fun first_equal :: "mstate \<Rightarrow> string \<Rightarrow> int \<Rightarrow> mid list \<Rightarrow> mid option" where
  "first_equal s path sz [] = Some 0"
| "first_equal s path sz (i # is) = do {
     eq \<leftarrow> mcachefs_metadata_equals s i path sz;
     if eq then Some i else first_equal s path sz is
   }"

text \<open>The bucket of a hash.\<close>

fun get_bucket :: "(mid \<Rightarrow> 'h::linorder) \<Rightarrow> 'h \<Rightarrow> mid list list \<Rightarrow> mid list" where
  "get_bucket h v [] = []"
| "get_bucket h v (b # bs) = (if h (hd b) = v then b else get_bucket h v bs)"

lemma get_bucket_none:
  "\<forall>b\<in>set bs. h (hd b) \<noteq> v \<Longrightarrow> get_bucket h v bs = []"
  by (induction bs) auto

lemma get_bucket_append:
  "\<forall>b\<in>set bs. h (hd b) \<noteq> v \<Longrightarrow> get_bucket h v (bs @ cs) = get_bucket h v cs"
  "\<forall>b\<in>set cs. h (hd b) \<noteq> v \<Longrightarrow> get_bucket h v (bs @ cs) = get_bucket h v bs"
  by (induction bs) (auto simp: get_bucket_none)

lemma find_hash_loop_0 [simp]: "find_hash_loop s path v sz 0 = Some 0"
  by (simp add: find_hash_loop.simps)

lemma find_hash_loop_hit:
  assumes "valid s i" "hash_of s i = v" "do_get s (md_collision_next (entry s i)) = Some c"
  shows "find_hash_loop s path v sz i = do {
     eq \<leftarrow> mcachefs_metadata_equals s i path sz;
     if eq then Some i else find_hash_loop s path v sz c
   }"
  using assms valid_nz [OF assms(1)]
  by (subst find_hash_loop.simps) (simp add: run_simps cong: if_cong)

lemma chain_find:
  assumes "chain s i xs" "valid s i" "\<forall>j\<in>set (i # xs). hash_of s j = v"
  shows "find_hash_loop s path v sz i = first_equal s path sz (i # xs)"
  using assms
proof (induction xs arbitrary: i)
  case Nil
  then have "find_hash_loop s path v sz i = do {
     eq \<leftarrow> mcachefs_metadata_equals s i path sz;
     if eq then Some i else find_hash_loop s path v sz 0
   }" by (intro find_hash_loop_hit) (simp_all add: run_simps)
  then show ?case by (simp only: first_equal.simps find_hash_loop_0)
next
  case (Cons j xs)
  then have "find_hash_loop s path v sz i = do {
     eq \<leftarrow> mcachefs_metadata_equals s i path sz;
     if eq then Some i else find_hash_loop s path v sz j
   }" by (intro find_hash_loop_hit) (simp_all add: run_simps)
  moreover have "find_hash_loop s path v sz j = first_equal s path sz (j # xs)"
    using Cons by simp
  ultimately show ?case by (simp only: first_equal.simps(2) [of _ _ _ i])
qed

lemma find_hash_loop_ok:
  assumes "shape s u t" "bucket_table (hash_of s) (buckets t)"
  shows "find_hash_loop s path v sz (rid t) =
    first_equal s path sz (get_bucket (hash_of s) v (buckets t))"
  using assms
proof (induction t arbitrary: u)
  case Leaf
  then show ?case by (simp add: find_hash_loop.simps)
next
  case (Node l m r)
  obtain i c xs where m: "m = (i, c, xs)" by (cases m)
  have ti: "tnode s u (i, c, xs) (rid l) (rid r)" and sh: "shape s i l" "shape s i r"
    using Node.prems(1) by (auto simp: m)
  have bt: "bucket_table (hash_of s) (buckets l)" "bucket_table (hash_of s) (buckets r)"
    "\<forall>b\<in>set (buckets l). hash_of s (hd b) < hash_of s i"
    "\<forall>b\<in>set (buckets r). hash_of s i < hash_of s (hd b)"
    "\<forall>j\<in>set (i # xs). hash_of s j = hash_of s i"
    using Node.prems(2) unfolding m by (auto simp: bucket_table_def sorted_wrt_append)
  have get: "do_get s (rid l) = Some (rid l)" "do_get s (rid r) = Some (rid r)"
    using shape_valid_rid [OF sh(1)] shape_valid_rid [OF sh(2)]
    by (cases "l = Leaf"; cases "r = Leaf"; simp add: run_simps)+
  have i: "valid s i" "i \<noteq> 0" using tnodeD(1) [OF ti] by auto
  consider (lt) "v < hash_of s i" | (gt) "hash_of s i < v" | (eq) "v = hash_of s i" by force
  then show ?case
  proof cases
    case lt
    then have "find_hash_loop s path v sz i = find_hash_loop s path v sz (rid l)"
      using i get by (subst find_hash_loop.simps) (simp add: run_simps tnodeD [OF ti])
    moreover have "\<forall>b\<in>set ((i # xs) # buckets r). hash_of s (hd b) \<noteq> v"
      using lt bt(4) by auto
    ultimately show ?thesis using Node.IH(1) [OF sh(1) bt(1)]
      by (simp add: m get_bucket_append)
  next
    case gt
    then have "find_hash_loop s path v sz i = find_hash_loop s path v sz (rid r)"
      using i get by (subst find_hash_loop.simps) (auto simp: run_simps tnodeD [OF ti])
    moreover have "\<forall>b\<in>set (buckets l). hash_of s (hd b) \<noteq> v" "hash_of s i \<noteq> v"
      using gt bt(3) by auto
    ultimately show ?thesis using Node.IH(2) [OF sh(2) bt(2)]
      by (simp add: m get_bucket_append)
  next
    case eq
    have "chain s i xs" using ti by (simp add: tnode_def)
    moreover have "\<forall>j\<in>set (i # xs). hash_of s j = v" unfolding eq by (rule bt(5))
    ultimately have "find_hash_loop s path v sz i = first_equal s path sz (i # xs)"
      using i(1) by (intro chain_find)
    moreover have "\<forall>b\<in>set (buckets l). hash_of s (hd b) \<noteq> v" using eq bt(3) by auto
    ultimately show ?thesis using eq by (simp add: m get_bucket_append del: first_equal.simps)
  qed
qed

lemma find_hash_ok:
  assumes "table s t" "bucket_table (hash_of s) (buckets t)"
  shows "mcachefs_metadata_find_hash s path v sz =
    first_equal s path sz (get_bucket (hash_of s) v (buckets t))"
proof -
  have sh: "shape s 0 t" "hash_root s = rid t" using assms(1) by (simp_all add: table_def)
  have "do_get s (rid t) = Some (rid t)"
    using shape_valid_rid [OF sh(1)] by (cases "t = Leaf") (simp_all add: run_simps)
  with find_hash_loop_ok [OF sh(1) assms(2)] sh(2) show ?thesis
    by (simp add: mcachefs_metadata_find_hash_def)
qed

section \<open>How much is read\<close>

definition bucket_head :: "mid list \<Rightarrow> mid" where
  "bucket_head b = (case b of [] \<Rightarrow> 0 | i # is \<Rightarrow> i)"

text \<open>Two stores of the same size that agree on the entries \<open>V\<close>.\<close>

definition same_on :: "mid set \<Rightarrow> mstate \<Rightarrow> mstate \<Rightarrow> bool" where
  "same_on V s s' \<longleftrightarrow> alloced_nb s' = alloced_nb s \<and> hash_root s' = hash_root s \<and> (\<forall>i\<in>V. entry s' i = entry s i)"

lemma same_on_insert: "same_on (insert i V) s s' \<longleftrightarrow> entry s' i = entry s i \<and> same_on V s s'"
  by (auto simp: same_on_def)

lemma same_on_valid: "same_on V s s' \<Longrightarrow> valid s' i = valid s i"
  by (simp add: same_on_def valid_def)

lemma same_on_get: "same_on V s s' \<Longrightarrow> do_get s' i = do_get s i"
  by (simp add: same_on_def mcachefs_metadata_do_get_def valid_def)

text \<open>The search reads the entries of one branch before it arrives at the bucket.\<close>

lemma find_hash_loop_branch:
  assumes "shape s u t" "bucket_table (hash_of s) (buckets t)"
  shows "\<exists>V. finite V \<and> card V \<le> height t \<and> V \<subseteq> set (hds t) \<and> (\<forall>s'. same_on V s s' \<longrightarrow>
    find_hash_loop s' path v sz (rid t) =
      find_hash_loop s' path v sz (bucket_head (get_bucket (hash_of s) v (buckets t))))"
  using assms
proof (induction t arbitrary: u)
  case Leaf
  show ?case by (rule exI [of _ "{}"]) (simp add: bucket_head_def)
next
  case (Node l m r)
  obtain i c xs where m: "m = (i, c, xs)" by (cases m)
  have ti: "tnode s u (i, c, xs) (rid l) (rid r)" and sh: "shape s i l" "shape s i r"
    using Node.prems(1) by (auto simp: m)
  have bt: "bucket_table (hash_of s) (buckets l)" "bucket_table (hash_of s) (buckets r)"
    "\<forall>b\<in>set (buckets l). hash_of s (hd b) < hash_of s i"
    "\<forall>b\<in>set (buckets r). hash_of s i < hash_of s (hd b)"
    using Node.prems(2) unfolding m by (auto simp: bucket_table_def sorted_wrt_append)
  have get: "do_get s (rid l) = Some (rid l)" "do_get s (rid r) = Some (rid r)"
    using shape_valid_rid [OF sh(1)] shape_valid_rid [OF sh(2)]
    by (cases "l = Leaf"; cases "r = Leaf"; simp add: run_simps)+
  have i: "valid s i" "i \<noteq> 0" using tnodeD(1) [OF ti] by auto
  consider (lt) "v < hash_of s i" | (gt) "hash_of s i < v" | (eq) "v = hash_of s i" by force
  then show ?case
  proof cases
    case lt
    from Node.IH(1) [OF sh(1) bt(1)] obtain V where V: "finite V" "card V \<le> height l" "V \<subseteq> set (hds l)"
      "\<And>s'. same_on V s s' \<Longrightarrow> find_hash_loop s' path v sz (rid l) =
        find_hash_loop s' path v sz (bucket_head (get_bucket (hash_of s) v (buckets l)))" by blast
    have "find_hash_loop s' path v sz i = find_hash_loop s' path v sz (rid l)" if "same_on (insert i V) s s'" for s'
    proof -
      from that have e: "entry s' i = entry s i" "valid s' i" "do_get s' (rid l) = Some (rid l)"
        using i get same_on_valid [OF that] same_on_get [OF that] by (simp_all add: same_on_insert)
      then show ?thesis using lt i by (subst find_hash_loop.simps) (simp add: run_simps tnodeD [OF ti])
    qed
    moreover have "\<forall>b\<in>set ((i # xs) # buckets r). hash_of s (hd b) \<noteq> v" using lt bt(4) by auto
    ultimately show ?thesis using V card_insert_le_m1 [of "Suc (card V)" V i] card_insert_if [of V i]
      by (intro exI [of _ "insert i V"]) (auto simp: m same_on_insert get_bucket_append split: if_splits)
  next
    case gt
    from Node.IH(2) [OF sh(2) bt(2)] obtain V where V: "finite V" "card V \<le> height r" "V \<subseteq> set (hds r)"
      "\<And>s'. same_on V s s' \<Longrightarrow> find_hash_loop s' path v sz (rid r) =
        find_hash_loop s' path v sz (bucket_head (get_bucket (hash_of s) v (buckets r)))" by blast
    have "find_hash_loop s' path v sz i = find_hash_loop s' path v sz (rid r)" if "same_on (insert i V) s s'" for s'
    proof -
      from that have e: "entry s' i = entry s i" "valid s' i" "do_get s' (rid r) = Some (rid r)"
        using i get same_on_valid [OF that] same_on_get [OF that] by (simp_all add: same_on_insert)
      then show ?thesis using gt i by (subst find_hash_loop.simps) (auto simp: run_simps tnodeD [OF ti])
    qed
    moreover have "\<forall>b\<in>set (buckets l). hash_of s (hd b) \<noteq> v" "hash_of s i \<noteq> v" using gt bt(3) by auto
    ultimately show ?thesis using V card_insert_if [of V i]
      by (intro exI [of _ "insert i V"]) (auto simp: m same_on_insert get_bucket_append split: if_splits)
  next
    case eq
    have "\<forall>b\<in>set (buckets l). hash_of s (hd b) \<noteq> v" using eq bt(3) by auto
    then show ?thesis using eq
      by (intro exI [of _ "{}"]) (simp add: m get_bucket_append bucket_head_def)
  qed
qed

lemma find_hash_branch:
  assumes "table s t" "bucket_table (hash_of s) (buckets t)"
  shows "\<exists>V. finite V \<and> card V \<le> height t \<and> V \<subseteq> set (hds t) \<and> (\<forall>s'. same_on V s s' \<longrightarrow>
    mcachefs_metadata_find_hash s' path v sz =
      find_hash_loop s' path v sz (bucket_head (get_bucket (hash_of s) v (buckets t))))"
proof -
  have sh: "shape s 0 t" "hash_root s = rid t" using assms(1) by (simp_all add: table_def)
  have "do_get s (rid t) = Some (rid t)"
    using shape_valid_rid [OF sh(1)] by (cases "t = Leaf") (simp_all add: run_simps)
  then have "mcachefs_metadata_find_hash s' path v sz = find_hash_loop s' path v sz (rid t)" if "same_on V s s'" for V s'
    using that sh(2) same_on_get [OF that] by (simp add: mcachefs_metadata_find_hash_def same_on_def)
  with find_hash_loop_branch [OF sh(1) assms(2), of path v sz] show ?thesis by metis
qed

end
