(* ===== verification/Hash_Remove.thy ===== *)
theory Hash_Remove
  imports Hash_Lookup
begin

text \<open>
  Removal from the hash tree (src/src/mcachefs-metadata.c): colliders, the replacement of an
  entry by its successor, and the repair of a missing black node, each operation with its
  faults.
\<close>

section \<open>The code\<close>

partial_function (option) mcachefs_metadata_reinsert_hash :: "mstate \<Rightarrow> mid \<Rightarrow> mstate option" where
  "mcachefs_metadata_reinsert_hash s mdata = do {
     l \<leftarrow> ld s mdata md_left;
     r \<leftarrow> ld s mdata md_right;
     left \<leftarrow> do_get s l;
     right \<leftarrow> do_get s r;
     s \<leftarrow> upd s mdata (\<lambda>m. m\<lparr>md_left := 0, md_right := 0, md_up := 0\<rparr>);
     s \<leftarrow> mcachefs_metadata_insert_hash s mdata;
     s \<leftarrow> (if left \<noteq> 0 then mcachefs_metadata_reinsert_hash s left else Some s);
     if right \<noteq> 0 then mcachefs_metadata_reinsert_hash s right else Some s
   }"

declare mcachefs_metadata_reinsert_hash.simps [code]

text \<open>Hanging the next collider where the head of the list was.\<close>

definition collision_take_place :: "mstate \<Rightarrow> mid \<Rightarrow> mid \<Rightarrow> mstate option" where
  "collision_take_place s mdata next = do {
     mi \<leftarrow> ld s mdata md_id;
     ni \<leftarrow> ld s next md_id;
     mu \<leftarrow> ld s mdata md_up;
     s \<leftarrow> (if mu \<noteq> 0 then do {
             up \<leftarrow> do_get s mu;
             ul \<leftarrow> ld s up md_left;
             if ul = mi then upd s up (\<lambda>m. m\<lparr>md_left := ni\<rparr>)
             else upd s up (\<lambda>m. m\<lparr>md_right := ni\<rparr>)
           }
           else if hash_root s \<noteq> mi then Bug
           else Some (s\<lparr>hash_root := ni\<rparr>));
     ml \<leftarrow> ld s mdata md_left;
     nl \<leftarrow> ld s next md_left;
     s \<leftarrow> (if ml \<noteq> 0 then
             if nl \<noteq> 0 then Bug
             else do {
               s \<leftarrow> upd s next (\<lambda>m. m\<lparr>md_left := ml\<rparr>);
               l \<leftarrow> do_get s ml;
               upd s l (\<lambda>m. m\<lparr>md_up := ni\<rparr>)
             }
           else Some s);
     mr \<leftarrow> ld s mdata md_right;
     nr \<leftarrow> ld s next md_right;
     if mr \<noteq> 0 then
       if nr \<noteq> 0 then Bug
       else do {
         s \<leftarrow> upd s next (\<lambda>m. m\<lparr>md_right := mr\<rparr>);
         r \<leftarrow> do_get s mr;
         upd s r (\<lambda>m. m\<lparr>md_up := ni\<rparr>)
       }
     else Some s
   }"

definition mcachefs_metadata_do_remove_hash_collision :: "mstate \<Rightarrow> mid \<Rightarrow> mstate option" where
  "mcachefs_metadata_do_remove_hash_collision s mdata = do {
     cn \<leftarrow> ld s mdata md_collision_next;
     next \<leftarrow> do_get s cn;
     cp \<leftarrow> ld s mdata md_collision_previous;
     s \<leftarrow> (if cp = 0 then
             if next = 0 then Bug
             else collision_take_place s mdata next
           else do {
             previous \<leftarrow> do_get s cp;
             upd s previous (\<lambda>m. m\<lparr>md_collision_next := cn\<rparr>)
           });
     if next \<noteq> 0 then upd s next (\<lambda>m. m\<lparr>md_collision_previous := cp\<rparr>) else Some s
   }"

partial_function (option) mcachefs_metadata_find_successor :: "mstate \<Rightarrow> mid \<Rightarrow> mid option" where
  "mcachefs_metadata_find_successor s mdata = do {
     l \<leftarrow> ld s mdata md_left;
     if l \<noteq> 0 then do {
       p \<leftarrow> do_get s l;
       mcachefs_metadata_find_successor s p
     } else Some mdata
   }"

declare mcachefs_metadata_find_successor.simps [code]

definition mcachefs_metadata_find_replacer :: "mstate \<Rightarrow> mid \<Rightarrow> mid option" where
  "mcachefs_metadata_find_replacer s mdata = do {
     l \<leftarrow> ld s mdata md_left;
     r \<leftarrow> ld s mdata md_right;
     if l \<noteq> 0 \<and> r \<noteq> 0 then do {
       p \<leftarrow> do_get s r;
       mcachefs_metadata_find_successor s p
     }
     else if l = 0 \<and> r = 0 then Some 0
     else if l \<noteq> 0 then do_get s l
     else do_get s r
   }"

definition mcachefs_metadata_check_no_self_reference :: "mstate \<Rightarrow> mid \<Rightarrow> unit option" where
  "mcachefs_metadata_check_no_self_reference s mdata = do {
     m \<leftarrow> ld s mdata (\<lambda>m. m);
     if md_left m = md_id m \<or> md_right m = md_id m \<or> md_up m = md_id m then Bug else Some ()
   }"

text \<open>\<open>has_left_red_child\<close> and \<open>has_right_red_child\<close>: the child exists and is red.\<close>

definition red_child :: "mstate \<Rightarrow> mid \<Rightarrow> bool option" where
  "red_child s c = (if c \<noteq> 0 then do { p \<leftarrow> do_get s c; k \<leftarrow> ld s p md_color; Some (k = RED) }
                    else Some False)"

text \<open>The rotations when the black brother has a red child.\<close>

definition fix_red_nephew :: "mstate \<Rightarrow> mid \<Rightarrow> mid \<Rightarrow> bool \<Rightarrow> bool \<Rightarrow> mstate option" where
  "fix_red_nephew s up brother brother_is_left has_left_red_child = do {
     bl \<leftarrow> ld s brother md_left;
     br \<leftarrow> ld s brother md_right;
     s \<leftarrow> (if has_left_red_child then do {
             n \<leftarrow> do_get s bl;
             if brother_is_left then do {
               bc \<leftarrow> ld s brother md_color;
               s \<leftarrow> upd s n (\<lambda>m. m\<lparr>md_color := bc\<rparr>);
               uc \<leftarrow> ld s up md_color;
               s \<leftarrow> upd s brother (\<lambda>m. m\<lparr>md_color := uc\<rparr>);
               mcachefs_metadata_rotate_right s up
             } else do {
               uc \<leftarrow> ld s up md_color;
               s \<leftarrow> upd s n (\<lambda>m. m\<lparr>md_color := uc\<rparr>);
               s \<leftarrow> mcachefs_metadata_rotate_right s brother;
               mcachefs_metadata_rotate_left s up
             }
           } else do {
             n \<leftarrow> do_get s br;
             if brother_is_left then do {
               uc \<leftarrow> ld s up md_color;
               s \<leftarrow> upd s n (\<lambda>m. m\<lparr>md_color := uc\<rparr>);
               s \<leftarrow> mcachefs_metadata_rotate_left s brother;
               mcachefs_metadata_rotate_right s up
             } else do {
               bc \<leftarrow> ld s brother md_color;
               s \<leftarrow> upd s n (\<lambda>m. m\<lparr>md_color := bc\<rparr>);
               uc \<leftarrow> ld s up md_color;
               s \<leftarrow> upd s brother (\<lambda>m. m\<lparr>md_color := uc\<rparr>);
               mcachefs_metadata_rotate_left s up
             }
           });
     upd s up (\<lambda>m. m\<lparr>md_color := BLACK\<rparr>)
   }"

partial_function (option) mcachefs_metadata_fix_double_black :: "mstate \<Rightarrow> mid \<Rightarrow> mstate option" where
  "mcachefs_metadata_fix_double_black s mdata = do {
     mcachefs_metadata_check_no_self_reference s mdata;
     mu \<leftarrow> ld s mdata md_up;
     if mu = 0 then Some s
     else do {
       brother \<leftarrow> mcachefs_metadata_brother s mdata;
       up \<leftarrow> do_get s mu;
       if brother = 0 then mcachefs_metadata_fix_double_black s up
       else do {
         ul \<leftarrow> ld s up md_left;
         bi \<leftarrow> ld s brother md_id;
         brother_is_left \<leftarrow> Some (ul = bi);
         bc \<leftarrow> ld s brother md_color;
         if bc = RED then do {
           s \<leftarrow> upd s up (\<lambda>m. m\<lparr>md_color := RED\<rparr>);
           s \<leftarrow> upd s brother (\<lambda>m. m\<lparr>md_color := BLACK\<rparr>);
           s \<leftarrow> (if brother_is_left then mcachefs_metadata_rotate_right s up
                 else mcachefs_metadata_rotate_left s up);
           mcachefs_metadata_fix_double_black s mdata
         } else do {
           bl \<leftarrow> ld s brother md_left;
           br \<leftarrow> ld s brother md_right;
           has_left_red_child \<leftarrow> red_child s bl;
           has_right_red_child \<leftarrow> red_child s br;
           if has_left_red_child \<or> has_right_red_child
           then fix_red_nephew s up brother brother_is_left has_left_red_child
           else do {
             s \<leftarrow> upd s brother (\<lambda>m. m\<lparr>md_color := RED\<rparr>);
             uc \<leftarrow> ld s up md_color;
             if uc = BLACK then mcachefs_metadata_fix_double_black s up
             else upd s up (\<lambda>m. m\<lparr>md_color := BLACK\<rparr>)
           }
         }
       }
     }
   }"

declare mcachefs_metadata_fix_double_black.simps [code]

definition mcachefs_metadata_hash_swap_restore :: "mstate \<Rightarrow> mid \<Rightarrow> bool \<Rightarrow> mstate option" where
  "mcachefs_metadata_hash_swap_restore s first isleft = do {
     fi \<leftarrow> ld s first md_id;
     fu \<leftarrow> ld s first md_up;
     s \<leftarrow> (if fu \<noteq> 0 then do {
             p \<leftarrow> do_get s fu;
             if isleft then upd s p (\<lambda>m. m\<lparr>md_left := fi\<rparr>) else upd s p (\<lambda>m. m\<lparr>md_right := fi\<rparr>)
           } else Some s);
     fl \<leftarrow> ld s first md_left;
     s \<leftarrow> (if fl \<noteq> 0 then do { p \<leftarrow> do_get s fl; upd s p (\<lambda>m. m\<lparr>md_up := fi\<rparr>) } else Some s);
     fr \<leftarrow> ld s first md_right;
     if fr \<noteq> 0 then do { p \<leftarrow> do_get s fr; upd s p (\<lambda>m. m\<lparr>md_up := fi\<rparr>) } else Some s
   }"

text \<open>\<open>first_isleft\<close> and \<open>second_isleft\<close>: is the entry the left child of its parent?\<close>

definition is_left_child :: "mstate \<Rightarrow> mid \<Rightarrow> bool option" where
  "is_left_child s p = do {
     u \<leftarrow> ld s p md_up;
     i \<leftarrow> ld s p md_id;
     if u \<noteq> 0 then do { f \<leftarrow> do_get s u; l \<leftarrow> ld s f md_left; Some (l = i) } else Some False
   }"

text \<open>The body of the swap, once the entries are in order (\<open>second\<close> is no child of \<open>first\<close>).\<close>

definition hash_swap_body :: "mstate \<Rightarrow> mid \<Rightarrow> mid \<Rightarrow> mstate option" where
  "hash_swap_body s first second = do {
     first_isleft \<leftarrow> is_left_child s first;
     second_isleft \<leftarrow> is_left_child s second;
     f \<leftarrow> ld s first (\<lambda>m. m);
     g \<leftarrow> ld s second (\<lambda>m. m);
     s \<leftarrow> upd s first (\<lambda>m. m\<lparr>md_color := md_color g\<rparr>);
     s \<leftarrow> upd s second (\<lambda>m. m\<lparr>md_color := md_color f\<rparr>);
     s \<leftarrow> (if md_up f = md_id g then do {
             otherchild \<leftarrow> Some (if md_left g = md_id f then md_right g else md_left g);
             s \<leftarrow> upd s first (\<lambda>m. m\<lparr>md_up := md_up g\<rparr>);
             s \<leftarrow> upd s second (\<lambda>m. m\<lparr>md_up := md_id f\<rparr>);
             s \<leftarrow> (if first_isleft
                   then upd s first (\<lambda>m. m\<lparr>md_left := md_id g, md_right := otherchild\<rparr>)
                   else upd s first (\<lambda>m. m\<lparr>md_left := otherchild, md_right := md_id g\<rparr>));
             upd s second (\<lambda>m. m\<lparr>md_left := md_left f, md_right := md_right f\<rparr>)
           }
           else if md_left f = md_id g \<or> md_right f = md_id g then Bug
           else if md_left g = md_id f \<or> md_right g = md_id f then Bug
           else do {
             s \<leftarrow> upd s first (\<lambda>m. m\<lparr>md_up := md_up g, md_left := md_left g, md_right := md_right g\<rparr>);
             upd s second (\<lambda>m. m\<lparr>md_up := md_up f, md_left := md_left f, md_right := md_right f\<rparr>)
           });
     s \<leftarrow> mcachefs_metadata_hash_swap_restore s first second_isleft;
     s \<leftarrow> mcachefs_metadata_hash_swap_restore s second first_isleft;
     mcachefs_metadata_check_no_self_reference s first;
     mcachefs_metadata_check_no_self_reference s second;
     Some s
   }"

partial_function (option) mcachefs_metadata_hash_swap :: "mstate \<Rightarrow> mid \<Rightarrow> mid \<Rightarrow> mstate option" where
  "mcachefs_metadata_hash_swap s first second = do {
     mcachefs_metadata_check_no_self_reference s first;
     mcachefs_metadata_check_no_self_reference s second;
     su \<leftarrow> ld s second md_up;
     fi \<leftarrow> ld s first md_id;
     if su = fi then mcachefs_metadata_hash_swap s second first
     else hash_swap_body s first second
   }"

declare mcachefs_metadata_hash_swap.simps [code]

text \<open>An entry without children: a missing black node is repaired while the entry is still
  there, then the parent forgets it.\<close>

definition remove_leaf :: "mstate \<Rightarrow> mid \<Rightarrow> mid \<Rightarrow> bool \<Rightarrow> bool \<Rightarrow> mstate option" where
  "remove_leaf s mdata up iamleft uvBlack = do {
     s \<leftarrow> (if uvBlack then mcachefs_metadata_fix_double_black s mdata
           else do {
             brother \<leftarrow> mcachefs_metadata_brother s mdata;
             if brother \<noteq> 0 then upd s brother (\<lambda>m. m\<lparr>md_color := RED\<rparr>) else Some s
           });
     if iamleft then upd s up (\<lambda>m. m\<lparr>md_left := 0\<rparr>) else upd s up (\<lambda>m. m\<lparr>md_right := 0\<rparr>)
   }"

text \<open>An entry with one child: the child takes its place.\<close>

definition remove_single :: "mstate \<Rightarrow> mid \<Rightarrow> mid \<Rightarrow> mid \<Rightarrow> bool \<Rightarrow> bool \<Rightarrow> mstate option" where
  "remove_single s mdata up replacer iamleft uvBlack =
     (if up = 0 then Bug
      else do {
        ri \<leftarrow> ld s replacer md_id;
        s \<leftarrow> (if iamleft then upd s up (\<lambda>m. m\<lparr>md_left := ri\<rparr>) else upd s up (\<lambda>m. m\<lparr>md_right := ri\<rparr>));
        ui \<leftarrow> ld s up md_id;
        s \<leftarrow> upd s replacer (\<lambda>m. m\<lparr>md_up := ui\<rparr>);
        if uvBlack then mcachefs_metadata_fix_double_black s replacer
        else upd s replacer (\<lambda>m. m\<lparr>md_color := BLACK\<rparr>)
      })"

partial_function (option) mcachefs_metadata_do_remove_hash :: "mstate \<Rightarrow> mid \<Rightarrow> mstate option" where
  "mcachefs_metadata_do_remove_hash s mdata = do {
     mcachefs_metadata_check_no_self_reference s mdata;
     m \<leftarrow> ld s mdata (\<lambda>m. m);
     if md_collision_previous m \<noteq> 0 \<or> md_collision_next m \<noteq> 0
     then mcachefs_metadata_do_remove_hash_collision s mdata
     else do {
       up \<leftarrow> do_get s (md_up m);
       iamleft \<leftarrow> (if up \<noteq> 0 then do { ul \<leftarrow> ld s up md_left; Some (ul = md_id m) } else Some False);
       replacer \<leftarrow> mcachefs_metadata_find_replacer s mdata;
       rc \<leftarrow> (if replacer = 0 then Some BLACK else ld s replacer md_color);
       uvBlack \<leftarrow> Some (rc = BLACK \<and> md_color m = BLACK);
       if replacer = 0 then
         if md_id m = hash_root s then Bug
         else remove_leaf s mdata up iamleft uvBlack
       else if md_left m = 0 \<or> md_right m = 0
       then remove_single s mdata up replacer iamleft uvBlack
       else do {
         s \<leftarrow> mcachefs_metadata_hash_swap s replacer mdata;
         mcachefs_metadata_do_remove_hash s mdata
       }
     }
   }"

declare mcachefs_metadata_do_remove_hash.simps [code]

definition mcachefs_metadata_remove_hash :: "mstate \<Rightarrow> mid \<Rightarrow> mstate option" where
  "mcachefs_metadata_remove_hash s mdata = do {
     s \<leftarrow> mcachefs_metadata_do_remove_hash s mdata;
     mcachefs_metadata_cleanup_hash s mdata
   }"

end
