(* ===== verification/Meta_Alloc.thy ===== *)
theory Meta_Alloc
  imports Meta_Store
begin

text \<open>
  Formatting the metafile, allocating and releasing entries (src/src/mcachefs-metadata.c).
  Free entries are chained through \<open>next\<close> from \<open>first_free\<close>; every free entry is blank
  but for its number and that link, which the callers of \<open>mcachefs_metadata_allocate\<close> rely on.
\<close>

section \<open>The code\<close>

text \<open>
  \<open>pwrite(mcachefs_metadata_fd, &mdata, .., ENTRY_SIZE * n)\<close>.  The offset is an \<open>off_t\<close>;
  one that is not representable makes the write fail, and the caller exits.  The write may also fail
  because the disk is full, and then exits in the same way: the model takes the disk of the
  metafile to have room for the entries that are written.
\<close>

definition write_entry :: "mstate \<Rightarrow> mid \<Rightarrow> metadata \<Rightarrow> mstate option" where
  "write_entry s n m =
     (if ENTRY_SIZE * n < 2 ^ 63 then Some (s\<lparr>entry := (entry s)(n := m)\<rparr>) else None)"

function extend_loop :: "mstate \<Rightarrow> mid \<Rightarrow> mid \<Rightarrow> mstate option" where
  "extend_loop s nfree last_nb =
     (if nfree < last_nb then do {
        s \<leftarrow> write_entry s nfree
          (zero_metadata\<lparr>md_id := nfree, md_next := (if nfree < last_nb - 1 then nfree + 1 else 0)\<rparr>);
        extend_loop s (nfree + 1) last_nb
      } else Some s)"
  by auto
termination by (relation "measure (\<lambda>(s, nfree, last_nb). last_nb - nfree)") auto

declare extend_loop.simps [simp del]

definition mcachefs_metadata_extend_free_entries :: "mstate \<Rightarrow> mid \<Rightarrow> mid \<Rightarrow> mstate option" where
  "mcachefs_metadata_extend_free_entries s first last_nb = extend_loop s first last_nb"

text \<open>\<open>src\<close> is what \<open>stat\<close> says of the source directory (\<open>None\<close>: it fails).\<close>

definition mcachefs_metadata_format :: "mstate \<Rightarrow> stat option \<Rightarrow> mstate option" where
  "mcachefs_metadata_format s src = do {
     s \<leftarrow> Some (s\<lparr>alloced_nb := BLOCK_ENTRY_COUNT, first_free := 2, hash_root := 1\<rparr>);
     st \<leftarrow> src;
     s \<leftarrow> write_entry s 1 (zero_metadata\<lparr>md_id := 1, md_d_name := ''/'', md_hash := doHash ''/'', md_st := st\<rparr>);
     mcachefs_metadata_extend_free_entries s 2 BLOCK_ENTRY_COUNT
   }"

function reset_fh_loop :: "mstate \<Rightarrow> mid \<Rightarrow> mstate" where
  "reset_fh_loop s i =
     (if i < alloced_nb s
      then reset_fh_loop (s\<lparr>entry := (entry s)(i := (entry s i)\<lparr>md_fh := 0\<rparr>)\<rparr>) (i + 1)
      else s)"
  by auto
termination by (relation "measure (\<lambda>(s, i). alloced_nb s - i)") auto

declare reset_fh_loop.simps [simp del]

definition mcachefs_metadata_reset_fh :: "mstate \<Rightarrow> mstate" where
  "mcachefs_metadata_reset_fh s = reset_fh_loop s 1"

definition mcachefs_metadata_allocate :: "mstate \<Rightarrow> (mstate \<times> mid) option" where
  "mcachefs_metadata_allocate s = do {
     s \<leftarrow> (if first_free s = 0 then do {
             first_alloced \<leftarrow> Some (alloced_nb s);
             last_alloced \<leftarrow> Some (first_alloced + BLOCK_ENTRY_COUNT);
             s \<leftarrow> mcachefs_metadata_extend_free_entries s first_alloced last_alloced;
             Some (s\<lparr>first_free := first_alloced, alloced_nb := last_alloced\<rparr>)
           } else Some s);
     next \<leftarrow> do_get s (first_free s);
     nn \<leftarrow> ld s next md_next;
     s \<leftarrow> Some (s\<lparr>first_free := nn\<rparr>);
     ni \<leftarrow> ld s next md_id;
     if ni = 0 then Bug else Some (s, ni)
   }"

definition mcachefs_metadata_remove :: "mstate \<Rightarrow> mid \<Rightarrow> mstate option" where
  "mcachefs_metadata_remove s metadata = do {
     fh \<leftarrow> ld s metadata md_fh;
     s \<leftarrow> (if fh \<noteq> 0 then do {
             mfile \<leftarrow> files s fh;
             Some (s\<lparr>files := (files s)(fh \<mapsto> mfile\<lparr>mf_metadata_id := 0\<rparr>)\<rparr>)
           } else Some s);
     i \<leftarrow> ld s metadata md_id;
     s \<leftarrow> upd s metadata (\<lambda>_. zero_metadata\<lparr>md_id := i\<rparr>);
     ff \<leftarrow> Some (first_free s);
     s \<leftarrow> upd s metadata (\<lambda>m. m\<lparr>md_next := ff\<rparr>);
     Some (s\<lparr>first_free := i\<rparr>)
   }"

definition mcachefs_metadata_clean_fh_locked :: "mstate \<Rightarrow> mid \<Rightarrow> mstate option" where
  "mcachefs_metadata_clean_fh_locked s i =
     (if i \<noteq> 0 then do { mdata \<leftarrow> do_get s i; upd s mdata (\<lambda>m. m\<lparr>md_fh := 0\<rparr>) } else Some s)"

section \<open>The free list\<close>

definition blank :: "mid \<Rightarrow> metadata \<Rightarrow> bool" where
  "blank i m \<longleftrightarrow> m\<lparr>md_next := 0\<rparr> = zero_metadata\<lparr>md_id := i\<rparr>"

fun free_chain :: "mstate \<Rightarrow> mid \<Rightarrow> mid list \<Rightarrow> bool" where
  "free_chain s p [] \<longleftrightarrow> p = 0"
| "free_chain s p (i # is) \<longleftrightarrow>
     p = i \<and> valid s i \<and> blank i (entry s i) \<and> free_chain s (md_next (entry s i)) is"

definition free_list :: "mstate \<Rightarrow> mid list \<Rightarrow> bool" where
  "free_list s is \<longleftrightarrow> free_chain s (first_free s) is \<and> distinct is"

lemma blankD:
  assumes "blank i m"
  shows "md_id m = i" "md_d_name m = []" "md_father m = 0" "md_child m = 0" "md_up m = 0"
    "md_left m = 0" "md_right m = 0" "md_collision_next m = 0" "md_collision_previous m = 0"
    "md_fh m = 0" "md_st m = zero_stat" "md_hardlink m = 0" "md_hash m = 0"
  using assms by (cases m; simp add: blank_def zero_metadata_def)+

lemma blank_zero [simp]: "blank i (zero_metadata\<lparr>md_id := i, md_next := n\<rparr>)"
  by (simp add: blank_def zero_metadata_def)

lemma free_chain_cong:
  "\<forall>i\<in>set is. entry s' i = entry s i \<Longrightarrow> alloced_nb s \<le> alloced_nb s' \<Longrightarrow>
   free_chain s p is \<Longrightarrow> free_chain s' p is"
  by (induction "is" arbitrary: p) (auto simp: valid_def)

lemma free_chain_valid: "free_chain s p is \<Longrightarrow> i \<in> set is \<Longrightarrow> valid s i \<and> blank i (entry s i)"
  by (induction "is" arbitrary: p) auto

text \<open>What the formatting loop writes.\<close>

definition formatted :: "mstate \<Rightarrow> mid \<Rightarrow> mid \<Rightarrow> mstate" where
  "formatted s m n = s\<lparr>entry := (\<lambda>i. if m \<le> i \<and> i < n
     then zero_metadata\<lparr>md_id := i, md_next := (if i < n - 1 then i + 1 else 0)\<rparr>
     else entry s i)\<rparr>"

lemma formatted_simps [simp]:
  "alloced_nb (formatted s m n) = alloced_nb s" "first_free (formatted s m n) = first_free s"
  "hash_root (formatted s m n) = hash_root s" "files (formatted s m n) = files s"
  by (simp_all add: formatted_def)

lemma extend_loop_ok:
  "ENTRY_SIZE * n \<le> 2 ^ 63 \<Longrightarrow> extend_loop s m n = Some (formatted s m n)"
proof (induction s m n rule: extend_loop.induct)
  case (1 s m n)
  show ?case
  proof (cases "m < n")
    case True
    have w: "ENTRY_SIZE * m < 2 ^ 63"
    proof -
      have "ENTRY_SIZE * m < ENTRY_SIZE * n" using True by (simp add: ENTRY_SIZE_def)
      then show ?thesis using 1(2) by (rule order.strict_trans2)
    qed
    let ?s = "s\<lparr>entry := (entry s)(m := zero_metadata\<lparr>md_id := m, md_next := (if m < n - 1 then m + 1 else 0)\<rparr>)\<rparr>"
    have "extend_loop s m n = extend_loop ?s (m + 1) n"
      using True w by (subst extend_loop.simps) (simp add: write_entry_def)
    also have "\<dots> = Some (formatted ?s (m + 1) n)"
      using 1(1) [OF True, of ?s] 1(2) w by (simp add: write_entry_def)
    also have "formatted ?s (m + 1) n = formatted s m n"
      using True by (auto simp: formatted_def fun_eq_iff)
    finally show ?thesis .
  next
    case False
    have "\<not> (m \<le> i \<and> i < n)" for i using False by linarith
    then have "formatted s m n = s" by (simp only: formatted_def if_False) simp
    with False show ?thesis by (subst extend_loop.simps) simp
  qed
qed

lemma free_chain_formatted:
  assumes "\<And>i. m \<le> i \<Longrightarrow> i < n \<Longrightarrow>
      entry s i = zero_metadata\<lparr>md_id := i, md_next := (if i < n - 1 then i + 1 else 0)\<rparr>"
    and "0 < m" "m < n" "n \<le> alloced_nb s"
  shows "free_chain s m [m..<n]"
  using assms
proof (induction "n - m" arbitrary: m)
  case (Suc d)
  have u: "[m..<n] = m # [Suc m..<n]" using Suc.prems(3) by (rule upt_conv_Cons)
  show ?case
  proof (cases "Suc m < n")
    case True
    then have "free_chain s (Suc m) [Suc m..<n]"
      using Suc.prems Suc.hyps(2) by (intro Suc.hyps(1)) auto
    with True Suc.prems show ?thesis by (simp add: u valid_def)
  next
    case False
    with Suc.prems show ?thesis by (simp add: u valid_def)
  qed
qed simp

lemma allocate_free:
  assumes "free_list s (i # is)"
  shows "mcachefs_metadata_allocate s = Some (s\<lparr>first_free := md_next (entry s i)\<rparr>, i)"
    and "free_list (s\<lparr>first_free := md_next (entry s i)\<rparr>) is"
proof -
  have i: "first_free s = i" "valid s i" "blank i (entry s i)"
    using assms by (auto simp: free_list_def)
  then show "mcachefs_metadata_allocate s = Some (s\<lparr>first_free := md_next (entry s i)\<rparr>, i)"
    by (simp add: mcachefs_metadata_allocate_def run_simps blankD)
  have "free_chain s (md_next (entry s i)) is" using assms by (auto simp: free_list_def)
  then have "free_chain (s\<lparr>first_free := md_next (entry s i)\<rparr>) (md_next (entry s i)) is"
    by (rule free_chain_cong [rotated 2]) auto
  then show "free_list (s\<lparr>first_free := md_next (entry s i)\<rparr>) is"
    using assms by (simp add: free_list_def)
qed

definition extended :: "mstate \<Rightarrow> mstate" where
  "extended s = (formatted s (alloced_nb s) (alloced_nb s + BLOCK_ENTRY_COUNT))
     \<lparr>first_free := alloced_nb s, alloced_nb := alloced_nb s + BLOCK_ENTRY_COUNT\<rparr>"

lemma free_list_extended:
  assumes "0 < alloced_nb s"
  shows "free_list (extended s) [alloced_nb s..<alloced_nb s + BLOCK_ENTRY_COUNT]"
proof -
  have "free_chain (extended s) (alloced_nb s) [alloced_nb s..<alloced_nb s + BLOCK_ENTRY_COUNT]"
    using assms by (intro free_chain_formatted)
      (auto simp: extended_def formatted_def BLOCK_ENTRY_COUNT_def)
  then show ?thesis by (simp add: free_list_def extended_def)
qed

lemma allocate_extend:
  assumes "first_free s = 0" and "ENTRY_SIZE * (alloced_nb s + BLOCK_ENTRY_COUNT) \<le> 2 ^ 63"
    and "0 < alloced_nb s"
  shows "mcachefs_metadata_allocate s = mcachefs_metadata_allocate (extended s)"
proof -
  have "mcachefs_metadata_extend_free_entries s (alloced_nb s) (alloced_nb s + BLOCK_ENTRY_COUNT) =
      Some (formatted s (alloced_nb s) (alloced_nb s + BLOCK_ENTRY_COUNT))"
    using extend_loop_ok assms(2) by (simp add: mcachefs_metadata_extend_free_entries_def)
  moreover have "first_free (extended s) \<noteq> 0" using assms(3) by (simp add: extended_def)
  ultimately show ?thesis
    using assms(1) by (simp add: mcachefs_metadata_allocate_def extended_def)
qed

lemma remove_exec:
  assumes "valid s i" "md_id (entry s i) = i"
    and "md_fh (entry s i) \<noteq> 0 \<Longrightarrow> files s (md_fh (entry s i)) \<noteq> None"
  shows "\<exists>s'. mcachefs_metadata_remove s i = Some s' \<and> alloced_nb s' = alloced_nb s \<and>
    hash_root s' = hash_root s \<and> first_free s' = i \<and>
    entry s' = (entry s)(i := zero_metadata\<lparr>md_id := i, md_next := first_free s\<rparr>)"
  using assms by (auto simp: mcachefs_metadata_remove_def run_simps zero_metadata_def valid_def
    ld_def upd_def)

lemma remove_free_list:
  assumes "valid s i" "md_id (entry s i) = i"
    and "md_fh (entry s i) \<noteq> 0 \<Longrightarrow> files s (md_fh (entry s i)) \<noteq> None"
    and "free_list s is" "i \<notin> set is"
  shows "\<exists>s'. mcachefs_metadata_remove s i = Some s' \<and> free_list s' (i # is)"
proof -
  obtain s' where s': "mcachefs_metadata_remove s i = Some s'" "alloced_nb s' = alloced_nb s"
      "first_free s' = i"
      "entry s' = (entry s)(i := zero_metadata\<lparr>md_id := i, md_next := first_free s\<rparr>)"
    using remove_exec [OF assms(1-3)] by blast
  have "free_chain s' (first_free s) is"
    by (rule free_chain_cong [where s = s]) (use assms(4,5) s' in \<open>auto simp: free_list_def\<close>)
  with s' assms show ?thesis by (auto simp: free_list_def valid_def zero_metadata_def blank_def)
qed

lemma format_exec:
  "mcachefs_metadata_format s (Some st) = Some
     (formatted (s\<lparr>alloced_nb := BLOCK_ENTRY_COUNT, first_free := 2, hash_root := 1,
        entry := (entry s)(1 := zero_metadata\<lparr>md_id := 1, md_d_name := ''/'', md_hash := doHash ''/'', md_st := st\<rparr>)\<rparr>)
        2 BLOCK_ENTRY_COUNT)"
  using extend_loop_ok
  by (simp add: mcachefs_metadata_format_def mcachefs_metadata_extend_free_entries_def
    write_entry_def ENTRY_SIZE_def BLOCK_ENTRY_COUNT_def)

end
