(* ===== verification/Path_Util.thy ===== *)
theory Path_Util
  imports Prelude
begin

text \<open>
  The path functions of src/src/mcachefs-util.c.  A path is the list of its characters; a
  pointer into it is the rest of the list.
\<close>

definition mcachefs_makepath :: "string \<Rightarrow> string \<Rightarrow> string" where
  "mcachefs_makepath path prefix_path =
     (let len = length path + length prefix_path + 1 in take (len - 1) (prefix_path @ path))"

text \<open>\<open>bname\<close> is moved behind every slash that \<open>cur\<close> passes.\<close>

fun basename_loop :: "string \<Rightarrow> string \<Rightarrow> string" where
  "basename_loop bname [] = bname"
| "basename_loop bname (c # cur) = basename_loop (if c = CHR ''/'' then cur else bname) cur"

definition path_basename :: "string \<Rightarrow> string" where
  "path_basename path = basename_loop path path"

text \<open>The last slash: its index and the path from it on (\<open>lname\<close>, not set without a slash).\<close>

fun split_loop :: "string \<Rightarrow> nat \<Rightarrow> nat \<times> string option \<Rightarrow> nat \<times> string option" where
  "split_loop [] i r = r"
| "split_loop (c # cs) i r = split_loop cs (i + 1) (if c = CHR ''/'' then (i, Some (c # cs)) else r)"

text \<open>Without a slash the code increments an uninitialised pointer.\<close>

definition mcachefs_split_path :: "string \<Rightarrow> (string \<times> string) option" where
  "mcachefs_split_path path =
     (case split_loop path 0 (0, None) of
        (lastSlash, None) \<Rightarrow> Bug
      | (lastSlash, Some l) \<Rightarrow>
          (let lastSlash = (if lastSlash = 0 then lastSlash + 1 else lastSlash)
           in Some (take lastSlash path, tl l)))"

section \<open>What they compute\<close>

lemma makepath_append: "mcachefs_makepath path pre = pre @ path"
  by (simp add: mcachefs_makepath_def)

lemma basename_loop_no_slash: "CHR ''/'' \<notin> set cs \<Longrightarrow> basename_loop b cs = b"
  by (induction cs arbitrary: b) auto

lemma basename_loop_slash: "CHR ''/'' \<notin> set n \<Longrightarrow> basename_loop b (d @ CHR ''/'' # n) = n"
  by (induction d arbitrary: b) (auto simp: basename_loop_no_slash)

lemma basename_slash: "CHR ''/'' \<notin> set n \<Longrightarrow> path_basename (d @ CHR ''/'' # n) = n"
  by (simp add: path_basename_def basename_loop_slash)

lemma split_loop_no_slash: "CHR ''/'' \<notin> set cs \<Longrightarrow> split_loop cs i r = r"
  by (induction cs arbitrary: i r) auto

lemma split_loop_slash:
  "CHR ''/'' \<notin> set n \<Longrightarrow>
   split_loop (d @ CHR ''/'' # n) i r = (i + length d, Some (CHR ''/'' # n))"
  by (induction d arbitrary: i r) (auto simp: split_loop_no_slash)

lemma split_path_slash:
  "CHR ''/'' \<notin> set n \<Longrightarrow>
   mcachefs_split_path (d @ CHR ''/'' # n) = Some (if d = [] then ''/'' else d, n)"
  by (auto simp: mcachefs_split_path_def split_loop_slash)

end
