(* ===== verification/Meta_Dir.thy ===== *)
theory Meta_Dir
  imports Hash_Remove Meta_Alloc Path_Util
begin

text \<open>
  The directory tree of src/src/mcachefs-metadata.c: the children of an entry are the list
  from \<open>child\<close> through \<open>next\<close>; \<open>child = 0\<close> means not looked up yet, \<open>id_EMPTY\<close> an empty
  directory.  This theory holds linking, the lookup of children in the source, and the
  search for a path.
\<close>

section \<open>The environment\<close>

text \<open>
  What the operations read from outside: the directories of the source file system, by the
  names that \<open>mcachefs_metadata_recurse_open\<close> opens one after the other (\<open>None\<close> when an
  open fails; an entry has no stat when \<open>fstatat\<close> fails), the read state of the
  configuration, the owner of the request and that of the process, the time, and the mount point.
\<close>

record env =
  env_readdir :: "string list \<Rightarrow> (string \<times> stat option) list option"
  env_read_state :: read_state
  env_uid :: nat
  env_gid :: nat
  env_getuid :: nat
  env_getgid :: nat
  env_now :: int
  env_mountpoint :: string

text \<open>\<open>S_IFMT\<close> is 0xF000; \<open>S_IFDIR\<close>, \<open>S_IFREG\<close> and \<open>S_IFLNK\<close> are 0x4000, 0x8000, 0xA000.\<close>

definition file_format :: "nat \<Rightarrow> nat" where
  "file_format mode = mode div 4096 mod 16"

definition S_ISDIR :: "nat \<Rightarrow> bool" where "S_ISDIR mode \<longleftrightarrow> file_format mode = 4"
definition S_ISREG :: "nat \<Rightarrow> bool" where "S_ISREG mode \<longleftrightarrow> file_format mode = 8"
definition S_ISLNK :: "nat \<Rightarrow> bool" where "S_ISLNK mode \<longleftrightarrow> file_format mode = 10"

lemmas mode_defs = S_ISDIR_def S_ISREG_def S_ISLNK_def file_format_def

definition NAME_MAX :: nat where "NAME_MAX = 255"

abbreviation md_mode :: "metadata \<Rightarrow> nat" where
  "md_mode m \<equiv> st_mode (md_st m)"

section \<open>Linking\<close>

definition mcachefs_metadata_build_hash :: "mstate \<Rightarrow> mid \<Rightarrow> mid \<Rightarrow> mstate option" where
  "mcachefs_metadata_build_hash s father child = do {
     ff \<leftarrow> ld s father md_father;
     fh \<leftarrow> ld s father md_hash;
     s \<leftarrow> upd s child (\<lambda>m. m\<lparr>md_hash := (if ff \<noteq> 0 then continueHash fh ''/'' else fh)\<rparr>);
     upd s child (\<lambda>m. m\<lparr>md_hash := continueHash (md_hash m) (md_d_name m)\<rparr>)
   }"

definition mcachefs_metadata_link_entry :: "mstate \<Rightarrow> mid \<Rightarrow> mid \<Rightarrow> mstate option" where
  "mcachefs_metadata_link_entry s father child = do {
     fi \<leftarrow> ld s father md_id;
     s \<leftarrow> upd s child (\<lambda>m. m\<lparr>md_father := fi\<rparr>);
     fc \<leftarrow> ld s father md_child;
     s \<leftarrow> (if fc \<noteq> id_EMPTY then upd s child (\<lambda>m. m\<lparr>md_next := fc\<rparr>)
           else upd s child (\<lambda>m. m\<lparr>md_next := 0\<rparr>));
     ci \<leftarrow> ld s child md_id;
     upd s father (\<lambda>m. m\<lparr>md_child := ci\<rparr>)
   }"

text \<open>The search for the predecessor in the list of children.\<close>

partial_function (option) unlink_loop :: "mstate \<Rightarrow> mid \<Rightarrow> mid \<Rightarrow> mstate option" where
  "unlink_loop s mdata next = do {
     nn \<leftarrow> ld s next md_next;
     if nn = 0 then Bug
     else do {
       i \<leftarrow> ld s mdata md_id;
       mn \<leftarrow> ld s mdata md_next;
       if nn = i then upd s next (\<lambda>m. m\<lparr>md_next := mn\<rparr>)
       else do { p \<leftarrow> do_get s nn; unlink_loop s mdata p }
     }
   }"

declare unlink_loop.simps [code]

definition mcachefs_metadata_unlink_entry :: "mstate \<Rightarrow> mid \<Rightarrow> mstate option" where
  "mcachefs_metadata_unlink_entry s mdata = do {
     m \<leftarrow> ld s mdata (\<lambda>m. m);
     if md_father m = 0 then Bug
     else do {
       father \<leftarrow> do_get s (md_father m);
       fc \<leftarrow> ld s father md_child;
       if fc = md_id m
       then upd s father (\<lambda>f. f\<lparr>md_child := (if md_next m \<noteq> 0 then md_next m else id_EMPTY)\<rparr>)
       else do { next \<leftarrow> do_get s fc; unlink_loop s mdata next }
     }
   }"

definition mcachefs_metadata_do_add_child :: "mstate \<Rightarrow> mid \<Rightarrow> mid \<Rightarrow> mstate option" where
  "mcachefs_metadata_do_add_child s father child = do {
     fi \<leftarrow> ld s father md_id;
     s \<leftarrow> upd s child (\<lambda>m. m\<lparr>md_father := fi\<rparr>);
     fc \<leftarrow> ld s father md_child;
     s \<leftarrow> (if fc = 0 \<or> fc = id_EMPTY then upd s child (\<lambda>m. m\<lparr>md_next := 0\<rparr>)
           else upd s child (\<lambda>m. m\<lparr>md_next := fc\<rparr>));
     ci \<leftarrow> ld s child md_id;
     s \<leftarrow> upd s father (\<lambda>m. m\<lparr>md_child := ci\<rparr>);
     s \<leftarrow> mcachefs_metadata_build_hash s father child;
     mcachefs_metadata_insert_hash s child
   }"

definition mcachefs_metadata_add_child_ids :: "mstate \<Rightarrow> mid \<Rightarrow> mid \<Rightarrow> mstate option" where
  "mcachefs_metadata_add_child_ids s father_id child_id = do {
     father \<leftarrow> do_get s father_id;
     child \<leftarrow> do_get s child_id;
     mcachefs_metadata_do_add_child s father child
   }"

section \<open>Fetching the children from the source\<close>

text \<open>The names that are opened in turn from the source directory down.\<close>

partial_function (option) mcachefs_metadata_recurse_open :: "mstate \<Rightarrow> mid \<Rightarrow> string list option" where
  "mcachefs_metadata_recurse_open s father = do {
     ff \<leftarrow> ld s father md_father;
     if ff = 0 then Some []
     else do {
       p \<leftarrow> do_get s ff;
       ns \<leftarrow> mcachefs_metadata_recurse_open s p;
       n \<leftarrow> ld s father md_d_name;
       Some (ns @ [n])
     }
   }"

declare mcachefs_metadata_recurse_open.simps [code]

text \<open>The loop over \<open>readdir\<close>.\<close>

fun get_child_loop :: "mstate \<Rightarrow> mid \<Rightarrow> (string \<times> stat option) list \<Rightarrow> mstate option" where
  "get_child_loop s fatherid [] = Some s"
| "get_child_loop s fatherid ((name, st) # des) =
     (if name = ''.'' \<or> name = ''..'' then get_child_loop s fatherid des
      else if fatherid = id_root \<and> name = ''.mcachefs'' then get_child_loop s fatherid des
      else do {
        (s, newid) \<leftarrow> mcachefs_metadata_allocate s;
        newmeta \<leftarrow> do_get s newid;
        s \<leftarrow> upd s newmeta (\<lambda>m. m\<lparr>md_d_name := take (NAME_MAX + 1) name\<rparr>);
        s \<leftarrow> (case st of Some st \<Rightarrow> upd s newmeta (\<lambda>m. m\<lparr>md_st := st\<rparr>) | None \<Rightarrow> Some s);
        s \<leftarrow> mcachefs_metadata_add_child_ids s fatherid newid;
        get_child_loop s fatherid des
      })"

definition mcachefs_metadata_get_child :: "env \<Rightarrow> mstate \<Rightarrow> mid \<Rightarrow> (mstate \<times> mid) option" where
  "mcachefs_metadata_get_child e s father = do {
     fatherid \<leftarrow> ld s father md_id;
     fc \<leftarrow> ld s father md_child;
     mode \<leftarrow> ld s father md_mode;
     if fc = id_EMPTY then Some (s, 0)
     else if fc \<noteq> 0 then do { c \<leftarrow> do_get s fc; Some (s, c) }
     else if \<not> S_ISDIR mode then Some (s, 0)
     else if env_read_state e = StateHandsup then Some (s, 0)
     else do {
       names \<leftarrow> mcachefs_metadata_recurse_open s father;
       case env_readdir e names of
         None \<Rightarrow> Some (s, 0)
       | Some des \<Rightarrow> do {
           s \<leftarrow> get_child_loop s fatherid des;
           fc \<leftarrow> ld s father md_child;
           if fc = 0 then do {
             s \<leftarrow> upd s father (\<lambda>m. m\<lparr>md_child := id_EMPTY\<rparr>);
             Some (s, 0)
           } else do { c \<leftarrow> do_get s fc; Some (s, c) }
         }
     }
   }"

text \<open>
  The walk of \<open>fetch_children\<close>: \<open>fetch_next\<close> climbs to the next entry to visit (0 when the
  walk is over).
\<close>

partial_function (option) fetch_next :: "mstate \<Rightarrow> mid \<Rightarrow> mid \<Rightarrow> mid option" where
  "fetch_next s rootid current = do {
     m \<leftarrow> ld s current (\<lambda>m. m);
     if md_next m = 0 then
       if md_father m = rootid then Some 0
       else if md_father m = id_root then Some 0
       else if md_father m = 0 then Bug
       else do { p \<leftarrow> do_get s (md_father m); fetch_next s rootid p }
     else if md_id m = rootid then Some 0
     else Some (md_next m)
   }"

declare fetch_next.simps [code]

partial_function (option) fetch_loop :: "env \<Rightarrow> mstate \<Rightarrow> mid \<Rightarrow> mid \<Rightarrow> mstate option" where
  "fetch_loop e s rootid currentid = do {
     current \<leftarrow> do_get s currentid;
     mode \<leftarrow> ld s current md_mode;
     cc \<leftarrow> ld s current md_child;
     s \<leftarrow> (if S_ISDIR mode \<and> cc = 0
           then do { (s, c) \<leftarrow> mcachefs_metadata_get_child e s current; Some s } else Some s);
     cc \<leftarrow> ld s current md_child;
     if S_ISDIR mode \<and> cc \<noteq> id_EMPTY then fetch_loop e s rootid cc
     else do {
       nextid \<leftarrow> fetch_next s rootid current;
       if nextid = 0 then Some s else fetch_loop e s rootid nextid
     }
   }"

declare fetch_loop.simps [code]

definition mcachefs_metadata_fetch_children :: "env \<Rightarrow> mstate \<Rightarrow> mid \<Rightarrow> mstate option" where
  "mcachefs_metadata_fetch_children e s mroot = do {
     rootid \<leftarrow> ld s mroot md_id;
     fetch_loop e s rootid rootid
   }"

section \<open>Searching a path\<close>

text \<open>The children of one directory, until one has the hash and the name.\<close>

partial_function (option) walk_children :: "mstate \<Rightarrow> mid \<Rightarrow> hash_t \<Rightarrow> string \<Rightarrow> nat \<Rightarrow> mid option" where
  "walk_children s child hash rpath rpath_size =
     (if child = 0 then Some 0
      else do {
        m \<leftarrow> ld s child (\<lambda>m. m);
        if md_hash m = hash \<and> strncmp_eq (md_d_name m) rpath rpath_size then Some child
        else do { c \<leftarrow> do_get s (md_next m); walk_children s c hash rpath rpath_size }
      })"

declare walk_children.simps [code]

text \<open>\<open>path_size\<close> indexes the slash before the name to search; past the end of the string the
  code reads foreign memory.\<close>

partial_function (option) mcachefs_metadata_walk_down ::
  "env \<Rightarrow> mstate \<Rightarrow> mid \<Rightarrow> string \<Rightarrow> nat \<Rightarrow> (mstate \<times> mid) option" where
  "mcachefs_metadata_walk_down e s father path path_size =
     (if path_size + 1 > length path then Bug
      else do {
        path_size \<leftarrow> Some (path_size + 1);
        rpath \<leftarrow> Some (drop path_size path);
        rpath_size \<leftarrow> Some (length (takeWhile (\<lambda>c. c \<noteq> CHR ''/'') rpath));
        father_hash \<leftarrow> ld s father md_hash;
        (s, child) \<leftarrow> mcachefs_metadata_get_child e s father;
        if child = 0 then Some (s, 0)
        else do {
          father_hash \<leftarrow> Some (continueHash father_hash ''/'');
          hash \<leftarrow> Some (continueHashPartial father_hash rpath (int rpath_size));
          child \<leftarrow> walk_children s child hash rpath rpath_size;
          if child = 0 then Some (s, 0)
          else if rpath_size < length rpath
          then mcachefs_metadata_walk_down e s child path (path_size + rpath_size + 1)
          else Some (s, child)
        }
      })"

declare mcachefs_metadata_walk_down.simps [code]

fun back_to_slash :: "string \<Rightarrow> nat \<Rightarrow> nat" where
  "back_to_slash path 0 = 0"
| "back_to_slash path (Suc n) =
     (if Suc n < length path \<and> path ! Suc n = CHR ''/'' then Suc n else back_to_slash path n)"

lemma back_to_slash_le: "back_to_slash path n \<le> n"
  by (induction n) auto

text \<open>The longest ancestor that is in the hash tree, and where its path ends.\<close>

function semi_lookup :: "mstate \<Rightarrow> string \<Rightarrow> nat \<Rightarrow> (mid \<times> nat) option" where
  "semi_lookup s path path_size =
     (let ps = back_to_slash path path_size in
      if ps \<le> 1 then do { r \<leftarrow> do_get s id_root; Some (r, ps) }
      else do {
        m \<leftarrow> mcachefs_metadata_find_hash s path (doHashPartial path (int ps)) (int ps);
        if m \<noteq> 0 then Some (m, ps) else semi_lookup s path (ps - 1)
      })"
  by auto
termination
proof (relation "measure (\<lambda>(s, path, ps). ps)")
  fix s :: mstate and path :: string and path_size x :: nat and m
  assume "x = back_to_slash path path_size" "\<not> x \<le> 1"
  then show "((s, path, x - 1), s, path, path_size) \<in> measure (\<lambda>(s, path, ps). ps)"
    using back_to_slash_le [of path path_size] by simp
qed simp

declare semi_lookup.simps [simp del]

definition mcachefs_metadata_find_locked :: "env \<Rightarrow> mstate \<Rightarrow> string \<Rightarrow> (mstate \<times> mid) option" where
  "mcachefs_metadata_find_locked e s path =
     (if path = ''/'' then do { r \<leftarrow> do_get s id_root; Some (s, r) }
      else do {
        m \<leftarrow> mcachefs_metadata_find_hash s path (doHash path) (int (length path));
        if m \<noteq> 0 then Some (s, m)
        else do {
          (m, path_size) \<leftarrow> semi_lookup s path (length path);
          mcachefs_metadata_walk_down e s m path path_size
        }
      })"

end
