(* ===== verification/Meta_Ops.thy ===== *)
theory Meta_Ops
  imports Meta_Dir
begin

text \<open>
  The operations on the directory tree of src/src/mcachefs-metadata.c that the file system
  calls: creating, removing and renaming entries, attributes, hard links, flushing a subtree
  and the virtual directory.  A return code 0 is success and a negative one is \<open>-errno\<close>.
\<close>

section \<open>Attributes and paths\<close>

definition mcachefs_metadata_getattr :: "env \<Rightarrow> mstate \<Rightarrow> string \<Rightarrow> (mstate \<times> (int + stat)) option" where
  "mcachefs_metadata_getattr e s path = do {
     (s, mdata) \<leftarrow> mcachefs_metadata_find_locked e s path;
     if mdata = 0 then Some (s, Inl (- ENOENT))
     else do {
       st \<leftarrow> ld s mdata md_st;
       Some (s, Inr (if S_ISDIR (st_mode st) \<and> st_size st = 0 then st\<lparr>st_size := 4096\<rparr> else st))
     }
   }"

text \<open>The hierarchy of \<open>get_path\<close>, a buffer of \<open>MAX_LEVELS\<close> places that nothing checks.\<close>

function get_path_loop :: "mstate \<Rightarrow> mid \<Rightarrow> string list \<Rightarrow> string list option" where
  "get_path_loop s mcurrent hierarchy = do {
     f \<leftarrow> ld s mcurrent md_father;
     n \<leftarrow> ld s mcurrent md_d_name;
     if f = 0 then if n = ''/'' then Some hierarchy else Bug
     else if length hierarchy \<ge> MAX_LEVELS then Bug
     else do { up \<leftarrow> do_get s f; get_path_loop s up (n # hierarchy) }
   }"
  by pat_completeness auto
termination by (relation "measure (\<lambda>(s, m, h). MAX_LEVELS - length h)") auto

declare get_path_loop.simps [simp del]

definition mcachefs_metadata_get_path :: "mstate \<Rightarrow> mid \<Rightarrow> string option" where
  "mcachefs_metadata_get_path s mdata = do {
     hierarchy \<leftarrow> get_path_loop s mdata [];
     Some (foldl (\<lambda>newpath n. newpath @ ''/'' @ n) [] hierarchy)
   }"

definition mcachefs_metadata_update_fh_path :: "mstate \<Rightarrow> mid \<Rightarrow> mstate option" where
  "mcachefs_metadata_update_fh_path s mdata = do {
     fh \<leftarrow> ld s mdata md_fh;
     if fh = 0 then Some s
     else do {
       newpath \<leftarrow> mcachefs_metadata_get_path s mdata;
       mfile \<leftarrow> files s fh;
       Some (s\<lparr>files := (files s)(fh \<mapsto> mfile\<lparr>mf_path := Some newpath\<rparr>)\<rparr>)
     }
   }"

section \<open>Removing a subtree\<close>

definition remove_entry :: "mstate \<Rightarrow> mid \<Rightarrow> mstate option" where
  "remove_entry s current = do {
     s \<leftarrow> mcachefs_metadata_remove_hash s current;
     mcachefs_metadata_remove s current
   }"

text \<open>The inner loop: climb, removing each directory left, up to a sibling (or to the top: 0).\<close>

partial_function (option) rewind_loop :: "mstate \<Rightarrow> mid \<Rightarrow> mid \<Rightarrow> (mstate \<times> mid) option" where
  "rewind_loop s metadata father =
     (if father = 0 then Bug
      else do {
        fi \<leftarrow> ld s father md_id;
        mi \<leftarrow> ld s metadata md_id;
        if fi = mi then Some (s, 0)
        else do {
          cf \<leftarrow> ld s father md_father;
          grand \<leftarrow> do_get s cf;
          cn \<leftarrow> ld s father md_next;
          next \<leftarrow> do_get s cn;
          s \<leftarrow> remove_entry s father;
          if next \<noteq> 0 then Some (s, next) else rewind_loop s metadata grand
        }
      })"

declare rewind_loop.simps [code]

partial_function (option) remove_children_loop :: "mstate \<Rightarrow> mid \<Rightarrow> mid \<Rightarrow> mstate option" where
  "remove_children_loop s metadata current =
     (if current = 0 then Some s
      else do {
        cc \<leftarrow> ld s current md_child;
        if cc \<noteq> 0 \<and> cc \<noteq> id_EMPTY
        then do { c \<leftarrow> do_get s cc; remove_children_loop s metadata c }
        else do {
          cn \<leftarrow> ld s current md_next;
          next \<leftarrow> do_get s cn;
          cf \<leftarrow> ld s current md_father;
          father \<leftarrow> do_get s cf;
          s \<leftarrow> remove_entry s current;
          if next \<noteq> 0 then remove_children_loop s metadata next
          else do {
            (s, next) \<leftarrow> rewind_loop s metadata father;
            remove_children_loop s metadata next
          }
        }
      })"

declare remove_children_loop.simps [code]

definition mcachefs_metadata_remove_children :: "mstate \<Rightarrow> mid \<Rightarrow> mstate option" where
  "mcachefs_metadata_remove_children s metadata = do {
     mc \<leftarrow> ld s metadata md_child;
     if mc = 0 \<or> mc = id_EMPTY then Some s
     else do {
       current \<leftarrow> do_get s mc;
       s \<leftarrow> remove_children_loop s metadata current;
       upd s metadata (\<lambda>m. m\<lparr>md_child := 0\<rparr>)
     }
   }"

section \<open>Creating an entry\<close>

definition mcachefs_metadata_make_entry ::
  "env \<Rightarrow> mstate \<Rightarrow> string \<Rightarrow> nat \<Rightarrow> nat \<Rightarrow> (mstate \<times> int) option" where
  "mcachefs_metadata_make_entry e s path mode rdev = do {
     (s, mdata) \<leftarrow> mcachefs_metadata_find_locked e s path;
     if mdata \<noteq> 0 then Some (s, - EEXIST)
     else do {
       (dpath, lname) \<leftarrow> mcachefs_split_path path;
       (s, father) \<leftarrow> mcachefs_metadata_find_locked e s dpath;
       fatherid \<leftarrow> ld s father md_id;
       fc \<leftarrow> ld s father md_child;
       s \<leftarrow> (if fc = 0 then do { (s, c) \<leftarrow> mcachefs_metadata_get_child e s father; Some s } else Some s);
       (s, childid) \<leftarrow> mcachefs_metadata_allocate s;
       child \<leftarrow> do_get s childid;
       s \<leftarrow> upd s child (\<lambda>_. zero_metadata\<lparr>md_id := childid\<rparr>);
       father \<leftarrow> do_get s fatherid;
       s \<leftarrow> upd s child (\<lambda>m. m\<lparr>md_d_name := take NAME_MAX lname\<rparr>);
       s \<leftarrow> mcachefs_metadata_build_hash s father child;
       s \<leftarrow> mcachefs_metadata_insert_hash s child;
       s \<leftarrow> upd s child (\<lambda>m. m\<lparr>md_st := (md_st m)\<lparr>st_uid := env_uid e, st_gid := env_gid e,
         st_nlink := 1, st_mode := mode, st_rdev := rdev,
         st_atime := env_now e, st_ctime := env_now e, st_mtime := env_now e\<rparr>\<rparr>);
       s \<leftarrow> (if S_ISDIR mode then upd s child (\<lambda>m. m\<lparr>md_child := id_EMPTY\<rparr>) else Some s);
       s \<leftarrow> mcachefs_metadata_link_entry s father child;
       Some (s, 0)
     }
   }"

section \<open>Hard links\<close>

definition MAX_LINK_COUNT :: nat where
  "MAX_LINK_COUNT = 1024"

text \<open>\<open>st_nlink--\<close> on an unsigned 64-bit count.\<close>

definition decr_nlink :: "metadata \<Rightarrow> metadata" where
  "decr_nlink m = m\<lparr>md_st := (md_st m)\<lparr>st_nlink :=
     (if st_nlink (md_st m) = 0 then 2 ^ 64 - 1 else st_nlink (md_st m) - 1)\<rparr>\<rparr>"

function unlink_list_loop :: "mstate \<Rightarrow> mid \<Rightarrow> mid \<Rightarrow> nat \<Rightarrow> mstate option" where
  "unlink_list_loop s mdata next count =
     (if count + 1 \<ge> MAX_LINK_COUNT then Bug
      else do {
        s \<leftarrow> upd s next decr_nlink;
        nh \<leftarrow> ld s next md_hardlink;
        mi \<leftarrow> ld s mdata md_id;
        mh \<leftarrow> ld s mdata md_hardlink;
        ni \<leftarrow> ld s next md_id;
        if nh = 0 then Bug
        else if nh = mi
        then upd s next (\<lambda>m. m\<lparr>md_hardlink := (if mh = ni then 0 else mh)\<rparr>)
        else do { p \<leftarrow> do_get s nh; unlink_list_loop s mdata p (count + 1) }
      })"
  by auto
termination by (relation "measure (\<lambda>(s, mdata, next, count). MAX_LINK_COUNT - count)") auto

declare unlink_list_loop.simps [simp del]

definition mcachefs_metadata_unlink_list :: "mstate \<Rightarrow> mid \<Rightarrow> mstate option" where
  "mcachefs_metadata_unlink_list s mdata = do {
     mh \<leftarrow> ld s mdata md_hardlink;
     if mh = 0 then Bug
     else do { next \<leftarrow> do_get s mh; unlink_list_loop s mdata next 0 }
   }"

partial_function (option) notify_update_loop :: "mstate \<Rightarrow> mid \<Rightarrow> mid \<Rightarrow> mstate option" where
  "notify_update_loop s mdata next = do {
     st \<leftarrow> ld s mdata md_st;
     s \<leftarrow> upd s next (\<lambda>m. m\<lparr>md_st := st\<rparr>);
     nh \<leftarrow> ld s next md_hardlink;
     mi \<leftarrow> ld s mdata md_id;
     if nh = mi then Some s
     else do { p \<leftarrow> do_get s nh; notify_update_loop s mdata p }
   }"

declare notify_update_loop.simps [code]

definition mcachefs_metadata_notify_update :: "mstate \<Rightarrow> mid \<Rightarrow> mstate option" where
  "mcachefs_metadata_notify_update s mdata = do {
     m \<leftarrow> ld s mdata (\<lambda>m. m);
     if \<not> S_ISREG (md_mode m) \<or> st_nlink (md_st m) \<le> 1 then Some s
     else if md_hardlink m = 0 then Bug
     else do { next \<leftarrow> do_get s (md_hardlink m); notify_update_loop s mdata next }
   }"

section \<open>Removing an entry\<close>

definition mcachefs_metadata_rmdir_unlink :: "env \<Rightarrow> mstate \<Rightarrow> string \<Rightarrow> bool \<Rightarrow> (mstate \<times> int) option" where
  "mcachefs_metadata_rmdir_unlink e s path isDir = do {
     (s, mdata) \<leftarrow> mcachefs_metadata_find_locked e s path;
     if mdata = 0 then Some (s, - ENOENT)
     else do {
       m \<leftarrow> ld s mdata (\<lambda>m. m);
       (s, err) \<leftarrow>
         (if isDir then
            if \<not> S_ISDIR (md_mode m) then Some (s, - ENOTDIR)
            else do {
              s \<leftarrow> (if md_child m = 0
                    then do { (s, c) \<leftarrow> mcachefs_metadata_get_child e s mdata; Some s } else Some s);
              mc \<leftarrow> ld s mdata md_child;
              if mc \<noteq> id_EMPTY then Some (s, - ENOTEMPTY) else Some (s, 0)
            }
          else if \<not> S_ISREG (md_mode m) \<and> \<not> S_ISLNK (md_mode m) then Some (s, - ENOSYS)
          else if st_nlink (md_st m) > 1
          then do { s \<leftarrow> mcachefs_metadata_unlink_list s mdata; Some (s, 0) }
          else Some (s, 0));
       if err \<noteq> 0 then Some (s, err)
       else do {
         s \<leftarrow> mcachefs_metadata_unlink_entry s mdata;
         s \<leftarrow> mcachefs_metadata_remove_hash s mdata;
         s \<leftarrow> mcachefs_metadata_remove s mdata;
         Some (s, 0)
       }
     }
   }"

section \<open>Renaming\<close>

text \<open>The inner loop of \<open>rehash_children\<close>: climb to an entry with a sibling, 0 at the top.\<close>

partial_function (option) rehash_climb :: "mstate \<Rightarrow> mid \<Rightarrow> mid \<Rightarrow> mid \<Rightarrow> (mid \<times> mid) option" where
  "rehash_climb s rootid child fatherid = do {
     m \<leftarrow> ld s child (\<lambda>m. m);
     if md_next m = 0 then
       if md_father m = rootid then Some (0, 0)
       else do {
         p \<leftarrow> do_get s (md_father m);
         pf \<leftarrow> ld s p md_father;
         rehash_climb s rootid p pf
       }
     else if md_id m = rootid then Bug
     else Some (md_next m, fatherid)
   }"

declare rehash_climb.simps [code]

partial_function (option) rehash_loop :: "mstate \<Rightarrow> mid \<Rightarrow> mid \<Rightarrow> mid \<Rightarrow> mstate option" where
  "rehash_loop s rootid childid fatherid = do {
     child \<leftarrow> do_get s childid;
     father \<leftarrow> do_get s fatherid;
     if child = 0 then Bug
     else do {
       s \<leftarrow> mcachefs_metadata_remove_hash s child;
       s \<leftarrow> mcachefs_metadata_build_hash s father child;
       s \<leftarrow> mcachefs_metadata_insert_hash s child;
       fh \<leftarrow> ld s child md_fh;
       s \<leftarrow> (if fh \<noteq> 0 then mcachefs_metadata_update_fh_path s child else Some s);
       m \<leftarrow> ld s child (\<lambda>m. m);
       if S_ISDIR (md_mode m) \<and> md_child m = 0 then Some s
       else if S_ISDIR (md_mode m) \<and> md_child m \<noteq> id_EMPTY
       then rehash_loop s rootid (md_child m) childid
       else do {
         (nextid, fatherid) \<leftarrow> rehash_climb s rootid child fatherid;
         if nextid = 0 then Some s else rehash_loop s rootid nextid fatherid
       }
     }
   }"

declare rehash_loop.simps [code]

definition mcachefs_metadata_rehash_children :: "env \<Rightarrow> mstate \<Rightarrow> mid \<Rightarrow> mstate option" where
  "mcachefs_metadata_rehash_children e s mdata = do {
     rootid \<leftarrow> ld s mdata md_id;
     (s, child) \<leftarrow> mcachefs_metadata_get_child e s mdata;
     if child = 0 then Some s
     else do { childid \<leftarrow> ld s child md_id; rehash_loop s rootid childid rootid }
   }"

definition mcachefs_metadata_rename_entry ::
  "env \<Rightarrow> mstate \<Rightarrow> string \<Rightarrow> string \<Rightarrow> (mstate \<times> int) option" where
  "mcachefs_metadata_rename_entry e s path to = do {
     (s, mdata) \<leftarrow> mcachefs_metadata_find_locked e s path;
     if mdata = 0 then Some (s, - ENOENT)
     else do {
       mode \<leftarrow> ld s mdata md_mode;
       s \<leftarrow> (if S_ISDIR mode then mcachefs_metadata_fetch_children e s mdata else Some s);
       mdataid \<leftarrow> ld s mdata md_id;
       (s, mtarget) \<leftarrow> mcachefs_metadata_find_locked e s to;
       if mtarget \<noteq> 0 then Some (s, - EEXIST)
       else do {
         (targetpath, lname) \<leftarrow> mcachefs_split_path to;
         (s, mtarget) \<leftarrow> mcachefs_metadata_find_locked e s targetpath;
         if mtarget = 0 then Some (s, - ENOENT)
         else do {
           tmode \<leftarrow> ld s mtarget md_mode;
           if \<not> S_ISDIR tmode then Some (s, - ENOTDIR)
           else do {
             mdata \<leftarrow> do_get s mdataid;
             s \<leftarrow> mcachefs_metadata_unlink_entry s mdata;
             s \<leftarrow> mcachefs_metadata_remove_hash s mdata;
             s \<leftarrow> upd s mdata (\<lambda>m. m\<lparr>md_d_name := take NAME_MAX lname\<rparr>);
             s \<leftarrow> mcachefs_metadata_link_entry s mtarget mdata;
             s \<leftarrow> mcachefs_metadata_build_hash s mtarget mdata;
             s \<leftarrow> mcachefs_metadata_insert_hash s mdata;
             m \<leftarrow> ld s mdata (\<lambda>m. m);
             s \<leftarrow> (if S_ISDIR (md_mode m) \<and> md_child m \<noteq> id_EMPTY
                   then mcachefs_metadata_rehash_children e s mdata else Some s);
             fh \<leftarrow> ld s mdata md_fh;
             s \<leftarrow> (if fh \<noteq> 0 then mcachefs_metadata_update_fh_path s mdata else Some s);
             Some (s, 0)
           }
         }
       }
     }
   }"

section \<open>Flushing an entry and the virtual directory\<close>

text \<open>
  The argument is the line written to a virtual file: its length up to the end of line is the
  path.  The slash before the end is looked for at the end itself.
\<close>

definition mcachefs_metadata_find_entry :: "env \<Rightarrow> mstate \<Rightarrow> string \<Rightarrow> mid option" where
  "mcachefs_metadata_find_entry e s path =
     (let mp = env_mountpoint e;
          path = (if strncmp_eq path mp (length mp) then drop (length mp) path else path);
          path_sz = length (takeWhile (\<lambda>c. c \<noteq> CHR 0x0A \<and> c \<noteq> CHR 0x0D) path);
          path_sz = (if path_sz \<noteq> 0 \<and> path_sz < length path \<and> path ! path_sz = CHR ''/''
                     then path_sz - 1 else path_sz)
      in if path_sz = 0 then do_get s id_root
         else mcachefs_metadata_find_hash s path (doHashPartial path (int path_sz)) (int path_sz))"

definition mcachefs_metadata_flush_entry :: "env \<Rightarrow> mstate \<Rightarrow> string \<Rightarrow> mstate option" where
  "mcachefs_metadata_flush_entry e s path = do {
     metadata \<leftarrow> mcachefs_metadata_find_entry e s path;
     if metadata \<noteq> 0 then mcachefs_metadata_remove_children s metadata else Some s
   }"

definition VOPS_NAME :: string where "VOPS_NAME = ''.mcachefs''"

partial_function (option) vops_remove_loop :: "mstate \<Rightarrow> mid \<Rightarrow> mstate option" where
  "vops_remove_loop s child =
     (if child = 0 then Some s
      else do {
        m \<leftarrow> ld s child (\<lambda>m. m);
        if strncmp_eq (md_d_name m) VOPS_NAME NAME_MAX
        then do {
          s \<leftarrow> mcachefs_metadata_remove_children s child;
          s \<leftarrow> mcachefs_metadata_unlink_entry s child;
          s \<leftarrow> mcachefs_metadata_remove_hash s child;
          mcachefs_metadata_remove s child
        }
        else do { c \<leftarrow> do_get s (md_next m); vops_remove_loop s c }
      })"

declare vops_remove_loop.simps [code]

definition mcachefs_metadata_vops_remove_previous :: "env \<Rightarrow> mstate \<Rightarrow> mid \<Rightarrow> mstate option" where
  "mcachefs_metadata_vops_remove_previous e s mdata_root = do {
     (s, child) \<leftarrow> mcachefs_metadata_get_child e s mdata_root;
     vops_remove_loop s child
   }"

text \<open>\<open>S_IFDIR | 0700\<close> and \<open>S_IFREG | 0600\<close>; the owner is the process.\<close>

definition mcachefs_metadata_vops_create_dir :: "env \<Rightarrow> mstate \<Rightarrow> mid \<Rightarrow> (mstate \<times> mid) option" where
  "mcachefs_metadata_vops_create_dir e s root_id = do {
     (s, i) \<leftarrow> mcachefs_metadata_allocate s;
     p \<leftarrow> do_get s i;
     s \<leftarrow> upd s p (\<lambda>m. m\<lparr>md_d_name := take (NAME_MAX + 1) VOPS_NAME,
       md_st := (md_st m)\<lparr>st_mode := 0x41C0, st_uid := env_getuid e, st_gid := env_getgid e, st_nlink := 1\<rparr>\<rparr>);
     s \<leftarrow> mcachefs_metadata_add_child_ids s root_id i;
     Some (s, i)
   }"

definition mcachefs_metadata_vops_create_file :: "env \<Rightarrow> mstate \<Rightarrow> string \<Rightarrow> mid \<Rightarrow> mstate option" where
  "mcachefs_metadata_vops_create_file e s vops_name vops_meta_id = do {
     (s, i) \<leftarrow> mcachefs_metadata_allocate s;
     p \<leftarrow> do_get s i;
     s \<leftarrow> upd s p (\<lambda>m. m\<lparr>md_d_name := take NAME_MAX vops_name,
       md_st := (md_st m)\<lparr>st_mode := 0x8180, st_uid := env_getuid e, st_gid := env_getgid e, st_nlink := 1,
         st_size := 2 ^ 20\<rparr>\<rparr>);
     mcachefs_metadata_add_child_ids s vops_meta_id i
   }"

fun vops_create_files :: "env \<Rightarrow> mstate \<Rightarrow> string list \<Rightarrow> mid \<Rightarrow> mstate option" where
  "vops_create_files e s [] i = Some s"
| "vops_create_files e s (n # ns) i = do {
     s \<leftarrow> mcachefs_metadata_vops_create_file e s n i;
     vops_create_files e s ns i
   }"

text \<open>The names of \<open>vops_procs\<close> in mcachefs-vops.c.\<close>

definition mcachefs_vops_get_vops_list :: "string list" where
  "mcachefs_vops_get_vops_list = [''read_state'', ''write_state'', ''file_thread_interval'',
     ''file_ttl'', ''metadata_map_ttl'', ''transfer_max_rate'', ''transfer'', ''journal'',
     ''metadata'', ''timeslices'', ''cache_prefix'', ''action'']"

definition mcachefs_metadata_populate_vops :: "env \<Rightarrow> mstate \<Rightarrow> mstate option" where
  "mcachefs_metadata_populate_vops e s = do {
     (s, mdata_root) \<leftarrow> mcachefs_metadata_find_locked e s ''/'';
     mdata_root_id \<leftarrow> ld s mdata_root md_id;
     (s, c) \<leftarrow> mcachefs_metadata_get_child e s mdata_root;
     mdata_root \<leftarrow> do_get s mdata_root_id;
     s \<leftarrow> mcachefs_metadata_vops_remove_previous e s mdata_root;
     (s, vops_meta_id) \<leftarrow> mcachefs_metadata_vops_create_dir e s mdata_root_id;
     vops_create_files e s mcachefs_vops_get_vops_list vops_meta_id
   }"

end
