(* ===== verification/Meta_Inv.thy ===== *)
theory Meta_Inv
  imports Hash_Find Meta_Ops
begin

text \<open>
  The invariant of the metafile, and the operations that keep it: the hash tree is a
  red-black table of buckets in hash order, the free entries are a list disjoint from it.
\<close>

section \<open>The invariant\<close>

definition meta_inv :: "mstate \<Rightarrow> htree \<Rightarrow> mid list \<Rightarrow> bool" where
  "meta_inv s t fs \<longleftrightarrow> table s t \<and> rb t \<and> t \<noteq> Leaf \<and> bucket_table (hash_of s) (buckets t) \<and>
     free_list s fs \<and> set fs \<inter> set (ids t) = {} \<and> 0 < alloced_nb s \<and> id_root \<in> set (ids t)"

text \<open>What the hash tree reads of an entry.\<close>

definition hview :: "metadata \<Rightarrow> mid \<times> mid \<times> mid \<times> mid \<times> color \<times> mid \<times> mid" where
  "hview m = (md_id m, md_up m, md_left m, md_right m, md_color m, md_collision_next m,
     md_collision_previous m)"

lemma hview_simps [simp]:
  "hview (m\<lparr>md_d_name := a\<rparr>) = hview m" "hview (m\<lparr>md_father := b\<rparr>) = hview m"
  "hview (m\<lparr>md_child := b\<rparr>) = hview m" "hview (m\<lparr>md_next := b\<rparr>) = hview m"
  "hview (m\<lparr>md_st := c\<rparr>) = hview m" "hview (m\<lparr>md_hash := d\<rparr>) = hview m"
  "hview (m\<lparr>md_fh := b\<rparr>) = hview m" "hview (m\<lparr>md_hardlink := b\<rparr>) = hview m"
  by (simp_all add: hview_def)

lemma chain_hview:
  "\<forall>j\<in>set (i # xs). hview (entry s' j) = hview (entry s j) \<Longrightarrow> alloced_nb s \<le> alloced_nb s' \<Longrightarrow>
   chain s i xs \<Longrightarrow> chain s' i xs"
  by (induction xs arbitrary: i) (auto simp: valid_def hview_def)

lemma shape_hview:
  "\<forall>j\<in>set (ids t). hview (entry s' j) = hview (entry s j) \<Longrightarrow> alloced_nb s \<le> alloced_nb s' \<Longrightarrow>
   shape s u t \<Longrightarrow> shape s' u t"
proof (induction t arbitrary: u)
  case (Node l n r)
  obtain i c xs where n: "n = (i, c, xs)" by (cases n)
  have h: "\<forall>j\<in>set (i # xs). hview (entry s' j) = hview (entry s j)" using Node.prems(1) by (simp add: n)
  have t: "tnode s u (i, c, xs) (rid l) (rid r)" "shape s i l" "shape s i r"
    using Node.prems(3) by (simp_all add: n)
  have "chain s' i xs" by (rule chain_hview [OF h Node.prems(2)]) (use t(1) in \<open>simp add: tnode_def\<close>)
  then have "tnode s' u (i, c, xs) (rid l) (rid r)"
    using t(1) h Node.prems(2) by (simp add: tnode_def valid_def hview_def)
  with Node t show ?case by (simp add: n)
qed simp

lemma table_hview:
  assumes "table s t" "\<forall>j\<in>set (ids t). hview (entry s' j) = hview (entry s j)"
    and "alloced_nb s \<le> alloced_nb s'" "hash_root s' = hash_root s"
  shows "table s' t"
  using assms shape_hview [OF assms(2,3)] by (simp add: table_def)

lemma chain_ids: "chain s i xs \<Longrightarrow> j \<in> set xs \<Longrightarrow> valid s j \<and> md_id (entry s j) = j"
  by (induction xs arbitrary: i) auto

lemma shape_ids: "shape s u t \<Longrightarrow> j \<in> set (ids t) \<Longrightarrow> valid s j \<and> md_id (entry s j) = j"
proof (induction t arbitrary: u)
  case (Node l n r)
  obtain i c xs where n: "n = (i, c, xs)" by (cases n)
  from Node show ?case by (auto simp: n tnode_def dest: chain_ids)
qed simp

lemma table_ids: "table s t \<Longrightarrow> j \<in> set (ids t) \<Longrightarrow> valid s j \<and> md_id (entry s j) = j"
  by (auto simp: table_def dest: shape_ids)

lemma bucket_table_cong:
  "\<forall>i\<in>set (concat bs). h' i = h i \<Longrightarrow> bucket_table h bs \<Longrightarrow> bucket_table h' bs"
proof (induction bs)
  case (Cons b bs)
  have hd: "hd b \<in> set b" "\<forall>b'\<in>set bs. hd b' \<in> set b'"
    using Cons.prems(2) by (auto simp: bucket_table_def)
  then have "h' (hd b) = h (hd b)" "\<forall>b'\<in>set bs. h' (hd b') = h (hd b')"
    using Cons.prems(1) by (auto simp: set_concat)
  with Cons show ?case by auto
qed simp

lemma bucket_table_agree:
  "bucket_table h (buckets t) \<Longrightarrow> \<forall>i\<in>set (ids t). h' i = h i \<Longrightarrow> bucket_table h' (buckets t)"
  by (rule bucket_table_cong) (simp_all add: ids_def)

text \<open>Changes outside the tree and the free list, or to fields that neither reads.\<close>

lemma meta_inv_keep:
  assumes "meta_inv s t fs"
    and "\<forall>j\<in>set (ids t). hview (entry s' j) = hview (entry s j) \<and> hash_of s' j = hash_of s j"
    and "\<forall>j\<in>set fs. entry s' j = entry s j"
    and "alloced_nb s' = alloced_nb s" "hash_root s' = hash_root s" "first_free s' = first_free s"
  shows "meta_inv s' t fs"
  unfolding meta_inv_def
proof (intro conjI)
  show "table s' t" using assms table_hview [of s t s'] by (simp add: meta_inv_def)
  show "bucket_table (hash_of s') (buckets t)"
    using assms(1,2) bucket_table_agree [of "hash_of s" t] by (simp add: meta_inv_def)
  show "free_list s' fs"
    using assms free_chain_cong [of fs s' s "first_free s"] by (simp add: free_list_def meta_inv_def)
qed (use assms in \<open>auto simp: meta_inv_def\<close>)

section \<open>Format and allocation\<close>

lemma format_inv:
  "\<exists>s'. mcachefs_metadata_format s (Some st) = Some s' \<and>
     meta_inv s' (Node Leaf (id_root, BLACK, []) Leaf) [2..<BLOCK_ENTRY_COUNT] \<and>
     entry s' id_root = zero_metadata\<lparr>md_id := 1, md_d_name := ''/'', md_hash := doHash ''/'', md_st := st\<rparr>"
proof -
  let ?s = "s\<lparr>alloced_nb := BLOCK_ENTRY_COUNT, first_free := 2, hash_root := 1,
     entry := (entry s)(1 := zero_metadata\<lparr>md_id := 1, md_d_name := ''/'', md_hash := doHash ''/'', md_st := st\<rparr>)\<rparr>"
  let ?f = "formatted ?s 2 BLOCK_ENTRY_COUNT"
  have e: "entry ?f 1 = zero_metadata\<lparr>md_id := 1, md_d_name := ''/'', md_hash := doHash ''/'', md_st := st\<rparr>"
    by (simp add: formatted_def)
  have "free_chain ?f 2 [2..<BLOCK_ENTRY_COUNT]"
    by (rule free_chain_formatted) (auto simp: formatted_def BLOCK_ENTRY_COUNT_def)
  then have "free_list ?f [2..<BLOCK_ENTRY_COUNT]" by (simp add: free_list_def)
  moreover have "table ?f (Node Leaf (1, BLACK, []) Leaf)"
    using e by (simp add: table_def tnode_def valid_def BLOCK_ENTRY_COUNT_def zero_metadata_def)
  ultimately have "meta_inv ?f (Node Leaf (id_root, BLACK, []) Leaf) [2..<BLOCK_ENTRY_COUNT]"
    by (simp add: meta_inv_def rb_def id_root_def BLOCK_ENTRY_COUNT_def)
  with e show ?thesis by (simp add: format_exec id_root_def)
qed

lemma allocate_free_inv:
  assumes "meta_inv s t (i # fs)"
  shows "\<exists>s'. mcachefs_metadata_allocate s = Some (s', i) \<and> meta_inv s' t fs \<and>
    i \<notin> set (ids t) \<union> set fs \<and> valid s' i \<and> blank i (entry s' i) \<and> entry s' = entry s \<and>
    alloced_nb s' = alloced_nb s \<and> files s' = files s"
proof -
  let ?s = "s\<lparr>first_free := md_next (entry s i)\<rparr>"
  have f: "free_list s (i # fs)" using assms by (simp add: meta_inv_def)
  have "meta_inv ?s t fs"
    using assms allocate_free(2) [OF f] table_hview [of s t ?s]
    by (auto simp: meta_inv_def)
  then show ?thesis using allocate_free(1) [OF f] f assms
    by (auto simp: free_list_def meta_inv_def)
qed

lemma extended_inv:
  assumes "meta_inv s t []"
  shows "meta_inv (extended s) t [alloced_nb s..<alloced_nb s + BLOCK_ENTRY_COUNT]"
    and "\<forall>j<alloced_nb s. entry (extended s) j = entry s j"
proof -
  show e: "\<forall>j<alloced_nb s. entry (extended s) j = entry s j"
    by (simp add: extended_def formatted_def)
  have t: "table s t" "0 < alloced_nb s" using assms by (simp_all add: meta_inv_def)
  have v: "\<forall>j\<in>set (ids t). j < alloced_nb s" using table_ids [OF t(1)] by (auto simp: valid_def)
  then have e': "\<forall>j\<in>set (ids t). entry (extended s) j = entry s j" using e by simp
  have "table (extended s) t"
    by (rule table_hview [OF t(1)]) (use e' in \<open>simp_all add: extended_def\<close>)
  moreover have "bucket_table (hash_of (extended s)) (buckets t)"
    using assms e' bucket_table_agree [of "hash_of s" t] by (simp add: meta_inv_def)
  ultimately show "meta_inv (extended s) t [alloced_nb s..<alloced_nb s + BLOCK_ENTRY_COUNT]"
    using assms free_list_extended [OF t(2)] v
    by (auto simp: meta_inv_def extended_def)
qed

text \<open>The first free entry, or the first one of a new block.\<close>

definition next_entry :: "mstate \<Rightarrow> mid list \<Rightarrow> mid" where
  "next_entry s fs = (case fs of [] \<Rightarrow> alloced_nb s | i # is \<Rightarrow> i)"

definition entries_left :: "mstate \<Rightarrow> mid list \<Rightarrow> mid list" where
  "entries_left s fs = (case fs of [] \<Rightarrow> [alloced_nb s + 1..<alloced_nb s + BLOCK_ENTRY_COUNT] | i # is \<Rightarrow> is)"

lemma allocate_inv_exact:
  assumes "meta_inv s t fs" "ENTRY_SIZE * (alloced_nb s + BLOCK_ENTRY_COUNT) \<le> 2 ^ 63"
  shows "\<exists>s'. mcachefs_metadata_allocate s = Some (s', next_entry s fs) \<and> meta_inv s' t (entries_left s fs) \<and>
    next_entry s fs \<notin> set (ids t) \<union> set (entries_left s fs) \<and> valid s' (next_entry s fs) \<and>
    blank (next_entry s fs) (entry s' (next_entry s fs)) \<and> (\<forall>j<alloced_nb s. entry s' j = entry s j) \<and>
    alloced_nb s' = (if fs = [] then alloced_nb s + BLOCK_ENTRY_COUNT else alloced_nb s)"
proof (cases fs)
  case (Cons i fs')
  with allocate_free_inv [of s t i fs'] assms(1) show ?thesis by (force simp: next_entry_def entries_left_def)
next
  case Nil
  have z: "first_free s = 0" "0 < alloced_nb s"
    using assms(1) by (simp_all add: Nil meta_inv_def free_list_def)
  let ?a = "alloced_nb s"
  have "[?a..<?a + BLOCK_ENTRY_COUNT] = ?a # [Suc ?a..<?a + BLOCK_ENTRY_COUNT]"
    by (rule upt_conv_Cons) (simp add: BLOCK_ENTRY_COUNT_def)
  with extended_inv(1) [of s t] assms(1) Nil
  have "meta_inv (extended s) t (?a # [Suc ?a..<?a + BLOCK_ENTRY_COUNT])" by simp
  from allocate_free_inv [OF this] obtain s' where s':
    "mcachefs_metadata_allocate (extended s) = Some (s', ?a)"
    "meta_inv s' t [Suc ?a..<?a + BLOCK_ENTRY_COUNT]"
    "?a \<notin> set (ids t) \<union> set [Suc ?a..<?a + BLOCK_ENTRY_COUNT]" "valid s' ?a"
    "blank ?a (entry s' ?a)" "entry s' = entry (extended s)" "alloced_nb s' = alloced_nb (extended s)"
    by blast
  moreover have "mcachefs_metadata_allocate s = mcachefs_metadata_allocate (extended s)"
    using z assms(2) by (intro allocate_extend)
  moreover have "\<forall>j<?a. entry (extended s) j = entry s j" "alloced_nb (extended s) = ?a + BLOCK_ENTRY_COUNT"
    by (simp_all add: extended_def formatted_def)
  ultimately show ?thesis unfolding Nil next_entry_def entries_left_def by auto
qed

lemma allocate_inv:
  assumes "meta_inv s t fs" "ENTRY_SIZE * (alloced_nb s + BLOCK_ENTRY_COUNT) \<le> 2 ^ 63"
  shows "\<exists>s' i fs'. mcachefs_metadata_allocate s = Some (s', i) \<and> meta_inv s' t fs' \<and>
    i \<notin> set (ids t) \<union> set fs' \<and> valid s' i \<and> blank i (entry s' i) \<and>
    (\<forall>j<alloced_nb s. entry s' j = entry s j) \<and> alloced_nb s \<le> alloced_nb s' \<and>
    (\<forall>j\<in>set fs. j = i \<or> j \<in> set fs')"
proof -
  obtain s' where "mcachefs_metadata_allocate s = Some (s', next_entry s fs)" "meta_inv s' t (entries_left s fs)"
    "next_entry s fs \<notin> set (ids t) \<union> set (entries_left s fs)" "valid s' (next_entry s fs)"
    "blank (next_entry s fs) (entry s' (next_entry s fs))" "\<forall>j<alloced_nb s. entry s' j = entry s j"
    "alloced_nb s' = (if fs = [] then alloced_nb s + BLOCK_ENTRY_COUNT else alloced_nb s)"
    using allocate_inv_exact [OF assms] by blast
  moreover have "\<forall>j\<in>set fs. j = next_entry s fs \<or> j \<in> set (entries_left s fs)"
    by (cases fs) (simp_all add: next_entry_def entries_left_def)
  ultimately show ?thesis
    by (intro exI [of _ s'] exI [of _ "next_entry s fs"] exI [of _ "entries_left s fs"]) simp
qed

section \<open>Inserting an allocated entry\<close>

lemma hash_only_free: "hash_only A s s' \<Longrightarrow> set fs \<inter> A = {} \<Longrightarrow> free_list s fs \<Longrightarrow> free_list s' fs"
  using free_chain_cong [of fs s' s "first_free s"] by (auto simp: hash_only_def free_list_def)

lemma insert_inv:
  assumes "meta_inv s t fs" "valid s n" "md_id (entry s n) = n" "n \<notin> set (ids t)" "n \<notin> set fs"
    and "md_collision_next (entry s n) = 0" "md_collision_previous (entry s n) = 0"
  shows "\<exists>s'. mcachefs_metadata_insert_hash s n = Some s' \<and>
    meta_inv s' (insert_tree (hash_of s) n t) fs \<and> hash_only (insert n (set (ids t))) s s'"
proof -
  have i: "table s t" "rb t" "t \<noteq> Leaf" "bucket_table (hash_of s) (buckets t)"
    "set fs \<inter> set (ids t) = {}" "free_list s fs" "0 < alloced_nb s" "id_root \<in> set (ids t)"
    using assms(1) by (simp_all add: meta_inv_def)
  let ?t = "insert_tree (hash_of s) n t"
  from i assms obtain s' where s': "mcachefs_metadata_insert_hash s n = Some s'" "table s' ?t"
      "hash_only (insert n (set (ids t))) s s'"
    using insert_hash_ok [of s t n] by (auto simp: fresh_def)
  have b: "buckets ?t = put_bucket (hash_of s) n (buckets t)" by (rule buckets_insert_tree [OF i(4)])
  have set_t: "set (ids ?t) = insert n (set (ids t))"
    unfolding ids_def b by (rule set_put_bucket)
  have "bucket_table (hash_of s') (buckets ?t)"
    unfolding b hash_only_hash [OF s'(3)] by (rule put_bucket_table [OF i(4)])
  moreover have "?t \<noteq> Leaf" using set_t by auto
  moreover have "free_list s' fs" using hash_only_free [OF s'(3)] i(5,6) assms(5) by auto
  moreover have "alloced_nb s' = alloced_nb s" using s'(3) by (simp add: hash_only_def)
  ultimately have "meta_inv s' ?t fs"
    using s'(2) rb_insert_tree [OF i(2)] i(5,7,8) assms(5) set_t by (simp add: meta_inv_def)
  with s' show ?thesis by blast
qed

end
