(* ===== verification/Meta_Make.thy ===== *)
theory Meta_Make
  imports Meta_Inv
begin

text \<open>
  Creating entries: \<open>mcachefs_metadata_add_child_ids\<close> and \<open>mcachefs_metadata_make_entry\<close> keep
  the invariant of the metafile, and a created entry is found by its path.
\<close>

section \<open>Hash of a child\<close>

text \<open>The hash that \<open>build_hash\<close> gives to a name below the directory \<open>f\<close>.\<close>

definition child_hash :: "mstate \<Rightarrow> mid \<Rightarrow> string \<Rightarrow> hash_t" where
  "child_hash s f name =
     continueHash (if md_father (entry s f) \<noteq> 0 then continueHash (hash_of s f) ''/'' else hash_of s f) name"

lemma build_hash_exec:
  assumes "valid s f" "valid s n"
  shows "mcachefs_metadata_build_hash s f n = Some (s\<lparr>entry := (entry s)
    (n := (entry s n)\<lparr>md_hash := child_hash s f (md_d_name (entry s n))\<rparr>)\<rparr>)"
  using assms by (simp add: mcachefs_metadata_build_hash_def run_simps child_hash_def)

text \<open>The hash of an entry is the hash of its path.\<close>

definition path_hashed :: "mstate \<Rightarrow> mid \<Rightarrow> bool" where
  "path_hashed s i \<longleftrightarrow> (\<exists>ns. names_of s i ns \<and>
     hash_of s i = doHash (if ns = [] then ''/'' else join_path ns))"

lemma child_hash_path:
  assumes "names_of s f ns" "hash_of s f = doHash (if ns = [] then ''/'' else join_path ns)"
  shows "child_hash s f n = doHash (join_path (ns @ [n]))"
proof (cases "ns = []")
  case True
  with assms(1) have "md_father (entry s f) = 0" by (auto elim: names_ofE)
  with True assms(2) show ?thesis by (simp add: child_hash_def doHash_append [symmetric])
next
  case False
  with assms(1) have "md_father (entry s f) \<noteq> 0" by (auto elim: names_ofE)
  with False assms(2) show ?thesis
    by (simp add: child_hash_def join_path_append doHash_append [symmetric])
qed

section \<open>The new entry\<close>

text \<open>The data fields of an entry: everything but the links of the hash tree.\<close>

lemma hash_only_data:
  assumes "hash_only A s s'"
  shows "md_d_name (entry s' i) = md_d_name (entry s i)" "md_father (entry s' i) = md_father (entry s i)"
    "md_child (entry s' i) = md_child (entry s i)" "md_next (entry s' i) = md_next (entry s i)"
    "md_st (entry s' i) = md_st (entry s i)" "md_fh (entry s' i) = md_fh (entry s i)"
    "md_hardlink (entry s' i) = md_hardlink (entry s i)" "md_id (entry s' i) = md_id (entry s i)"
    "md_hash (entry s' i) = md_hash (entry s i)"
  using assms hstrip_eqD [of "entry s' i" "entry s i"] by (simp_all add: hash_only_def)

lemma hash_only_valid: "hash_only A s s' \<Longrightarrow> valid s' p = valid s p"
  by (simp add: hash_only_def valid_def)

text \<open>An allocated entry gets its data, and the tree is told.\<close>

definition with_entry :: "mstate \<Rightarrow> mid \<Rightarrow> metadata \<Rightarrow> mstate" where
  "with_entry s n m = s\<lparr>entry := (entry s)(n := m)\<rparr>"

lemma with_entry_simps [simp]:
  "entry (with_entry s n m) = (entry s)(n := m)" "alloced_nb (with_entry s n m) = alloced_nb s"
  "hash_root (with_entry s n m) = hash_root s" "first_free (with_entry s n m) = first_free s"
  "valid (with_entry s n m) p = valid s p" "files (with_entry s n m) = files s"
  by (simp_all add: with_entry_def)

lemma insert_new:
  assumes "meta_inv s t fs" "valid s n" "n \<notin> set (ids t)" "n \<notin> set fs"
    and "md_id m = n" "md_collision_next m = 0" "md_collision_previous m = 0"
  shows "\<exists>s'. mcachefs_metadata_insert_hash (with_entry s n m) n = Some s' \<and>
    meta_inv s' (insert_tree (hash_of (with_entry s n m)) n t) fs \<and>
    hash_only (insert n (set (ids t))) (with_entry s n m) s'"
proof (rule insert_inv)
  show "meta_inv (with_entry s n m) t fs"
    by (rule meta_inv_keep [OF assms(1)]) (use assms in auto)
qed (use assms in auto)

lemma ids_insert_tree:
  "bucket_table h (buckets t) \<Longrightarrow> set (ids (insert_tree h n t)) = insert n (set (ids t))"
  using set_put_bucket [of h n "buckets t"] by (simp add: ids_def buckets_insert_tree del: set_concat)

lemma link_entry_exec:
  assumes "valid s f" "valid s n" "md_id (entry s f) = f" "md_id (entry s n) = n" "f \<noteq> n"
  shows "mcachefs_metadata_link_entry s f n = Some (s\<lparr>entry := (entry s)
    (n := (entry s n)\<lparr>md_father := f,
       md_next := (if md_child (entry s f) \<noteq> id_EMPTY then md_child (entry s f) else 0)\<rparr>,
     f := (entry s f)\<lparr>md_child := n\<rparr>)\<rparr>)"
  using assms by (simp add: mcachefs_metadata_link_entry_def run_simps)

text \<open>\<open>make_entry\<close> once the father is known and the entry allocated.\<close>

definition created :: "env \<Rightarrow> mstate \<Rightarrow> mid \<Rightarrow> mid \<Rightarrow> string \<Rightarrow> nat \<Rightarrow> nat \<Rightarrow> mstate \<Rightarrow> bool" where
  "created e s f n lname mode rdev s' \<longleftrightarrow>
     (let m = entry s' n in
        md_id m = n \<and> md_d_name m = take NAME_MAX lname \<and> md_father m = f \<and>
        md_hash m = child_hash s f (take NAME_MAX lname) \<and>
        md_child m = (if S_ISDIR mode then id_EMPTY else 0) \<and>
        md_next m = (if md_child (entry s f) \<noteq> id_EMPTY then md_child (entry s f) else 0) \<and>
        md_fh m = 0 \<and> md_hardlink m = 0 \<and>
        md_st m = zero_stat\<lparr>st_mode := mode, st_nlink := 1, st_uid := env_uid e, st_gid := env_gid e,
          st_rdev := rdev, st_atime := env_now e, st_mtime := env_now e, st_ctime := env_now e\<rparr>) \<and>
     hstrip (entry s' f) = hstrip ((entry s f)\<lparr>md_child := n\<rparr>)"

definition make_tail :: "env \<Rightarrow> mstate \<Rightarrow> mid \<Rightarrow> mid \<Rightarrow> string \<Rightarrow> nat \<Rightarrow> nat \<Rightarrow> (mstate \<times> int) option" where
  "make_tail e s fatherid childid lname mode rdev = do {
       child \<leftarrow> do_get s childid;
       s \<leftarrow> upd s child (\<lambda>_. zero_metadata\<lparr>md_id := childid\<rparr>);
       father \<leftarrow> do_get s fatherid;
       s \<leftarrow> upd s child (\<lambda>m. m\<lparr>md_d_name := take NAME_MAX lname\<rparr>);
       s \<leftarrow> mcachefs_metadata_build_hash s father child;
       s \<leftarrow> mcachefs_metadata_insert_hash s child;
       s \<leftarrow> upd s child (\<lambda>m. m\<lparr>md_st := (md_st m)\<lparr>st_uid := env_uid e, st_gid := env_gid e,
         st_nlink := 1, st_mode := mode, st_rdev := rdev,
         st_atime := env_now e, st_ctime := env_now e, st_mtime := env_now e\<rparr>\<rparr>);
       s \<leftarrow> (if S_ISDIR mode then upd s child (\<lambda>m. m\<lparr>md_child := id_EMPTY\<rparr>) else Some s);
       s \<leftarrow> mcachefs_metadata_link_entry s father child;
       Some (s, 0)
     }"

lemma hstrip_child: "hstrip m = hstrip m' \<Longrightarrow> hstrip (m\<lparr>md_child := c\<rparr>) = hstrip (m'\<lparr>md_child := c\<rparr>)"
  by (cases m; cases m') (simp add: hstrip_def strip_def)

lemma make_tail_ok:
  assumes inv: "meta_inv s t fs" and n: "valid s n" "n \<notin> set (ids t) \<union> set fs" and f: "f \<in> set (ids t)"
  shows "\<exists>s'. make_tail e s f n lname mode rdev = Some (s', 0) \<and>
    meta_inv s' (insert_tree (hash_of s') n t) fs \<and> set (ids (insert_tree (hash_of s') n t)) = insert n (set (ids t)) \<and>
    created e s f n lname mode rdev s' \<and>
    alloced_nb s' = alloced_nb s \<and> (\<forall>j. j \<noteq> n \<longrightarrow> j \<noteq> f \<longrightarrow> hstrip (entry s' j) = hstrip (entry s j))"
proof -
  have fv: "valid s f" "md_id (entry s f) = f" "f \<noteq> n" "f \<notin> set fs"
    using inv f n table_ids [of s t f] by (auto simp: meta_inv_def)
  let ?m = "zero_metadata\<lparr>md_id := n, md_d_name := take NAME_MAX lname,
    md_hash := child_hash s f (take NAME_MAX lname)\<rparr>"
  let ?s1 = "with_entry s n ?m"
  have c: "child_hash (s\<lparr>entry := (entry s)(n := z)\<rparr>) f x = child_hash s f x" for z x
    using fv(3) by (simp add: child_hash_def)
  obtain s2 where s2: "mcachefs_metadata_insert_hash ?s1 n = Some s2"
      "meta_inv s2 (insert_tree (hash_of ?s1) n t) fs" "hash_only (insert n (set (ids t))) ?s1 s2"
    using insert_new [OF inv n(1), of ?m] n(2) by (auto simp: zero_metadata_def)
  note d = hash_only_data [OF s2(3)] and v = hash_only_valid [OF s2(3)]
  define m3 where "m3 = (entry s2 n)\<lparr>md_st := (md_st (entry s2 n))\<lparr>st_uid := env_uid e,
     st_gid := env_gid e, st_nlink := 1, st_mode := mode, st_rdev := rdev, st_atime := env_now e,
     st_ctime := env_now e, st_mtime := env_now e\<rparr>\<rparr>"
  define s3 where "s3 = s2\<lparr>entry := (entry s2)(n := (if S_ISDIR mode then m3\<lparr>md_child := id_EMPTY\<rparr> else m3))\<rparr>"
  define s' where "s' = s3\<lparr>entry := (entry s3)(n := (entry s3 n)\<lparr>md_father := f,
       md_next := (if md_child (entry s3 f) \<noteq> id_EMPTY then md_child (entry s3 f) else 0)\<rparr>,
     f := (entry s3 f)\<lparr>md_child := n\<rparr>)\<rparr>"
  have link: "mcachefs_metadata_link_entry s3 f n = Some s'"
    unfolding s'_def by (rule link_entry_exec) (use fv n(1) d v in \<open>auto simp: s3_def m3_def zero_metadata_def\<close>)
  have "make_tail e s f n lname mode rdev = Some (s', 0)"
    using fv n(1) s2(1) link v d
    by (cases "S_ISDIR mode") (simp_all add: make_tail_def run_simps build_hash_exec c with_entry_def s3_def m3_def
      zero_metadata_def)
  moreover have h: "hash_of s' = hash_of ?s1"
    using fv(3) by (rule_tac ext) (simp add: s'_def s3_def m3_def d del: with_entry_simps(1))
  then have "meta_inv s' (insert_tree (hash_of s') n t) fs"
    by (simp only: h) (rule meta_inv_keep [OF s2(2)]; use fv n in \<open>auto simp: s'_def s3_def m3_def\<close>)
  moreover have "bucket_table (hash_of ?s1) (buckets t)"
    using inv n(2) bucket_table_agree [of "hash_of s" t] by (simp add: meta_inv_def)
  then have "set (ids (insert_tree (hash_of s') n t)) = insert n (set (ids t))"
    unfolding h by (rule ids_insert_tree)
  moreover have "created e s f n lname mode rdev s'"
    using fv(3) s2(3) d by (auto simp: created_def s'_def s3_def m3_def zero_metadata_def zero_stat_def
      hash_only_def intro: hstrip_child)
  moreover have "\<forall>j. j \<noteq> n \<longrightarrow> j \<noteq> f \<longrightarrow> hstrip (entry s' j) = hstrip (entry s j)"
    using s2(3) by (simp add: hash_only_def s'_def s3_def)
  moreover have "alloced_nb s' = alloced_nb s" using s2(3) by (simp add: hash_only_def s'_def s3_def)
  ultimately show ?thesis by blast
qed

section \<open>make_entry\<close>

lemma names_of_keep:
  assumes "names_of s i ns"
    and "\<And>j. valid s j \<Longrightarrow> j = id_root \<or> md_father (entry s j) \<noteq> 0 \<Longrightarrow>
      valid s' j \<and> md_father (entry s' j) = md_father (entry s j) \<and>
      md_d_name (entry s' j) = md_d_name (entry s j)"
  shows "names_of s' i ns"
  using assms
proof (induction rule: names_of.induct)
  case root
  then show ?case by (metis names_of.root)
next
  case (below i f ns)
  then have "valid s' i" "md_father (entry s' i) = f" "md_d_name (entry s' i) = md_d_name (entry s i)"
    by auto
  with below names_of.below [of s' i f ns] show ?case by simp
qed

lemma make_entry_split:
  assumes "mcachefs_metadata_find_locked e s path = Some (s, 0)"
    and "mcachefs_split_path path = Some (dpath, lname)"
    and "mcachefs_metadata_find_locked e s dpath = Some (s, f)"
    and "valid s f" "md_id (entry s f) = f" "md_child (entry s f) \<noteq> 0"
  shows "mcachefs_metadata_make_entry e s path mode rdev =
    do { (s, n) \<leftarrow> mcachefs_metadata_allocate s; make_tail e s f n lname mode rdev }"
  using assms by (simp add: mcachefs_metadata_make_entry_def make_tail_def run_simps)

lemma make_entry_ok:
  assumes inv: "meta_inv s t fs"
    and find: "mcachefs_metadata_find_locked e s path = Some (s, 0)"
      "mcachefs_split_path path = Some (dpath, lname)"
      "mcachefs_metadata_find_locked e s dpath = Some (s, f)"
    and f: "f \<in> set (ids t)" "md_child (entry s f) \<noteq> 0"
    and space: "ENTRY_SIZE * (alloced_nb s + BLOCK_ENTRY_COUNT) \<le> 2 ^ 63"
  shows "\<exists>s' n t' fs'. mcachefs_metadata_make_entry e s path mode rdev = Some (s', 0) \<and>
    meta_inv s' t' fs' \<and> n \<notin> set (ids t) \<and> set (ids t') = insert n (set (ids t)) \<and>
    buckets t' = put_bucket (hash_of s') n (buckets t) \<and> created e s f n lname mode rdev s' \<and>
    alloced_nb s \<le> alloced_nb s' \<and> md_father (entry s' n) = f \<and>
    (\<forall>j<alloced_nb s. j \<noteq> n \<longrightarrow> j \<noteq> f \<longrightarrow> hstrip (entry s' j) = hstrip (entry s j)) \<and>
    (\<forall>ns. names_of s f ns \<longrightarrow> names_of s' f ns)"
proof -
  have fv: "valid s f" "md_id (entry s f) = f"
    using inv f(1) table_ids [of s t f] by (auto simp: meta_inv_def)
  obtain s1 n fs' where s1: "mcachefs_metadata_allocate s = Some (s1, n)" "meta_inv s1 t fs'"
      "n \<notin> set (ids t) \<union> set fs'" "valid s1 n" "blank n (entry s1 n)"
      "\<forall>j<alloced_nb s. entry s1 j = entry s j" "alloced_nb s \<le> alloced_nb s1"
    using allocate_inv [OF inv space] by blast
  obtain s' where s': "make_tail e s1 f n lname mode rdev = Some (s', 0)"
      "meta_inv s' (insert_tree (hash_of s') n t) fs'"
      "set (ids (insert_tree (hash_of s') n t)) = insert n (set (ids t))"
      "created e s1 f n lname mode rdev s'" "alloced_nb s' = alloced_nb s1"
      "\<forall>j. j \<noteq> n \<longrightarrow> j \<noteq> f \<longrightarrow> hstrip (entry s' j) = hstrip (entry s1 j)"
    using make_tail_ok [OF s1(2,4,3) f(1)] by blast
  have eq: "entry s1 f = entry s f" using s1(6) fv(1) by (simp add: valid_def)
  from s'(4) have cr: "created e s f n lname mode rdev s'"
    by (simp only: created_def child_hash_def eq)
  have "hstrip (entry s' f) = hstrip ((entry s1 f)\<lparr>md_child := n\<rparr>)"
    using s'(4) by (simp only: created_def)
  from hstrip_eqD(3,4) [OF this] have ff: "md_father (entry s' f) = md_father (entry s1 f)"
      "md_d_name (entry s' f) = md_d_name (entry s1 f)"
    by simp_all
  have nr: "n \<noteq> id_root" using s1(2,3) by (auto simp: meta_inv_def)
  have "bucket_table (hash_of s') (buckets t)"
  proof (rule bucket_table_agree)
    show "bucket_table (hash_of s1) (buckets t)" using s1(2) by (simp add: meta_inv_def)
    have "hash_of s' j = hash_of s1 j" if "j \<noteq> n" for j
    proof (cases "j = f")
      case True
      with s'(4) hstrip_eqD(2) [of "entry s' f" "(entry s1 f)\<lparr>md_child := n\<rparr>"] show ?thesis
        by (simp add: created_def)
    next
      case False
      with s'(6) that hstrip_eqD(2) show ?thesis by blast
    qed
    then show "\<forall>i\<in>set (ids t). hash_of s' i = hash_of s1 i" using s1(3) by (metis UnI1)
  qed
  then have b: "buckets (insert_tree (hash_of s') n t) = put_bucket (hash_of s') n (buckets t)"
    by (rule buckets_insert_tree)
  have "names_of s' f ns" if "names_of s f ns" for ns
  proof (rule names_of_keep)
    show "names_of s1 f ns"
      by (rule names_of_keep [OF that]) (use s1(6,7) in \<open>auto simp: valid_def\<close>)
    fix j assume "valid s1 j" "j = id_root \<or> md_father (entry s1 j) \<noteq> 0"
    then have "j \<noteq> n" using nr blankD(3) [OF s1(5)] by auto
    then have "j \<noteq> f \<Longrightarrow> hstrip (entry s' j) = hstrip (entry s1 j)" using s'(6) by blast
    with ff \<open>valid s1 j\<close> s'(5) show "valid s' j \<and> md_father (entry s' j) = md_father (entry s1 j) \<and>
      md_d_name (entry s' j) = md_d_name (entry s1 j)"
      using hstrip_eqD(3,4) [of "entry s' j" "entry s1 j"] by (cases "j = f") (simp_all add: valid_def)
  qed
  with s1(1,3,6,7) s' cr b make_entry_split [OF find fv f(2)] show ?thesis
    by (intro exI [of _ s'] exI [of _ n] exI [of _ "insert_tree (hash_of s') n t"] exI [of _ fs'])
      (auto simp: created_def Let_def)
qed

section \<open>Finding an entry by its path\<close>

lemma get_put_bucket:
  "bucket_table h bs \<Longrightarrow> get_bucket h (h x) (put_bucket h x bs) = get_bucket h (h x) bs @ [x]"
proof (induction bs)
  case (Cons b bs)
  then show ?case by (auto intro!: get_bucket_none)
qed simp

lemma get_bucket_ids: "set (get_bucket h v (buckets t)) \<subseteq> set (ids t)"
proof -
  have "set (get_bucket h v bs) \<subseteq> set (concat bs)" for bs
    by (induction bs) auto
  then show ?thesis by (simp add: ids_def)
qed

lemma get_bucket_hash:
  "bucket_table h bs \<Longrightarrow> j \<in> set (concat bs) \<Longrightarrow> h j = v \<Longrightarrow> j \<in> set (get_bucket h v bs)"
proof (induction bs)
  case (Cons b bs)
  show ?case
  proof (cases "j \<in> set b")
    case True
    then have "h (hd b) = v" using Cons.prems by auto
    with True show ?thesis by simp
  next
    case False
    then have j: "j \<in> set (concat bs)" using Cons.prems(2) by simp
    then obtain b' where b': "b' \<in> set bs" "j \<in> set b'" by auto
    then have "h (hd b') = v" using Cons.prems(1,3) by (auto simp: bucket_table_def)
    then have "h (hd b) \<noteq> v" using Cons.prems(1) b'(1) by auto
    with Cons j show ?thesis by simp
  qed
qed simp

lemma first_equal_hit:
  "i \<in> set is \<Longrightarrow> mcachefs_metadata_equals s i path sz = Some True \<Longrightarrow>
   \<forall>j\<in>set is. j \<noteq> i \<longrightarrow> mcachefs_metadata_equals s j path sz = Some False \<Longrightarrow>
   first_equal s path sz is = Some i"
proof (induction "is")
  case (Cons j "is")
  then show ?case by (cases "j = i") auto
qed simp

lemma find_locked_hit:
  assumes "meta_inv s t fs" "i \<in> set (ids t)" "names_of s i ns" "ns \<noteq> []" "length ns < MAX_LEVELS"
    and "path = join_path ns" "path \<noteq> ''/''" "hash_of s i = doHash path"
    and "\<forall>j\<in>set (ids t). j \<noteq> i \<longrightarrow> hash_of s j = doHash path \<longrightarrow>
      mcachefs_metadata_equals s j path (int (length path)) = Some False"
  shows "mcachefs_metadata_find_locked e s path = Some (s, i)"
proof -
  let ?b = "get_bucket (hash_of s) (doHash path) (buckets t)"
  have t: "table s t" "bucket_table (hash_of s) (buckets t)" using assms(1) by (simp_all add: meta_inv_def)
  have "first_equal s path (int (length path)) ?b = Some i"
  proof (rule first_equal_hit)
    show "i \<in> set ?b" using get_bucket_hash [OF t(2)] assms(2,8) by (simp add: ids_def)
    show "mcachefs_metadata_equals s i path (int (length path)) = Some True"
      by (rule equals_complete) (use assms in auto)
    have "hash_of s j = doHash path" if "j \<in> set ?b" for j
    proof -
      have "\<forall>j\<in>set (get_bucket h v bs). h j = v" if "bucket_table h bs" for h and v :: hash_t and bs
        using that by (induction bs) auto
      with t(2) that show ?thesis by blast
    qed
    then show "\<forall>j\<in>set ?b. j \<noteq> i \<longrightarrow> mcachefs_metadata_equals s j path (int (length path)) = Some False"
      using assms(9) get_bucket_ids [of "hash_of s" "doHash path" t] by blast
  qed
  moreover have "i \<noteq> 0" using table_ids [OF t(1) assms(2)] valid_nz by blast
  ultimately show ?thesis
    using find_hash_ok [OF t] assms(7) by (simp add: mcachefs_metadata_find_locked_def)
qed

lemma split_join_path:
  assumes "CHR ''/'' \<notin> set n"
  shows "mcachefs_split_path (join_path (ns @ [n])) = Some (if ns = [] then ''/'' else join_path ns, n)"
proof -
  have "join_path ns = [] \<longleftrightarrow> ns = []" by (cases ns) simp_all
  then show ?thesis using split_path_slash [OF assms, of "join_path ns"] by (simp add: join_path_append)
qed

lemma make_entry_found_lemma:
  assumes inv: "meta_inv s t fs"
    and find: "mcachefs_metadata_find_locked e s (join_path (ns @ [lname])) = Some (s, 0)"
      "mcachefs_metadata_find_locked e s (if ns = [] then ''/'' else join_path ns) = Some (s, f)"
    and f: "f \<in> set (ids t)" "md_child (entry s f) \<noteq> 0" "names_of s f ns"
      "hash_of s f = doHash (if ns = [] then ''/'' else join_path ns)"
    and name: "CHR ''/'' \<notin> set lname" "lname \<noteq> []" "length lname \<le> NAME_MAX" "length ns + 1 < MAX_LEVELS"
    and new: "\<forall>i\<in>set (ids t). hash_of s i \<noteq> doHash (join_path (ns @ [lname]))"
    and space: "ENTRY_SIZE * (alloced_nb s + BLOCK_ENTRY_COUNT) \<le> 2 ^ 63"
  shows "\<exists>s' n t' fs'. mcachefs_metadata_make_entry e s (join_path (ns @ [lname])) mode rdev = Some (s', 0) \<and>
    meta_inv s' t' fs' \<and> set (ids t') = insert n (set (ids t)) \<and> n \<notin> set (ids t) \<and>
    created e s f n lname mode rdev s' \<and>
    mcachefs_metadata_find_locked e s' (join_path (ns @ [lname])) = Some (s', n)"
proof -
  let ?p = "join_path (ns @ [lname])"
  obtain s' n t' fs' where s': "mcachefs_metadata_make_entry e s ?p mode rdev = Some (s', 0)"
      "meta_inv s' t' fs'" "n \<notin> set (ids t)" "set (ids t') = insert n (set (ids t))"
      "created e s f n lname mode rdev s'" "md_father (entry s' n) = f"
      "\<forall>j<alloced_nb s. j \<noteq> n \<longrightarrow> j \<noteq> f \<longrightarrow> hstrip (entry s' j) = hstrip (entry s j)"
      "names_of s' f ns"
    using make_entry_ok [OF inv find(1) split_join_path [OF name(1)] find(2) f(1,2) space] f(3) by blast
  have nd: "md_d_name (entry s' n) = lname" "hash_of s' n = doHash ?p"
    using s'(5) name(3) child_hash_path [OF f(3,4), of lname] by (simp_all add: created_def Let_def)
  have "valid s f" using inv f(1) table_ids [of s t f] by (simp add: meta_inv_def)
  then have nv: "valid s' n" "f \<noteq> 0"
    using s'(2,4) table_ids [of s' t' n] by (simp_all add: meta_inv_def)
  from names_of.below [OF nv(1) s'(6) nv(2) s'(8)] have names: "names_of s' n (ns @ [lname])"
    by (simp add: nd(1))
  have "hash_of s' j \<noteq> doHash ?p" if j: "j \<in> set (ids t)" for j
  proof (cases "j = f")
    case True
    have "hstrip (entry s' f) = hstrip ((entry s f)\<lparr>md_child := n\<rparr>)" using s'(5) by (simp only: created_def)
    from hstrip_eqD(2) [OF this] True new j show ?thesis by simp
  next
    case False
    have "j < alloced_nb s" using inv j table_ids [of s t j] by (auto simp: meta_inv_def valid_def)
    moreover have "j \<noteq> n" using j s'(3) by auto
    ultimately have "hstrip (entry s' j) = hstrip (entry s j)" using s'(7) False by blast
    from hstrip_eqD(2) [OF this] new j show ?thesis by simp
  qed
  then have other: "\<forall>j\<in>set (ids t'). j \<noteq> n \<longrightarrow> hash_of s' j = doHash ?p \<longrightarrow>
      mcachefs_metadata_equals s' j ?p (int (length ?p)) = Some False"
    using s'(4) by blast
  have "?p \<noteq> ''/''" using name(2) by (cases ns) (auto simp: join_path_append)
  then have "mcachefs_metadata_find_locked e s' ?p = Some (s', n)"
    by (intro find_locked_hit [OF s'(2) _ names _ _ _ _ nd(2) other])
      (use s'(4) name(4) in auto)
  with s' show ?thesis by blast
qed

end
