(* ===== verification/Meta_Exec.thy ===== *)
theory Meta_Exec
  imports Meta_Make
begin

text \<open>
  Running the model inside the logic: the bundles of equations that evaluate the operations
  of the metafile on a concrete store, and the small file systems that the witnesses and the
  scenarios use.
\<close>

section \<open>Equations for evaluation\<close>

lemmas exec_words = doHash_foldl hash_byte_mult continueHash_foldl doHashPartial_def
  continueHashPartial_def

lemmas exec_store = ld_def upd_def mcachefs_metadata_do_get_def valid_def id_EMPTY_def id_root_def
  BLOCK_ENTRY_COUNT_def ENTRY_SIZE_def zero_metadata_def zero_stat_def formatted_def mode_defs
  NAME_MAX_def strncmp_eq_take MAX_LEVELS_def

lemmas exec_hash = mcachefs_metadata_insert_hash_def mcachefs_metadata_do_insert_hash_def
  mcachefs_metadata_cleanup_hash_def insert_hash_loop.simps mcachefs_metadata_repair_hash.simps
  mcachefs_metadata_uncle_def mcachefs_metadata_brother_def repair_hash_case4_def
  mcachefs_metadata_repair_hash_step4_2_def mcachefs_metadata_rotate_left_def
  mcachefs_metadata_rotate_right_def relink_up_def mcachefs_metadata_find_hash_def
  find_hash_loop.simps mcachefs_metadata_equals_def namestack_loop.simps

lemmas exec_remove = mcachefs_metadata_remove_hash_def mcachefs_metadata_do_remove_hash.simps
  mcachefs_metadata_check_no_self_reference_def mcachefs_metadata_find_replacer_def
  mcachefs_metadata_find_successor.simps remove_leaf_def remove_single_def
  mcachefs_metadata_hash_swap.simps hash_swap_body_def is_left_child_def
  mcachefs_metadata_hash_swap_restore_def mcachefs_metadata_fix_double_black.simps red_child_def
  fix_red_nephew_def mcachefs_metadata_do_remove_hash_collision_def collision_take_place_def

lemmas exec_dir = mcachefs_metadata_find_locked_def semi_lookup.simps
  mcachefs_metadata_walk_down.simps mcachefs_metadata_get_child_def
  mcachefs_metadata_recurse_open.simps walk_children.simps mcachefs_metadata_build_hash_def
  mcachefs_metadata_link_entry_def mcachefs_metadata_make_entry_def mcachefs_split_path_def
  mcachefs_metadata_allocate_def mcachefs_metadata_add_child_ids_def mcachefs_metadata_do_add_child_def
  mcachefs_metadata_rmdir_unlink_def mcachefs_metadata_unlink_entry_def unlink_loop.simps
  mcachefs_metadata_remove_def

lemmas exec = exec_words exec_store exec_hash exec_remove exec_dir

section \<open>Sample file systems\<close>

definition blank_process :: mstate where
  "blank_process = \<lparr>entry = (\<lambda>_. zero_metadata), alloced_nb = 0, first_free = 0, hash_root = 0,
     files = Map.empty, timeslices = (\<lambda>_. 0), timeslice_current = 0\<rparr>"

text \<open>A source whose directories are empty, except those of the list.\<close>

definition source_of :: "(string list \<times> (string \<times> stat option) list) list \<Rightarrow> env" where
  "source_of ds = \<lparr>env_readdir = (\<lambda>ns. case map_of ds ns of Some d \<Rightarrow> Some d | None \<Rightarrow> Some []),
     env_read_state = StateNormal, env_uid = 0, env_gid = 0, env_getuid = 0, env_getgid = 0,
     env_now = 5, env_mountpoint = ''/m''\<rparr>"

definition dir_stat :: stat where
  "dir_stat = zero_stat\<lparr>st_mode := 0x41C0, st_nlink := 1\<rparr>"

definition reg_stat :: stat where
  "reg_stat = zero_stat\<lparr>st_mode := 0x8180, st_nlink := 1\<rparr>"

text \<open>The metafile right after formatting.\<close>

definition fresh_process :: mstate where
  "fresh_process = formatted (blank_process\<lparr>alloced_nb := BLOCK_ENTRY_COUNT, first_free := 2,
     hash_root := 1, entry := (entry blank_process)(1 := zero_metadata\<lparr>md_id := 1,
       md_d_name := ''/'', md_hash := doHash ''/'', md_st := dir_stat\<rparr>)\<rparr>) 2 BLOCK_ENTRY_COUNT"

text \<open>The same, once the root has been read from an empty source.\<close>

definition empty_process :: mstate where
  "empty_process = with_entry fresh_process 1 (zero_metadata\<lparr>md_id := 1, md_d_name := ''/'',
     md_hash := doHash ''/'', md_st := dir_stat, md_child := id_EMPTY\<rparr>)"

abbreviation root_tree :: htree where
  "root_tree \<equiv> Node Leaf (id_root, BLACK, []) Leaf"

lemmas exec_sample = fresh_process_def empty_process_def with_entry_def blank_process_def
  source_of_def dir_stat_def reg_stat_def

lemma fresh_process_format:
  "mcachefs_metadata_format blank_process (Some dir_stat) = Some fresh_process"
  by (simp add: format_exec fresh_process_def)

lemma fresh_process_inv: "meta_inv fresh_process root_tree [2..<BLOCK_ENTRY_COUNT]"
  using format_inv [of blank_process dir_stat] by (auto simp: fresh_process_format)

lemma empty_process_inv: "meta_inv empty_process root_tree [2..<BLOCK_ENTRY_COUNT]"
proof (rule meta_inv_keep [OF fresh_process_inv])
  have "entry fresh_process 1 = zero_metadata\<lparr>md_id := 1, md_d_name := ''/'', md_hash := doHash ''/'',
      md_st := dir_stat\<rparr>"
    by (simp add: fresh_process_def formatted_def)
  then show "\<forall>j\<in>set (ids root_tree). hview (entry empty_process j) = hview (entry fresh_process j) \<and>
      hash_of empty_process j = hash_of fresh_process j"
    by (simp add: empty_process_def id_root_def hview_def)
qed (simp_all add: empty_process_def)

lemma empty_process_root: "names_of empty_process id_root []"
  by (rule names_of.root) (simp_all add: exec_sample exec_store)

end
