(* ===== verification/Props_Metadata.thy ===== *)
theory Props_Metadata
  imports Meta_Exec
begin

text \<open>
  The properties of the metafile: insertion and lookup in the hash tree, allocation, and
  creation of entries; and the scenarios in which the code loses or misses entries.
\<close>

section \<open>The hash tree\<close>

text \<open>C1: Inserting an allocated entry never faults; the pointers then represent a red-black
  tree whose buckets are those before with the entry added to the bucket of its hash, and no
  field of any entry outside the tree links changes.\<close>

theorem insert_hash_refines:
  assumes "table s t" "rb t" "t \<noteq> Leaf" "bucket_table (hash_of s) (buckets t)" "fresh s n t"
  shows "\<exists>s' t'. mcachefs_metadata_insert_hash s n = Some s' \<and> table s' t' \<and> rb t' \<and>
    buckets t' = put_bucket (hash_of s) n (buckets t) \<and>
    bucket_table (hash_of s') (buckets t') \<and>
    (\<forall>i. hstrip (entry s' i) = hstrip (entry s i)) \<and>
    (\<forall>i. i \<notin> insert n (set (ids t)) \<longrightarrow> entry s' i = entry s i)"
proof -
  let ?t = "insert_tree (hash_of s) n t"
  obtain s' where s': "mcachefs_metadata_insert_hash s n = Some s'" "table s' ?t"
      "hash_only (insert n (set (ids t))) s s'"
    using insert_hash_ok [OF assms] by blast
  have b: "buckets ?t = put_bucket (hash_of s) n (buckets t)" by (rule buckets_insert_tree [OF assms(4)])
  have "bucket_table (hash_of s') (buckets ?t)"
    unfolding b hash_only_hash [OF s'(3)] by (rule put_bucket_table [OF assms(4)])
  with s' b rb_insert_tree [OF assms(2)] show ?thesis
    by (intro exI [of _ s'] exI [of _ ?t]) (simp add: hash_only_def)
qed

lemma insert_hash_refines_witness:
  "\<exists>s' t'. mcachefs_metadata_insert_hash empty_process 2 = Some s' \<and> table s' t' \<and> rb t' \<and>
    buckets t' = put_bucket (hash_of empty_process) 2 (buckets root_tree) \<and>
    bucket_table (hash_of s') (buckets t') \<and>
    (\<forall>i. hstrip (entry s' i) = hstrip (entry empty_process i)) \<and>
    (\<forall>i. i \<notin> insert 2 (set (ids root_tree)) \<longrightarrow> entry s' i = entry empty_process i)"
proof (rule insert_hash_refines)
  show "table empty_process root_tree" "rb root_tree" "root_tree \<noteq> Leaf"
    "bucket_table (hash_of empty_process) (buckets root_tree)"
    using empty_process_inv by (simp_all add: meta_inv_def)
  show "fresh empty_process 2 root_tree"
    by (simp add: fresh_def exec_sample exec_store)
qed

text \<open>C2: The search of the hash tree returns, for any path and hash, what comparing the
  entries of the bucket of that hash in order returns: the first equal one, 0 if there is none,
  a fault only if a comparison faults.\<close>

theorem find_hash_first_equal:
  assumes "table s t" "bucket_table (hash_of s) (buckets t)"
  shows "mcachefs_metadata_find_hash s path v sz =
    first_equal s path sz (get_bucket (hash_of s) v (buckets t))"
  by (rule find_hash_ok [OF assms])

lemma find_hash_first_equal_witness:
  "mcachefs_metadata_find_hash empty_process ''/'' (doHash ''/'') 1 =
    first_equal empty_process ''/'' 1 (get_bucket (hash_of empty_process) (doHash ''/'') (buckets root_tree))"
  by (rule find_hash_first_equal) (use empty_process_inv in \<open>simp_all add: meta_inv_def\<close>)



section \<open>Comparing paths\<close>

text \<open>C4: When comparing a whole path with an entry below the root answers, the answer says
  whether the path is the entry's path (the first character, a slash, is not looked at).\<close>

theorem equals_decides:
  assumes "names_of s i ns" "ns \<noteq> []" "length ns < MAX_LEVELS" "path \<noteq> ''/''"
    and "mcachefs_metadata_equals s i path (int (length path)) = Some b"
  shows "b \<longleftrightarrow> tl path = tl (join_path ns)"
  by (rule equals_sound [OF assms])

text \<open>A store with the single entry \<open>/a\<close>.\<close>

definition process_a :: mstate where
  "process_a = with_entry empty_process 2 (zero_metadata\<lparr>md_id := 2, md_d_name := ''a'',
     md_father := 1, md_hash := doHash ''/a'', md_st := reg_stat\<rparr>)"

lemma process_a_names: "names_of process_a 2 [''a'']"
proof -
  have "names_of process_a id_root []"
    by (rule names_of.root) (simp_all add: process_a_def exec_sample exec_store)
  then have "names_of process_a 2 ([] @ [md_d_name (entry process_a 2)])"
    by (intro names_of.below [where f = id_root])
      (simp_all add: process_a_def exec_sample exec_store)
  then show ?thesis by (simp add: process_a_def)
qed

lemma equals_decides_witness:
  "mcachefs_metadata_equals process_a 2 ''/a'' 2 = Some True \<and>
    (True \<longleftrightarrow> tl ''/a'' = tl (join_path [''a'']))"
proof -
  have "mcachefs_metadata_equals process_a 2 ''/a'' (int (length ''/a'')) = Some True"
    by (simp add: process_a_def exec_sample exec)
  from equals_decides [OF process_a_names _ _ _ this] this show ?thesis
    by (simp add: MAX_LEVELS_def)
qed

text \<open>C5: Comparing faults whenever the path goes on after the whole path of the entry, be it
  with a longer name or with the name of a child: a lookup that meets such an entry in its
  bucket crashes the file system.\<close>

theorem equals_crashes_on_extension:
  assumes "names_of s i ns" "ns \<noteq> []" "length ns < MAX_LEVELS" "path = join_path ns @ c # cs"
  shows "mcachefs_metadata_equals s i path (int (length path)) = Bug"
  by (rule equals_fault [OF assms])

lemma equals_crashes_on_extension_witness:
  "mcachefs_metadata_equals process_a 2 ''/apqrdbfe'' 9 = Bug"
  using equals_crashes_on_extension [OF process_a_names, of "''/apqrdbfe''" "CHR ''p''" "''qrdbfe''"]
  by (simp add: MAX_LEVELS_def)

section \<open>Allocation\<close>

text \<open>C6: Formatting a metafile establishes the invariant: a hash tree that holds the root and a
  list of all the other entries, blank and free.\<close>

theorem format_establishes_invariant:
  "\<exists>s'. mcachefs_metadata_format s (Some st) = Some s' \<and>
     meta_inv s' (Node Leaf (id_root, BLACK, []) Leaf) [2..<BLOCK_ENTRY_COUNT] \<and>
     md_d_name (entry s' id_root) = ''/'' \<and> md_st (entry s' id_root) = st \<and>
     hash_of s' id_root = doHash ''/''"
  using format_inv [of s st] by (auto simp: zero_metadata_def)

text \<open>C7: Allocation returns the first free entry, or, when none is free, the first of a new block by
  which the metafile grows (as long as its size is a file offset).  The entry is blank, in no tree
  and not free any more; the free list loses just this entry; every other entry and the invariant
  are kept, and the metafile grows only when no entry was free.\<close>

theorem allocate_fresh:
  assumes "meta_inv s t fs" "ENTRY_SIZE * (alloced_nb s + BLOCK_ENTRY_COUNT) \<le> 2 ^ 63"
    and "i = (case fs of [] \<Rightarrow> alloced_nb s | j # js \<Rightarrow> j)"
    and "fs' = (case fs of [] \<Rightarrow> [i + 1..<i + BLOCK_ENTRY_COUNT] | j # js \<Rightarrow> js)"
  shows "\<exists>s'. mcachefs_metadata_allocate s = Some (s', i) \<and> meta_inv s' t fs' \<and>
    i \<notin> set (ids t) \<union> set fs' \<and> valid s' i \<and> blank i (entry s' i) \<and>
    (\<forall>j<alloced_nb s. entry s' j = entry s j) \<and>
    alloced_nb s' = (if fs = [] then alloced_nb s + BLOCK_ENTRY_COUNT else alloced_nb s)"
proof -
  have "i = next_entry s fs" "fs' = entries_left s fs"
    using assms(3,4) by (simp_all add: next_entry_def entries_left_def split: list.splits)
  with allocate_inv_exact [OF assms(1,2)] show ?thesis by simp
qed

text \<open>A metafile whose first block is used up.\<close>

definition full_process :: mstate where
  "full_process = empty_process\<lparr>first_free := 0\<rparr>"

lemma full_process_inv: "meta_inv full_process root_tree []"
proof -
  have e: "meta_inv empty_process root_tree [2..<BLOCK_ENTRY_COUNT]" by (rule empty_process_inv)
  then have "table full_process root_tree"
    by (auto simp: meta_inv_def full_process_def intro: table_hview)
  with e show ?thesis by (auto simp: meta_inv_def full_process_def free_list_def)
qed

lemma allocate_fresh_witness:
  "\<exists>s'. mcachefs_metadata_allocate full_process = Some (s', BLOCK_ENTRY_COUNT) \<and>
    meta_inv s' root_tree [BLOCK_ENTRY_COUNT + 1..<BLOCK_ENTRY_COUNT + BLOCK_ENTRY_COUNT] \<and>
    blank BLOCK_ENTRY_COUNT (entry s' BLOCK_ENTRY_COUNT) \<and> alloced_nb s' = BLOCK_ENTRY_COUNT + BLOCK_ENTRY_COUNT"
proof -
  have a: "alloced_nb full_process = BLOCK_ENTRY_COUNT" by (simp add: full_process_def exec_sample exec_store)
  then have "ENTRY_SIZE * (alloced_nb full_process + BLOCK_ENTRY_COUNT) \<le> 2 ^ 63" by (simp add: exec_store)
  from allocate_fresh [OF full_process_inv this refl refl] show ?thesis using a by auto
qed

text \<open>C8: A removed entry is blank, first in the free list, and the next one to be allocated.\<close>

theorem remove_then_allocate:
  assumes "valid s i" "md_id (entry s i) = i" "md_fh (entry s i) = 0"
    and "free_list s fs" "i \<notin> set fs"
  shows "\<exists>s' s''. mcachefs_metadata_remove s i = Some s' \<and> free_list s' (i # fs) \<and>
    blank i (entry s' i) \<and> mcachefs_metadata_allocate s' = Some (s'', i) \<and> free_list s'' fs"
proof -
  obtain s' where s': "mcachefs_metadata_remove s i = Some s'" "free_list s' (i # fs)"
    using remove_free_list [OF assms(1,2) _ assms(4,5)] assms(3) by auto
  moreover from s'(2) have "blank i (entry s' i)" by (auto simp: free_list_def)
  ultimately show ?thesis using allocate_free [OF s'(2)] by blast
qed

lemma remove_then_allocate_witness:
  "\<exists>s' s''. mcachefs_metadata_remove empty_process 1 = Some s' \<and>
    free_list s' (1 # [2..<BLOCK_ENTRY_COUNT]) \<and> blank 1 (entry s' 1) \<and>
    mcachefs_metadata_allocate s' = Some (s'', 1) \<and> free_list s'' [2..<BLOCK_ENTRY_COUNT]"
proof (rule remove_then_allocate)
  show "free_list empty_process [2..<BLOCK_ENTRY_COUNT]"
    using empty_process_inv by (simp add: meta_inv_def)
qed (simp_all add: exec_sample exec_store)

section \<open>Creating and finding entries\<close>

text \<open>C9: Creating a new name in a directory that has been read succeeds: the entry gets the
  name, the mode, the owner and the time, it becomes the first child of its father, the
  invariant is kept, and looking the path up finds the entry, if no entry has the same hash.\<close>

theorem make_entry_found:
  assumes "meta_inv s t fs"
    and "mcachefs_metadata_find_locked e s (join_path (ns @ [lname])) = Some (s, 0)"
    and "mcachefs_metadata_find_locked e s (if ns = [] then ''/'' else join_path ns) = Some (s, f)"
    and "f \<in> set (ids t)" "md_child (entry s f) \<noteq> 0" "names_of s f ns"
    and "hash_of s f = doHash (if ns = [] then ''/'' else join_path ns)"
    and "CHR ''/'' \<notin> set lname" "lname \<noteq> []" "length lname \<le> NAME_MAX" "length ns + 1 < MAX_LEVELS"
    and "\<forall>i\<in>set (ids t). hash_of s i \<noteq> doHash (join_path (ns @ [lname]))"
    and "ENTRY_SIZE * (alloced_nb s + BLOCK_ENTRY_COUNT) \<le> 2 ^ 63"
  shows "\<exists>s' n t' fs'. mcachefs_metadata_make_entry e s (join_path (ns @ [lname])) mode rdev = Some (s', 0) \<and>
    meta_inv s' t' fs' \<and> set (ids t') = insert n (set (ids t)) \<and> n \<notin> set (ids t) \<and>
    created e s f n lname mode rdev s' \<and>
    mcachefs_metadata_find_locked e s' (join_path (ns @ [lname])) = Some (s', n)"
  by (rule make_entry_found_lemma [OF assms])

lemma make_entry_found_witness:
  "\<exists>s' n t' fs'. mcachefs_metadata_make_entry (source_of []) empty_process ''/a'' 0x8180 0 = Some (s', 0) \<and>
    meta_inv s' t' fs' \<and> set (ids t') = insert n (set (ids root_tree)) \<and> n \<notin> set (ids root_tree) \<and>
    created (source_of []) empty_process id_root n ''a'' 0x8180 0 s' \<and>
    mcachefs_metadata_find_locked (source_of []) s' ''/a'' = Some (s', n)"
proof -
  have p: "''/a'' = join_path ([] @ [''a''])" by simp
  show ?thesis unfolding p
    by (rule make_entry_found [OF empty_process_inv _ _ _ _ empty_process_root])
      (simp_all add: exec_sample exec cong: bind_weak_cong)
qed

end
