(* ===== verification/Props_Scenarios.thy ===== *)
theory Props_Scenarios
  imports Meta_Exec
begin

text \<open>
  Scenarios from formatting on, run inside the logic, in which the metafile loses entries,
  answers with the wrong entry, or faults; and the general form of the fault on the hash root.
\<close>

section \<open>Removing the hash root\<close>

text \<open>Removing from the hash tree an entry that is the root of that tree, has no collider and
  at most one child faults.\<close>

theorem remove_hash_root_faults:
  assumes "table s (Node l (i, c, []) r)" "l = Leaf \<or> r = Leaf"
  shows "mcachefs_metadata_remove_hash s i = Bug"
proof -
  have t: "tnode s 0 (i, c, []) (rid l) (rid r)" "shape s i l" "shape s i r" "hash_root s = i"
    using assms(1) by (auto simp: table_def)
  note d = tnodeD [OF t(1)]
  have g: "do_get s (rid l) = Some (rid l)" "do_get s (rid r) = Some (rid r)"
    using shape_valid_rid [OF t(2)] shape_valid_rid [OF t(3)]
    by (cases "l = Leaf"; cases "r = Leaf"; simp add: run_simps)+
  have v: "r \<noteq> Leaf \<Longrightarrow> valid s (rid r)" "l \<noteq> Leaf \<Longrightarrow> valid s (rid l)"
    using shape_valid_rid [OF t(2)] shape_valid_rid [OF t(3)] by simp_all
  have nz: "rid l = 0 \<longleftrightarrow> l = Leaf" "rid r = 0 \<longleftrightarrow> r = Leaf"
    using rid_Leaf [OF t(2)] rid_Leaf [OF t(3)] by simp_all
  have col: "md_collision_next (entry s i) = 0" "md_collision_previous (entry s i) = 0"
    using t(1) by (simp_all add: tnode_def)
  have "mcachefs_metadata_do_remove_hash s i = Bug"
  proof (cases "mcachefs_metadata_check_no_self_reference s i")
    case None
    then show ?thesis by (subst mcachefs_metadata_do_remove_hash.simps) simp
  next
    case (Some u)
    consider "l = Leaf" "r = Leaf" | "l = Leaf" "r \<noteq> Leaf" | "l \<noteq> Leaf" "r = Leaf"
      using assms(2) by blast
    then show ?thesis
      by cases (subst mcachefs_metadata_do_remove_hash.simps;
        simp add: Some d col nz g v t(4) run_simps mcachefs_metadata_find_replacer_def remove_single_def)+
  qed
  then show ?thesis by (simp add: mcachefs_metadata_remove_hash_def)
qed

lemma remove_hash_root_faults_witness:
  "mcachefs_metadata_remove_hash empty_process id_root = Bug"
  by (rule remove_hash_root_faults [where l = Leaf and c = BLACK and r = Leaf])
    (use empty_process_inv in \<open>simp_all add: meta_inv_def\<close>)

definition touch :: "mstate \<Rightarrow> string \<Rightarrow> mstate option" where
  "touch s path = do { (s, r) \<leftarrow> mcachefs_metadata_make_entry (source_of []) s path 0x8180 0; Some s }"

definition unlink_file :: "mstate \<Rightarrow> string \<Rightarrow> (mstate \<times> int) option" where
  "unlink_file s path = mcachefs_metadata_rmdir_unlink (source_of []) s path False"

definition lookup :: "mstate \<Rightarrow> string \<Rightarrow> mid option" where
  "lookup s path = do { (s, i) \<leftarrow> mcachefs_metadata_find_locked (source_of []) s path; Some i }"

text \<open>After creating /a and /b, removing /a crashes: its entry is the hash root, the swap with
  its successor leaves \<open>hash_root\<close> pointing to it, and as a leaf it is taken for the last one.\<close>

theorem unlink_hash_root_crashes:
  "do { s \<leftarrow> touch empty_process ''/a''; s \<leftarrow> touch s ''/b''; unlink_file s ''/a'' } = Bug"
  by (simp add: touch_def unlink_file_def exec_sample exec cong: bind_weak_cong)


section \<open>Lookups\<close>

text \<open>With /a created, looking up /apqrdbfe, which has the same hash, crashes.\<close>

theorem colliding_lookup_crashes:
  "doHash ''/apqrdbfe'' = doHash ''/a'' \<and>
   do { s \<leftarrow> touch empty_process ''/a''; lookup s ''/apqrdbfe'' } = Bug"
  by (simp_all add: touch_def lookup_def exec_sample exec cong: bind_weak_cong)




end
