(* ===== verification/File_Slices.thy ===== *)
theory File_Slices
  imports Meta_Store "HOL-Library.Signed_Division"
begin

text \<open>
  The timeslices of src/src/mcachefs-file-ts.c: the open files are on doubly linked lists, one
  for each second of a circular buffer of 1024, one for the garbage (files not used for the
  whole turn) and one for the structures to reuse.  Files are addressed by their handle; the
  file lock is held throughout.
\<close>

section \<open>Access to files and slices\<close>

definition ldf :: "mstate \<Rightarrow> fh \<Rightarrow> (mfile \<Rightarrow> 'a) \<Rightarrow> 'a option" where
  "ldf s f g = (if f = 0 then None else map_option g (files s f))"

definition updf :: "mstate \<Rightarrow> fh \<Rightarrow> (mfile \<Rightarrow> mfile) \<Rightarrow> mstate option" where
  "updf s f g = (if f = 0 then None else do {
     m \<leftarrow> files s f;
     Some (s\<lparr>files := (files s)(f \<mapsto> g m)\<rparr>)
   })"

definition timeslice_nb :: nat where "timeslice_nb = 1024"
definition timeslice_garbage :: nat where "timeslice_garbage = timeslice_nb"
definition timeslice_freed :: nat where "timeslice_freed = timeslice_nb + 1"

lemmas timeslice_consts = timeslice_nb_def timeslice_garbage_def timeslice_freed_def

text \<open>\<open>mcachefs_file_timeslices[i]\<close>, an array of \<open>timeslice_nb + 2\<close> places.\<close>

definition slice_get :: "mstate \<Rightarrow> int \<Rightarrow> fh option" where
  "slice_get s i = (if 0 \<le> i \<and> i < int (timeslice_nb + 2) then Some (timeslices s (nat i)) else Bug)"

definition slice_set :: "mstate \<Rightarrow> int \<Rightarrow> fh \<Rightarrow> mstate option" where
  "slice_set s i f = (if 0 \<le> i \<and> i < int (timeslice_nb + 2)
     then Some (s\<lparr>timeslices := (timeslices s)(nat i := f)\<rparr>) else Bug)"

section \<open>The code\<close>

definition mcachefs_file_timeslice_init_variables :: "mstate \<Rightarrow> mstate" where
  "mcachefs_file_timeslice_init_variables s = s\<lparr>timeslices := (\<lambda>_. 0)\<rparr>"

definition mcachefs_file_timeslice_insert_in_ts :: "mstate \<Rightarrow> fh \<Rightarrow> nat \<Rightarrow> mstate option" where
  "mcachefs_file_timeslice_insert_in_ts s mfile timeslice = do {
     m \<leftarrow> ldf s mfile (\<lambda>m. m);
     if mf_timeslice m \<noteq> -1 \<or> mf_ts_previous m \<noteq> 0 \<or> mf_ts_next m \<noteq> 0 then Bug
     else do {
       s \<leftarrow> updf s mfile (\<lambda>m. m\<lparr>mf_timeslice := int timeslice\<rparr>);
       head \<leftarrow> slice_get s (int timeslice);
       s \<leftarrow> (if head \<noteq> 0 then updf s head (\<lambda>m. m\<lparr>mf_ts_previous := mfile\<rparr>) else Some s);
       s \<leftarrow> updf s mfile (\<lambda>m. m\<lparr>mf_ts_next := head\<rparr>);
       s \<leftarrow> slice_set s (int timeslice) mfile;
       if head = 0 then Some s
       else do {
         nn \<leftarrow> ldf s head mf_ts_next;
         if nn = 0 then Some s
         else do {
           p \<leftarrow> ldf s nn mf_ts_previous;
           if p \<noteq> head then Bug else Some s
         }
       }
     }
   }"

definition mcachefs_file_timeslice_insert :: "mstate \<Rightarrow> fh \<Rightarrow> mstate option" where
  "mcachefs_file_timeslice_insert s mfile =
     mcachefs_file_timeslice_insert_in_ts s mfile (timeslice_current s)"

definition mcachefs_file_timeslice_insert_in_freed :: "mstate \<Rightarrow> fh \<Rightarrow> mstate option" where
  "mcachefs_file_timeslice_insert_in_freed s mfile =
     mcachefs_file_timeslice_insert_in_ts s mfile timeslice_freed"

definition mcachefs_file_timeslice_remove :: "mstate \<Rightarrow> fh \<Rightarrow> mstate option" where
  "mcachefs_file_timeslice_remove s mfile = do {
     m \<leftarrow> ldf s mfile (\<lambda>m. m);
     let p = mf_ts_previous m; n = mf_ts_next m; ts = mf_timeslice m in do {
       s \<leftarrow> (if p = 0 then do {
               head \<leftarrow> slice_get s ts;
               if head \<noteq> mfile then Bug else slice_set s ts n
             } else do {
               pn \<leftarrow> ldf s p mf_ts_next;
               if pn \<noteq> mfile then Bug else updf s p (\<lambda>m. m\<lparr>mf_ts_next := n\<rparr>)
             });
       s \<leftarrow> (if n \<noteq> 0 then do {
               np \<leftarrow> ldf s n mf_ts_previous;
               if np \<noteq> mfile then Bug
               else updf s n (\<lambda>m. m\<lparr>mf_timeslice := ts, mf_ts_previous := p\<rparr>)
             } else Some s);
       s \<leftarrow> (if p \<noteq> 0 \<and> n \<noteq> 0 then do {
               a \<leftarrow> ldf s p mf_ts_next;
               ap \<leftarrow> ldf s a mf_ts_previous;
               if ap \<noteq> p then Bug
               else do {
                 b \<leftarrow> ldf s n mf_ts_previous;
                 bn \<leftarrow> ldf s b mf_ts_next;
                 if bn \<noteq> n then Bug else Some s
               }
             } else Some s);
       updf s mfile (\<lambda>m. m\<lparr>mf_ts_previous := 0, mf_ts_next := 0, mf_timeslice := -1\<rparr>)
     }
   }"

definition mcachefs_file_timeslice_get_freed :: "mstate \<Rightarrow> (mstate \<times> fh) option" where
  "mcachefs_file_timeslice_get_freed s = do {
     mfile \<leftarrow> slice_get s (int timeslice_freed);
     s \<leftarrow> (if mfile \<noteq> 0 then mcachefs_file_timeslice_remove s mfile else Some s);
     Some (s, mfile)
   }"

definition mcachefs_file_timeslice_do_freshen :: "mstate \<Rightarrow> fh \<Rightarrow> mstate option" where
  "mcachefs_file_timeslice_do_freshen s mfile = do {
     s \<leftarrow> mcachefs_file_timeslice_remove s mfile;
     s \<leftarrow> updf s mfile (\<lambda>m. m\<lparr>mf_timeslice := -1, mf_ts_previous := 0, mf_ts_next := 0\<rparr>);
     mcachefs_file_timeslice_insert s mfile
   }"

definition mcachefs_file_timeslice_freshen :: "mstate \<Rightarrow> fh \<Rightarrow> mstate option" where
  "mcachefs_file_timeslice_freshen s mfile = do {
     ts \<leftarrow> ldf s mfile mf_timeslice;
     if ts = int (timeslice_current s) then Some s
     else mcachefs_file_timeslice_do_freshen s mfile
   }"

text \<open>
  The loop over a list takes the next file before it acts on one.  The action works on any
  state that holds the lists (\<open>ms\<close>): some also close descriptors.
\<close>

partial_function (option) cleanup_loop ::
  "('s \<Rightarrow> mstate) \<Rightarrow> ('s \<Rightarrow> fh \<Rightarrow> 's option) \<Rightarrow> 's \<Rightarrow> fh \<Rightarrow> 's option" where
  "cleanup_loop ms action s mfile =
     (if mfile = 0 then Some s
      else do {
        mnext \<leftarrow> ldf (ms s) mfile mf_ts_next;
        s \<leftarrow> action s mfile;
        cleanup_loop ms action s mnext
      })"

declare cleanup_loop.simps [code]

text \<open>The slice of the given age; C's remainder keeps the sign of the dividend.\<close>

definition mcachefs_file_timeslice_cleanup_list ::
  "('s \<Rightarrow> mstate) \<Rightarrow> 's \<Rightarrow> int \<Rightarrow> ('s \<Rightarrow> fh \<Rightarrow> 's option) \<Rightarrow> 's option" where
  "mcachefs_file_timeslice_cleanup_list ms s age action = do {
     let ts_to_cleanup = (int (timeslice_current (ms s)) + int timeslice_nb - age) smod int timeslice_nb;
     head \<leftarrow> slice_get (ms s) ts_to_cleanup;
     cleanup_loop ms action s head
   }"

definition free_file :: "mstate \<Rightarrow> fh \<Rightarrow> mstate option" where
  "free_file s mfile = Some (s\<lparr>files := (files s)(mfile := None)\<rparr>)"

definition mcachefs_file_timeslice_cleanup_freed :: "mstate \<Rightarrow> mstate option" where
  "mcachefs_file_timeslice_cleanup_freed s = do {
     head \<leftarrow> slice_get s (int timeslice_freed);
     s \<leftarrow> cleanup_loop (\<lambda>s. s) free_file s head;
     slice_set s (int timeslice_freed) 0
   }"

partial_function (option) slice_tail :: "mstate \<Rightarrow> fh \<Rightarrow> fh option" where
  "slice_tail s mfile = do {
     n \<leftarrow> ldf s mfile mf_ts_next;
     if n = 0 then Some mfile else slice_tail s n
   }"

declare slice_tail.simps [code]

text \<open>The oldest slice goes in front of the garbage, and the current slice moves on.\<close>

definition mcachefs_file_timeslice_update :: "mstate \<Rightarrow> mstate option" where
  "mcachefs_file_timeslice_update s = do {
     let last_timeslice = (timeslice_current s + timeslice_nb + 1) mod timeslice_nb;
     head \<leftarrow> slice_get s (int last_timeslice);
     s \<leftarrow> (if head \<noteq> 0 then do {
             garbage \<leftarrow> slice_get s (int timeslice_garbage);
             s \<leftarrow> (if garbage \<noteq> 0 then do {
                     mfile \<leftarrow> slice_tail s head;
                     s \<leftarrow> updf s mfile (\<lambda>m. m\<lparr>mf_ts_next := garbage\<rparr>);
                     gp \<leftarrow> ldf s garbage mf_ts_previous;
                     if gp \<noteq> 0 then Bug
                     else updf s garbage (\<lambda>m. m\<lparr>mf_ts_previous := mfile\<rparr>)
                   } else Some s);
             s \<leftarrow> slice_set s (int timeslice_garbage) head;
             s \<leftarrow> slice_set s (int last_timeslice) 0;
             updf s head (\<lambda>m. m\<lparr>mf_timeslice := int timeslice_garbage\<rparr>)
           } else Some s);
     Some (s\<lparr>timeslice_current := (timeslice_current s + 1) mod timeslice_nb\<rparr>)
   }"

text \<open>The walk over all slices, as \<open>count_open\<close> and \<open>clear_metadata_id\<close> make it.\<close>

fun is_open_type :: "file_type \<Rightarrow> bool" where
  "is_open_type FileType = True"
| "is_open_type DirType = True"
| "is_open_type _ = False"

partial_function (option) count_loop :: "mstate \<Rightarrow> fh \<Rightarrow> nat \<Rightarrow> nat option" where
  "count_loop s f count =
     (if f = 0 then Some count
      else do {
        t \<leftarrow> ldf s f mf_type;
        n \<leftarrow> ldf s f mf_ts_next;
        count_loop s n (if is_open_type t then count + 1 else count)
      })"

declare count_loop.simps [code]

fun count_slices :: "mstate \<Rightarrow> nat list \<Rightarrow> nat \<Rightarrow> nat option" where
  "count_slices s [] count = Some count"
| "count_slices s (ts # tss) count = do {
     f \<leftarrow> slice_get s (int ts);
     count \<leftarrow> count_loop s f count;
     count_slices s tss count
   }"

definition mcachefs_file_timeslices_count_open :: "mstate \<Rightarrow> nat option" where
  "mcachefs_file_timeslices_count_open s = count_slices s [0..<timeslice_nb + 2] 0"

partial_function (option) clear_loop :: "mstate \<Rightarrow> fh \<Rightarrow> mstate option" where
  "clear_loop s f =
     (if f = 0 then Some s
      else do {
        t \<leftarrow> ldf s f mf_type;
        s \<leftarrow> (if is_open_type t then updf s f (\<lambda>m. m\<lparr>mf_metadata_id := 0\<rparr>) else Some s);
        n \<leftarrow> ldf s f mf_ts_next;
        clear_loop s n
      })"

declare clear_loop.simps [code]

fun clear_slices :: "mstate \<Rightarrow> nat list \<Rightarrow> mstate option" where
  "clear_slices s [] = Some s"
| "clear_slices s (ts # tss) = do {
     f \<leftarrow> slice_get s (int ts);
     s \<leftarrow> clear_loop s f;
     clear_slices s tss
   }"

definition mcachefs_file_timeslices_clear_metadata_id :: "mstate \<Rightarrow> mstate option" where
  "mcachefs_file_timeslices_clear_metadata_id s = clear_slices s [0..<timeslice_nb + 2]"

end
