(* ===== verification/Slices_Refine.thy ===== *)
theory Slices_Refine
  imports File_Slices
begin

text \<open>
  The timeslices represent lists of file handles: insertion conses, removal deletes, freshening
  moves a file to the front of the current slice, and the tick of the clock prepends the oldest
  slice to the garbage.  The interface \<open>slice_lists\<close> states what insertion and removal promise;
  the client operations are proved inside it, and it is interpreted on the code's model.
\<close>

section \<open>Doubly linked segments\<close>

fun hd_or :: "fh \<Rightarrow> fh list \<Rightarrow> fh" where
  "hd_or q [] = q"
| "hd_or q (f # fs) = f"

fun last_or :: "fh \<Rightarrow> fh list \<Rightarrow> fh" where
  "last_or p [] = p"
| "last_or p (f # fs) = last_or f fs"

fun seg :: "mstate \<Rightarrow> fh \<Rightarrow> fh list \<Rightarrow> fh \<Rightarrow> bool" where
  "seg s p [] q \<longleftrightarrow> True"
| "seg s p (f # fs) q \<longleftrightarrow> f \<noteq> 0 \<and> (\<exists>m. files s f = Some m \<and> mf_ts_previous m = p \<and>
     mf_ts_next m = hd_or q fs \<and> 0 \<le> mf_timeslice m) \<and> seg s f fs q"

lemma hd_or_append: "hd_or q (a @ b) = hd_or (hd_or q b) a"
  by (cases a) simp_all

lemma last_or_append [simp]: "last_or p (a @ b) = last_or (last_or p a) b"
  by (induction a arbitrary: p) simp_all

lemma seg_append: "seg s p (a @ b) q \<longleftrightarrow> seg s p a (hd_or q b) \<and> seg s (last_or p a) b q"
  by (induction a arbitrary: p) (simp_all add: hd_or_append)

lemma seg_ConsE:
  assumes "seg s p (f # fs) q"
  obtains m where "f \<noteq> 0" "files s f = Some m" "mf_ts_previous m = p" "mf_ts_next m = hd_or q fs"
    "0 \<le> mf_timeslice m" "seg s f fs q"
  using assms unfolding seg.simps by (elim conjE exE) (rule that)

lemma seg_cong: "\<forall>f\<in>set fs. files s' f = files s f \<Longrightarrow> seg s' p fs q = seg s p fs q"
  by (induction fs arbitrary: p) simp_all

lemma seg_nz: "seg s p fs q \<Longrightarrow> 0 \<notin> set fs"
  by (induction fs arbitrary: p) auto

lemma seg_file: "seg s p fs q \<Longrightarrow> f \<in> set fs \<Longrightarrow> \<exists>m. files s f = Some m \<and> 0 \<le> mf_timeslice m"
  by (induction fs arbitrary: p) auto

lemma last_or_in: "fs \<noteq> [] \<Longrightarrow> last_or p fs \<in> set fs"
  by (induction fs arbitrary: p) (auto, metis last_or.simps(1))

lemma seg_set_prev:
  assumes "seg s p (g # gs) q" "files s g = Some m" "g \<notin> set gs"
    and "files s' g = Some (m\<lparr>mf_ts_previous := p', mf_timeslice := ts\<rparr>)" "0 \<le> ts"
    and "\<forall>f\<in>set gs. files s' f = files s f"
  shows "seg s' p' (g # gs) q"
  using assms seg_cong [OF assms(6)] by simp

lemma seg_set_next:
  assumes "seg s p (a @ [l]) q" "files s l = Some m" "l \<notin> set a"
    and "files s' l = Some (m\<lparr>mf_ts_next := q'\<rparr>)" "\<forall>f\<in>set a. files s' f = files s f"
  shows "seg s' p (a @ [l]) q'"
  using assms seg_cong [OF assms(5)] by (simp add: seg_append)

section \<open>Representation\<close>

definition slice_count :: nat where
  "slice_count = timeslice_nb + 2"

definition slices_rep :: "mstate \<Rightarrow> (nat \<Rightarrow> fh list) \<Rightarrow> bool" where
  "slices_rep s L \<longleftrightarrow> timeslice_current s < timeslice_nb \<and>
     (\<forall>i < slice_count. timeslices s i = hd_or 0 (L i) \<and> seg s 0 (L i) 0 \<and> distinct (L i) \<and>
        (\<forall>f fs m. L i = f # fs \<longrightarrow> files s f = Some m \<longrightarrow> mf_timeslice m = int i)) \<and>
     (\<forall>i < slice_count. \<forall>j < slice_count. i \<noteq> j \<longrightarrow> set (L i) \<inter> set (L j) = {})"

text \<open>A file that is on no list, as \<open>mcachefs_file_init\<close> and the removal leave it.\<close>

definition detached :: "mstate \<Rightarrow> fh \<Rightarrow> bool" where
  "detached s f \<longleftrightarrow> f \<noteq> 0 \<and> (\<exists>m. files s f = Some m \<and> mf_timeslice m = -1 \<and>
     mf_ts_previous m = 0 \<and> mf_ts_next m = 0)"

lemma slices_repD:
  assumes "slices_rep s L" "i < slice_count"
  shows "timeslices s i = hd_or 0 (L i)" "seg s 0 (L i) 0" "distinct (L i)"
    "L i = f # fs \<Longrightarrow> files s f = Some m \<Longrightarrow> mf_timeslice m = int i"
    "j < slice_count \<Longrightarrow> i \<noteq> j \<Longrightarrow> set (L i) \<inter> set (L j) = {}"
  using assms unfolding slices_rep_def by blast+

lemma detached_not_in:
  assumes "slices_rep s L" "detached s f" "i < slice_count"
  shows "f \<notin> set (L i)"
proof
  assume "f \<in> set (L i)"
  with slices_repD(2) [OF assms(1,3)] seg_file obtain m where "files s f = Some m" "0 \<le> mf_timeslice m"
    by blast
  with assms(2) show False by (auto simp: detached_def)
qed

lemma slices_repI:
  assumes rep: "slices_rep s L" and i: "i < slice_count"
    and cur: "timeslice_current s' = timeslice_current s"
    and other: "\<And>j. j < slice_count \<Longrightarrow> j \<noteq> i \<Longrightarrow> timeslices s' j = timeslices s j"
    and frame: "\<And>j f. j < slice_count \<Longrightarrow> j \<noteq> i \<Longrightarrow> f \<in> set (L j) \<Longrightarrow> files s' f = files s f"
    and new: "timeslices s' i = hd_or 0 fs" "seg s' 0 fs 0" "distinct fs"
      "\<And>f fs' m. fs = f # fs' \<Longrightarrow> files s' f = Some m \<Longrightarrow> mf_timeslice m = int i"
    and disj: "\<And>j. j < slice_count \<Longrightarrow> j \<noteq> i \<Longrightarrow> set fs \<inter> set (L j) = {}"
  shows "slices_rep s' (L(i := fs))"
  unfolding slices_rep_def
proof (intro conjI allI impI)
  show "timeslice_current s' < timeslice_nb" using rep cur by (simp add: slices_rep_def)
next
  fix j assume j: "j < slice_count"
  show "timeslices s' j = hd_or 0 ((L(i := fs)) j)"
    using other [OF j] new(1) slices_repD(1) [OF rep j] by simp
  show "seg s' 0 ((L(i := fs)) j) 0"
    using frame [OF j] new(2) slices_repD(2) [OF rep j] seg_cong [of "L j" s' s] by simp
  show "distinct ((L(i := fs)) j)"
    using new(3) slices_repD(3) [OF rep j] by simp
  fix f fs' m assume "(L(i := fs)) j = f # fs'" "files s' f = Some m"
  then show "mf_timeslice m = int j"
    using frame [OF j] new(4) slices_repD(4) [OF rep j] by (cases "j = i") auto
next
  fix j k assume "j < slice_count" "k < slice_count" "j \<noteq> k"
  then show "set ((L(i := fs)) j) \<inter> set ((L(i := fs)) k) = {}"
    using disj slices_repD(5) [OF rep] by (simp add: Int_commute)
qed

lemma ldf_Some [simp]: "f \<noteq> 0 \<Longrightarrow> files s f = Some m \<Longrightarrow> ldf s f g = Some (g m)"
  by (simp add: ldf_def)

lemma updf_Some [simp]:
  "f \<noteq> 0 \<Longrightarrow> files s f = Some m \<Longrightarrow> updf s f g = Some (s\<lparr>files := (files s)(f \<mapsto> g m)\<rparr>)"
  by (simp add: updf_def)

lemma slice_get_nat [simp]: "i < slice_count \<Longrightarrow> slice_get s (int i) = Some (timeslices s i)"
  by (simp add: slice_get_def slice_count_def)

lemma slice_set_nat [simp]:
  "i < slice_count \<Longrightarrow> slice_set s (int i) f = Some (s\<lparr>timeslices := (timeslices s)(i := f)\<rparr>)"
  by (simp add: slice_set_def slice_count_def)

section \<open>Insertion\<close>

lemma insert_in_ts_ok:
  assumes rep: "slices_rep s L" and det: "detached s f" and i: "i < slice_count"
  shows "\<exists>s'. mcachefs_file_timeslice_insert_in_ts s f i = Some s' \<and>
    slices_rep s' (L(i := f # L i)) \<and> timeslice_current s' = timeslice_current s"
proof -
  obtain m where m: "f \<noteq> 0" "files s f = Some m" "mf_timeslice m = -1" "mf_ts_previous m = 0" "mf_ts_next m = 0"
    using det by (auto simp: detached_def)
  note r = slices_repD [OF rep i] and nin = detached_not_in [OF rep det]
  show ?thesis
  proof (cases "L i")
    case Nil
    let ?s = "s\<lparr>files := (files s)(f \<mapsto> m\<lparr>mf_timeslice := int i, mf_ts_next := 0\<rparr>), timeslices := (timeslices s)(i := f)\<rparr>"
    have h: "timeslices s i = 0" using r(1) by (simp add: Nil)
    have "mcachefs_file_timeslice_insert_in_ts s f i = Some ?s"
      using m i h by (simp add: mcachefs_file_timeslice_insert_in_ts_def)
    moreover have "slices_rep ?s (L(i := f # L i))"
      by (rule slices_repI [OF rep i]) (use m nin i in \<open>auto simp: Nil\<close>)
    ultimately show ?thesis by auto
  next
    case (Cons g gs)
    obtain n where g: "g \<noteq> 0" "files s g = Some n" "mf_ts_next n = hd_or 0 gs" "mf_timeslice n = int i"
      using r(2,4) by (auto simp: Cons)
    have fg: "f \<noteq> g" "g \<notin> set gs" using nin [OF i] r(3) by (auto simp: Cons)
    have h: "timeslices s i = g" using r(1) by (simp add: Cons)
    let ?n = "n\<lparr>mf_ts_previous := f\<rparr>" and ?m = "m\<lparr>mf_timeslice := int i, mf_ts_next := g\<rparr>"
    let ?s = "s\<lparr>files := (files s)(g \<mapsto> ?n, f \<mapsto> ?m), timeslices := (timeslices s)(i := f)\<rparr>"
    have "mcachefs_file_timeslice_insert_in_ts s f i = Some ?s"
    proof (cases gs)
      case Nil
      then have "mf_ts_next n = 0" using g(3) by simp
      with m g(1,2,4) i h fg(1) show ?thesis
        by (simp add: mcachefs_file_timeslice_insert_in_ts_def)
    next
      case (Cons k ks)
      have "seg s g (k # ks) 0" using r(2) unfolding \<open>L i = g # gs\<close> Cons by (rule seg_ConsE)
      then obtain x where k: "k \<noteq> 0" "files s k = Some x" "mf_ts_previous x = g"
        by (rule seg_ConsE)
      have "k \<noteq> f" "k \<noteq> g" using nin [OF i] fg(2) by (simp_all add: \<open>L i = g # gs\<close> Cons)
      moreover have "mf_ts_next n = k" using g(3) by (simp add: Cons)
      ultimately show ?thesis using m g(1,2,4) i h fg(1) k
        by (simp add: mcachefs_file_timeslice_insert_in_ts_def)
    qed
    moreover have "seg ?s f (g # gs) 0"
    proof (rule seg_set_prev [of s 0 _ _ _ n])
      show "seg s 0 (g # gs) 0" using r(2) by (simp add: Cons)
      show "files ?s g = Some (n\<lparr>mf_ts_previous := f, mf_timeslice := int i\<rparr>)" using g(4) fg(1) by (cases n) simp
      show "\<forall>k\<in>set gs. files ?s k = files s k" using fg nin [OF i] by (auto simp: Cons)
    qed (use g fg in simp_all)
    then have "slices_rep ?s (L(i := f # L i))"
      by (intro slices_repI [OF rep i]) (use m nin nin [OF i] i fg r(3,5) in \<open>auto simp: Cons\<close>)
    ultimately show ?thesis by auto
  qed
qed

section \<open>Removal\<close>

text \<open>What removal leaves in the file.\<close>

definition unlinked :: "mfile \<Rightarrow> mfile" where
  "unlinked m = m\<lparr>mf_ts_previous := 0, mf_ts_next := 0, mf_timeslice := -1\<rparr>"

lemma remove_head_ok:
  assumes rep: "slices_rep s L" and i: "i < slice_count" and L: "L i = f # b" and m: "files s f = Some m"
  shows "\<exists>s'. mcachefs_file_timeslice_remove s f = Some s' \<and> slices_rep s' (L(i := b)) \<and>
    timeslice_current s' = timeslice_current s \<and> files s' f = Some (unlinked m)"
proof -
  note r = slices_repD [OF rep i]
  have f: "f \<noteq> 0" "mf_ts_previous m = 0" "mf_ts_next m = hd_or 0 b" "mf_timeslice m = int i" "timeslices s i = f"
    using r(1,2,4) m by (auto simp: L)
  show ?thesis
  proof (cases b)
    case Nil
    let ?s = "s\<lparr>timeslices := (timeslices s)(i := 0), files := (files s)(f \<mapsto> unlinked m)\<rparr>"
    have "mcachefs_file_timeslice_remove s f = Some ?s"
      using f m i by (simp add: mcachefs_file_timeslice_remove_def Nil unlinked_def)
    moreover have "slices_rep ?s (L(i := b))"
      by (rule slices_repI [OF rep i]) (use r(5) i in \<open>auto simp: L Nil\<close>)
    ultimately show ?thesis by auto
  next
    case (Cons g gs)
    obtain n where g: "g \<noteq> 0" "files s g = Some n" "mf_ts_previous n = f"
      using r(2) by (auto simp: L Cons)
    have d: "f \<noteq> g" "f \<notin> set gs" "g \<notin> set gs" "distinct gs" using r(3) by (auto simp: L Cons)
    let ?n = "n\<lparr>mf_timeslice := int i, mf_ts_previous := 0\<rparr>"
    let ?s = "s\<lparr>timeslices := (timeslices s)(i := g), files := (files s)(g \<mapsto> ?n, f \<mapsto> unlinked m)\<rparr>"
    have "mcachefs_file_timeslice_remove s f = Some ?s"
      using f m i g d by (simp add: mcachefs_file_timeslice_remove_def Cons unlinked_def)
    moreover have "seg ?s 0 (g # gs) 0"
    proof (rule seg_set_prev [of s f _ _ _ n])
      show "seg s f (g # gs) 0" using r(2) by (simp add: L Cons)
      show "files ?s g = Some (n\<lparr>mf_ts_previous := 0, mf_timeslice := int i\<rparr>)" using d by (cases n) simp
      show "\<forall>k\<in>set gs. files ?s k = files s k" using d(2,3) by auto
    qed (use g(2) d(3) in simp_all)
    then have "slices_rep ?s (L(i := b))"
      by (intro slices_repI [OF rep i]) (use d r(5) in \<open>auto simp: L Cons\<close>)
    ultimately show ?thesis by auto
  qed
qed

lemma snoc_cases: "a \<noteq> [] \<Longrightarrow> \<exists>c l. a = c @ [l]"
  by (cases a rule: rev_cases) auto

lemma inner_rep:
  assumes rep: "slices_rep s L" and i: "i < slice_count" and L: "L i = c @ [l] @ f # b"
    and l: "files s l = Some k" "files s' l = Some (k\<lparr>mf_ts_next := v\<rparr>)"
    and same: "timeslices s' = timeslices s" "timeslice_current s' = timeslice_current s"
    and frame: "\<And>h. h \<noteq> l \<Longrightarrow> h \<noteq> f \<Longrightarrow> h \<notin> set b \<Longrightarrow> files s' h = files s h"
    and seg: "seg s' 0 (c @ [l] @ b) 0"
  shows "slices_rep s' (L(i := c @ [l] @ b))"
proof (rule slices_repI [OF rep i])
  note r = slices_repD [OF rep i]
  have d: "distinct (c @ l # f # b)" using r(3) by (simp add: L)
  show "files s' h = files s h" if "j < slice_count" "j \<noteq> i" "h \<in> set (L j)" for j h
    using r(5) [OF that(1)] that frame [of h] by (force simp: L)
  show "timeslices s' i = hd_or 0 (c @ [l] @ b)" using r(1) same by (simp add: L hd_or_append)
  show "seg s' 0 (c @ [l] @ b) 0" by (rule seg)
  show "distinct (c @ [l] @ b)" using d by simp
  show "set (c @ [l] @ b) \<inter> set (L j) = {}" if "j < slice_count" "j \<noteq> i" for j
    using r(5) [OF that(1)] that(2) unfolding L by simp
  show "mf_timeslice x = int i" if "c @ [l] @ b = y # ys" "files s' y = Some x" for y ys x
  proof (cases c)
    case Nil
    then have "L i = y # f # b" using that(1) by (simp add: L)
    from r(4) [OF this, of k] l that Nil show ?thesis by simp
  next
    case (Cons z zs)
    then have "L i = y # zs @ l # f # b" using that(1) by (simp add: L)
    moreover have "y \<noteq> l" "y \<noteq> f" "y \<notin> set b" using that(1) d Cons by auto
    ultimately show ?thesis using r(4) [of y _ x] frame [of y] that(2) by simp
  qed
qed (simp_all add: same)

lemma remove_inner_ok:
  assumes rep: "slices_rep s L" and i: "i < slice_count" and L: "L i = c @ [l] @ f # b" and m: "files s f = Some m"
  shows "\<exists>s'. mcachefs_file_timeslice_remove s f = Some s' \<and> slices_rep s' (L(i := c @ [l] @ b)) \<and>
    timeslice_current s' = timeslice_current s \<and> files s' f = Some (unlinked m)"
proof -
  note r = slices_repD [OF rep i]
  have sg: "seg s 0 (c @ [l]) f" "seg s l (f # b) 0"
    using r(2) seg_append [of s 0 "c @ [l]" "f # b" 0] by (auto simp: L)
  obtain k where l: "l \<noteq> 0" "files s l = Some k" "mf_ts_next k = f"
    using sg(1) by (auto simp: seg_append)
  have f: "f \<noteq> 0" "mf_ts_previous m = l" "mf_ts_next m = hd_or 0 b" "0 \<le> mf_timeslice m"
    using sg(2) m by auto
  have d: "distinct (c @ l # f # b)" using r(3) by (simp add: L)
  let ?k = "k\<lparr>mf_ts_next := hd_or 0 b\<rparr>"
  show ?thesis
  proof (cases b)
    case Nil
    let ?s = "s\<lparr>files := (files s)(l \<mapsto> ?k, f \<mapsto> unlinked m)\<rparr>"
    have run: "mcachefs_file_timeslice_remove s f = Some ?s"
      using f m l d by (simp add: mcachefs_file_timeslice_remove_def Nil unlinked_def)
    have sgl: "seg ?s 0 (c @ [l]) 0"
      by (rule seg_set_next [OF sg(1) l(2)]) (use d in \<open>auto simp: Nil\<close>)
    have "slices_rep ?s (L(i := c @ [l] @ b))"
      by (rule inner_rep [OF rep i L l(2)]) (use sgl d in \<open>simp_all add: Nil\<close>)
    with run show ?thesis by auto
  next
    case (Cons g gs)
    obtain n where g: "g \<noteq> 0" "files s g = Some n" "mf_ts_previous n = f"
      using sg(2) by (auto simp: Cons)
    let ?n = "n\<lparr>mf_timeslice := mf_timeslice m, mf_ts_previous := l\<rparr>"
    let ?s = "s\<lparr>files := (files s)(l \<mapsto> ?k, g \<mapsto> ?n, f \<mapsto> unlinked m)\<rparr>"
    have dd: "l \<noteq> f" "l \<noteq> g" "f \<noteq> g" "g \<notin> set gs" "f \<notin> set gs" "l \<notin> set gs"
      "l \<notin> set c" "g \<notin> set c" "f \<notin> set c" using d by (auto simp: Cons)
    have "mcachefs_file_timeslice_remove s f = Some ?s"
      using f m l g dd by (simp add: mcachefs_file_timeslice_remove_def Cons unlinked_def)
    moreover have "seg ?s 0 (c @ [l]) g"
      by (rule seg_set_next [OF sg(1) l(2)]) (use dd in \<open>auto simp: Cons\<close>)
    moreover have "seg ?s l (g # gs) 0"
    proof (rule seg_set_prev [of s f _ _ _ n])
      show "seg s f (g # gs) 0" using sg(2) by (simp add: Cons)
      show "files ?s g = Some (n\<lparr>mf_ts_previous := l, mf_timeslice := mf_timeslice m\<rparr>)"
        using dd by (cases n) simp
      show "\<forall>k\<in>set gs. files ?s k = files s k" using dd(4-6) by auto
    qed (use g(2) dd(4) f(4) in simp_all)
    ultimately have run: "mcachefs_file_timeslice_remove s f = Some ?s" and "seg ?s 0 ((c @ [l]) @ b) 0"
      by (simp_all add: seg_append Cons)
    then have "slices_rep ?s (L(i := c @ [l] @ b))"
      by (intro inner_rep [OF rep i L l(2)]) (use dd in \<open>simp_all add: Cons\<close>)
    with run show ?thesis by auto
  qed
qed

lemma slice_split:
  assumes "slices_rep s L" "i < slice_count" "f \<in> set (L i)"
  shows "\<exists>a b. L i = a @ f # b \<and> remove1 f (L i) = a @ b"
proof -
  obtain a b where ab: "L i = a @ f # b" using assms(3) by (auto dest: split_list)
  moreover have "f \<notin> set a" using slices_repD(3) [OF assms(1,2)] by (simp add: ab)
  ultimately show ?thesis by (auto simp: remove1_append)
qed

lemma remove_ok:
  assumes rep: "slices_rep s L" and i: "i < slice_count" and f: "f \<in> set (L i)"
  shows "\<exists>s' m. mcachefs_file_timeslice_remove s f = Some s' \<and>
    slices_rep s' (L(i := remove1 f (L i))) \<and> detached s' f \<and>
    timeslice_current s' = timeslice_current s \<and> files s f = Some m \<and> files s' f = Some (unlinked m)"
proof -
  obtain m where m: "files s f = Some m" using slices_repD(2) [OF rep i] f seg_file by blast
  have nz: "f \<noteq> 0" using slices_repD(2) [OF rep i] f seg_nz by metis
  obtain a b where ab: "L i = a @ f # b" "remove1 f (L i) = a @ b"
    using slice_split [OF rep i f] by blast
  have "\<exists>s'. mcachefs_file_timeslice_remove s f = Some s' \<and> slices_rep s' (L(i := a @ b)) \<and>
    timeslice_current s' = timeslice_current s \<and> files s' f = Some (unlinked m)"
  proof (cases "a = []")
    case True
    with remove_head_ok [OF rep i _ m, of b] ab show ?thesis by simp
  next
    case False
    then obtain c l where "a = c @ [l]" by (auto dest: snoc_cases)
    with remove_inner_ok [OF rep i _ m, of c l b] ab show ?thesis by simp
  qed
  with m nz ab(2) show ?thesis by (auto simp: detached_def unlinked_def)
qed

section \<open>The interface\<close>

text \<open>
  What the clients of the slices rely on: \<open>rep s L\<close> says that the slice \<open>i\<close> of the
  state \<open>s\<close> holds the files \<open>L i\<close>, the front first; \<open>free s f\<close> that the file \<open>f\<close>
  is on no slice.
\<close>

locale slice_lists =
  fixes insert_slice :: "'s \<Rightarrow> 'f \<Rightarrow> nat \<Rightarrow> 's option"
    and remove_slice :: "'s \<Rightarrow> 'f \<Rightarrow> 's option"
    and current :: "'s \<Rightarrow> nat"
    and rep :: "'s \<Rightarrow> (nat \<Rightarrow> 'f list) \<Rightarrow> bool"
    and free :: "'s \<Rightarrow> 'f \<Rightarrow> bool"
    and slots :: nat
  assumes insert_law: "rep s L \<Longrightarrow> free s f \<Longrightarrow> i < slots \<Longrightarrow>
      \<exists>s'. insert_slice s f i = Some s' \<and> rep s' (L(i := f # L i)) \<and> current s' = current s"
    and remove_law: "rep s L \<Longrightarrow> i < slots \<Longrightarrow> f \<in> set (L i) \<Longrightarrow>
      \<exists>s'. remove_slice s f = Some s' \<and> rep s' (L(i := remove1 f (L i))) \<and> free s' f \<and>
        current s' = current s"
    and current_law: "rep s L \<Longrightarrow> current s < slots"
begin

text \<open>Taking a file off its slice and putting it in front of another.\<close>

definition move :: "'s \<Rightarrow> 'f \<Rightarrow> nat \<Rightarrow> 's option" where
  "move s f i = do { s \<leftarrow> remove_slice s f; insert_slice s f i }"

definition moved :: "(nat \<Rightarrow> 'f list) \<Rightarrow> nat \<Rightarrow> 'f \<Rightarrow> nat \<Rightarrow> (nat \<Rightarrow> 'f list)" where
  "moved L i f k = (let L' = L(i := remove1 f (L i)) in L'(k := f # L' k))"

lemma move_ok:
  assumes "rep s L" "i < slots" "f \<in> set (L i)" "k < slots"
  shows "\<exists>s'. move s f k = Some s' \<and> rep s' (moved L i f k) \<and> current s' = current s"
proof -
  obtain s1 where "remove_slice s f = Some s1" "rep s1 (L(i := remove1 f (L i)))" "free s1 f"
    "current s1 = current s"
    using remove_law [OF assms(1-3)] by blast
  with insert_law [of s1 _ f k] assms(4) show ?thesis
    unfolding move_def moved_def Let_def by fastforce
qed

lemma moved_set:
  assumes "f \<in> set (L i)" "i < n" "k < n"
  shows "(\<Union>j<n. set (moved L i f k j)) = (\<Union>j<n. set (L j))" (is "?l = ?r")
proof
  have split: "set (L i) \<subseteq> insert f (set (remove1 f (L i)))" by (metis in_set_remove1 insertCI subsetI)
  have "set (moved L i f k j) \<subseteq> insert f (set (L j))" for j
    using set_remove1_subset [of f "L i"] by (auto simp: moved_def Let_def)
  moreover have "f \<in> ?r" using assms by auto
  ultimately show "?l \<subseteq> ?r" by blast
  show "?r \<subseteq> ?l"
  proof
    fix x assume "x \<in> ?r"
    then obtain j where j: "j < n" "x \<in> set (L j)" by auto
    show "x \<in> ?l"
    proof (cases "x = f")
      case True
      then show ?thesis using assms by (auto simp: moved_def Let_def intro: bexI [of _ k])
    next
      case False
      then have "x \<in> set (moved L i f k j)"
        using j split by (auto simp: moved_def Let_def)
      with j show ?thesis by auto
    qed
  qed
qed

text \<open>Taking the front of a slice.\<close>

lemma pop_ok:
  assumes "rep s L" "i < slots" "L i = f # fs"
  shows "\<exists>s'. remove_slice s f = Some s' \<and> rep s' (L(i := fs)) \<and> free s' f \<and> current s' = current s"
  using remove_law [of s L i f] assms by simp

end

text \<open>The code's lists provide it.\<close>

lemma detached_frame:
  "files s' f = files s f \<Longrightarrow> detached s' f = detached s f"
  by (simp add: detached_def)

interpretation slices: slice_lists mcachefs_file_timeslice_insert_in_ts mcachefs_file_timeslice_remove
  timeslice_current slices_rep detached slice_count
proof
  show "\<exists>s'. mcachefs_file_timeslice_insert_in_ts s f i = Some s' \<and> slices_rep s' (L(i := f # L i)) \<and>
      timeslice_current s' = timeslice_current s"
    if "slices_rep s L" "detached s f" "i < slice_count" for s L f i
    using that by (rule insert_in_ts_ok)
  show "\<exists>s'. mcachefs_file_timeslice_remove s f = Some s' \<and>
      slices_rep s' (L(i := remove1 f (L i))) \<and> detached s' f \<and> timeslice_current s' = timeslice_current s"
    if "slices_rep s L" "i < slice_count" "f \<in> set (L i)" for s L i f
    using remove_ok [OF that] by blast
  show "timeslice_current s < slice_count" if "slices_rep s L" for s L
    using that by (simp add: slices_rep_def slice_count_def)
qed

section \<open>Its clients\<close>

lemma updf_detached:
  assumes "detached s f"
  shows "updf s f (\<lambda>m. m\<lparr>mf_timeslice := -1, mf_ts_previous := 0, mf_ts_next := 0\<rparr>) = Some s"
proof -
  obtain m where m: "f \<noteq> 0" "files s f = Some m" "mf_timeslice m = -1" "mf_ts_previous m = 0" "mf_ts_next m = 0"
    using assms unfolding detached_def by blast
  then have "m\<lparr>mf_timeslice := -1, mf_ts_previous := 0, mf_ts_next := 0\<rparr> = m" by (cases m) simp
  moreover have "s\<lparr>files := (files s)(f \<mapsto> m)\<rparr> = s"
    using m(2) by (cases s) (simp add: fun_upd_idem)
  ultimately show ?thesis using m(1,2) by simp
qed

lemma do_freshen_move:
  assumes "slices_rep s L" "i < slice_count" "f \<in> set (L i)"
  shows "mcachefs_file_timeslice_do_freshen s f = slices.move s f (timeslice_current s)"
proof -
  obtain s1 where "mcachefs_file_timeslice_remove s f = Some s1" "detached s1 f"
    "timeslice_current s1 = timeslice_current s"
    using slices.remove_law [OF assms] by blast
  then show ?thesis
    by (simp add: mcachefs_file_timeslice_do_freshen_def slices.move_def updf_detached
        mcachefs_file_timeslice_insert_def)
qed

lemma do_freshen_ok:
  assumes "slices_rep s L" "i < slice_count" "f \<in> set (L i)"
  shows "\<exists>s'. mcachefs_file_timeslice_do_freshen s f = Some s' \<and>
    slices_rep s' (slices.moved L i f (timeslice_current s)) \<and> timeslice_current s' = timeslice_current s"
  using slices.move_ok [OF assms slices.current_law [OF assms(1)]] do_freshen_move [OF assms] by simp

lemma get_freed_ok:
  assumes "slices_rep s L"
  shows "\<exists>s' f. mcachefs_file_timeslice_get_freed s = Some (s', f) \<and>
    slices_rep s' (L(timeslice_freed := tl (L timeslice_freed))) \<and>
    (if L timeslice_freed = [] then f = 0 \<and> s' = s else f = hd (L timeslice_freed) \<and> detached s' f)"
proof -
  have i: "timeslice_freed < slice_count" by (simp add: timeslice_freed_def slice_count_def)
  note h = slices_repD(1) [OF assms i]
  show ?thesis
  proof (cases "L timeslice_freed")
    case Nil
    then show ?thesis using assms h i
      by (simp add: mcachefs_file_timeslice_get_freed_def fun_upd_idem)
  next
    case (Cons f fs)
    have "f \<noteq> 0" using slices_repD(2) [OF assms i] by (simp add: Cons)
    with Cons h i slices.pop_ok [OF assms i Cons] show ?thesis
      by (auto simp: mcachefs_file_timeslice_get_freed_def)
  qed
qed

end
