(* ===== verification/Slices_Clock.thy ===== *)
theory Slices_Clock
  imports Slices_Refine
begin

text \<open>
  The clock and the walks over the slices: the tick that prepends the oldest slice to the
  garbage, the loop that acts on the files of a slice, the release of the freed structures,
  the count of open files.
\<close>

section \<open>The tick\<close>

lemma slice_tail_ok:
  "seg s p (f # fs) 0 \<Longrightarrow> slice_tail s f = Some (last (f # fs))"
proof (induction fs arbitrary: p f)
  case Nil
  then show ?case by (auto elim!: seg_ConsE simp: slice_tail.simps [of s f])
next
  case (Cons g gs)
  from Cons.prems obtain m where m: "f \<noteq> 0" "files s f = Some m" "mf_ts_next m = g"
    and sg: "seg s f (g # gs) 0" by (rule seg_ConsE) simp
  then have "g \<noteq> 0" by simp
  with m have "slice_tail s f = slice_tail s g" by (simp add: slice_tail.simps [of s f])
  with Cons.IH [OF sg] show ?case by simp
qed

definition next_slice :: "nat \<Rightarrow> nat" where
  "next_slice c = (c + 1) mod timeslice_nb"

definition ticked :: "(nat \<Rightarrow> fh list) \<Rightarrow> nat \<Rightarrow> (nat \<Rightarrow> fh list)" where
  "ticked L c = L(timeslice_garbage := L (next_slice c) @ L timeslice_garbage, next_slice c := [])"

lemma next_slice_less: "next_slice c < timeslice_nb"
  by (simp add: next_slice_def timeslice_nb_def)

lemma last_timeslice: "(c + timeslice_nb + 1) mod timeslice_nb = next_slice c"
  using mod_add_self1 [of "timeslice_nb" "c + 1"] by (simp add: next_slice_def ac_simps)

lemma slice_bounds:
  "next_slice c < slice_count" "timeslice_garbage < slice_count" "timeslice_freed < slice_count"
  "next_slice c \<noteq> timeslice_garbage"
  using next_slice_less [of c] by (simp_all add: slice_count_def timeslice_garbage_def timeslice_freed_def)

lemma set_current_rep:
  assumes "slices_rep s L" "c < timeslice_nb"
  shows "slices_rep (s\<lparr>timeslice_current := c\<rparr>) L"
proof -
  have "seg (s\<lparr>timeslice_current := c\<rparr>) 0 (L i) 0 = seg s 0 (L i) 0" for i
    by (rule seg_cong) simp
  with assms show ?thesis by (simp add: slices_rep_def)
qed

text \<open>Prepending a list to the garbage and emptying its slice.\<close>

lemma append_rep:
  assumes rep: "slices_rep s L" and ij: "i < slice_count" "g < slice_count" "i \<noteq> g" and ne: "L i = f # fs"
    and cur: "timeslice_current s' = timeslice_current s"
    and ts: "timeslices s' = (timeslices s)(g := f, i := 0)"
    and frame: "\<And>h. h \<notin> set (L i) \<union> set (L g) \<Longrightarrow> files s' h = files s h"
    and sg: "seg s' 0 (L i @ L g) 0"
    and hd: "\<And>m. files s' f = Some m \<Longrightarrow> mf_timeslice m = int g"
  shows "slices_rep s' (L(g := L i @ L g, i := []))"
  unfolding slices_rep_def
proof (intro conjI allI impI)
  let ?L = "L(g := L i @ L g, i := [])"
  note r = slices_repD [OF rep]
  have same: "files s' h = files s h" if "j < slice_count" "j \<noteq> i" "j \<noteq> g" "h \<in> set (L j)" for j h
    using frame r(5) [OF ij(1) that(1)] r(5) [OF ij(2) that(1)] that by blast
  show "timeslice_current s' < timeslice_nb" using rep cur by (simp add: slices_rep_def)
  fix j assume j: "j < slice_count"
  consider "j = i" | "j = g" "j \<noteq> i" | "j \<noteq> i" "j \<noteq> g" by blast
  note cases = this
  show "timeslices s' j = hd_or 0 (?L j)"
    using r(1) [OF j] ts ij(3) ne by simp
  show "seg s' 0 (?L j) 0"
    using cases same [OF j] r(2) [OF j] sg ij(3) seg_cong [of "L j" s' s] by (cases; simp)
  show "distinct (?L j)"
    using r(3) [OF j] r(3) [OF ij(1)] r(3) [OF ij(2)] r(5) [OF ij(1,2)] ij(3) by simp
  show "mf_timeslice m = int j" if "?L j = h # hs" "files s' h = Some m" for h hs m
    using cases
  proof cases
    case 2
    then have "h = f" using that(1) ne ij(3) by simp
    with 2 hd that(2) show ?thesis by simp
  next
    case 3
    then have "L j = h # hs" using that(1) by simp
    with 3 same [OF j 3, of h] r(4) [OF j this] that(2) show ?thesis by simp
  qed (use that(1) in simp)
next
  note r = slices_repD [OF rep]
  fix j k assume "j < slice_count" "k < slice_count" "j \<noteq> k"
  then show "set ((L(g := L i @ L g, i := [])) j) \<inter> set ((L(g := L i @ L g, i := [])) k) = {}"
    using r(5) [of j k] r(5) [OF ij(1), of j] r(5) [OF ij(1), of k] ij(3)
    by (auto simp del: disjoint_iff)
qed

text \<open>What \<open>mcachefs_file_timeslice_update\<close> does before it advances the clock.\<close>

definition tick_move :: "mstate \<Rightarrow> nat \<Rightarrow> mstate option" where
  "tick_move s i = do {
     head \<leftarrow> slice_get s (int i);
     (if head \<noteq> 0 then do {
        garbage \<leftarrow> slice_get s (int timeslice_garbage);
        s \<leftarrow> (if garbage \<noteq> 0 then do {
                mfile \<leftarrow> slice_tail s head;
                s \<leftarrow> updf s mfile (\<lambda>m. m\<lparr>mf_ts_next := garbage\<rparr>);
                gp \<leftarrow> ldf s garbage mf_ts_previous;
                if gp \<noteq> 0 then Bug
                else updf s garbage (\<lambda>m. m\<lparr>mf_ts_previous := mfile\<rparr>)
              } else Some s);
        s \<leftarrow> slice_set s (int timeslice_garbage) head;
        s \<leftarrow> slice_set s (int i) 0;
        updf s head (\<lambda>m. m\<lparr>mf_timeslice := int timeslice_garbage\<rparr>)
      } else Some s) }"

definition same_age :: "mstate \<Rightarrow> mstate \<Rightarrow> fh \<Rightarrow> bool" where
  "same_age s s' f \<longleftrightarrow> (\<forall>m. files s f = Some m \<longrightarrow>
     (\<exists>m'. files s' f = Some m' \<and> mf_timeslice m' = mf_timeslice m))"

lemma seg_mono:
  assumes "\<And>f m. f \<in> set fs \<Longrightarrow> files s f = Some m \<Longrightarrow> \<exists>m'. files s' f = Some m' \<and>
      mf_ts_previous m' = mf_ts_previous m \<and> mf_ts_next m' = mf_ts_next m \<and>
      (0 \<le> mf_timeslice m \<longrightarrow> 0 \<le> mf_timeslice m')"
    and "seg s p fs q"
  shows "seg s' p fs q"
  using assms
proof (induction fs arbitrary: p)
  case (Cons f fs)
  from Cons.prems(2) obtain m where m: "f \<noteq> 0" "files s f = Some m" "mf_ts_previous m = p"
    "mf_ts_next m = hd_or q fs" "0 \<le> mf_timeslice m" "seg s f fs q" by (rule seg_ConsE)
  have "seg s' f fs q" by (rule Cons.IH) (use Cons.prems(1) m(6) in auto)
  with Cons.prems(1) [of f m] m(1-5) show ?case by auto
qed simp

text \<open>Joining two segments: the tail of the first and the head of the second are linked.\<close>

lemma seg_join:
  assumes sg: "seg s 0 (c @ [l]) 0" "seg s 0 (h # hs) 0" and d: "distinct (c @ [l] @ h # hs)"
    and k: "files s l = Some k" "files s h = Some n"
  shows "seg (s\<lparr>files := (files s)(l \<mapsto> k\<lparr>mf_ts_next := h\<rparr>, h \<mapsto> n\<lparr>mf_ts_previous := l\<rparr>)\<rparr>)
    0 ((c @ [l]) @ h # hs) 0" (is "seg ?s _ _ _")
proof -
  have dd: "l \<noteq> h" "l \<notin> set c" "h \<notin> set c" "h \<notin> set hs" "l \<notin> set hs" using d by auto
  have "0 \<le> mf_timeslice n" using sg(2) k(2) by simp
  moreover have "n\<lparr>mf_ts_previous := l\<rparr> = n\<lparr>mf_ts_previous := l, mf_timeslice := mf_timeslice n\<rparr>"
    by (cases n) simp
  ultimately have "seg ?s l (h # hs) 0"
    by (intro seg_set_prev [OF sg(2) k(2) dd(4), where p' = l and ts = "mf_timeslice n"])
      (use dd in auto)
  moreover have "seg ?s 0 (c @ [l]) h"
    by (rule seg_set_next [OF sg(1) k(1) dd(2)]) (use dd in auto)
  ultimately show ?thesis by (simp add: seg_append)
qed

lemma tick_move_ok:
  assumes rep: "slices_rep s L" and b: "i < slice_count" "timeslice_garbage < slice_count"
    "i \<noteq> timeslice_garbage" and L: "L i = f # fs"
  shows "\<exists>s'. tick_move s i = Some s' \<and>
    slices_rep s' (L(timeslice_garbage := L i @ L timeslice_garbage, i := [])) \<and>
    timeslice_current s' = timeslice_current s \<and> (\<forall>h. h \<noteq> f \<longrightarrow> same_age s s' h)"
proof -
  let ?g = timeslice_garbage
  note r = slices_repD [OF rep]
  from r(2) [OF b(1)] obtain m where m: "f \<noteq> 0" "files s f = Some m" unfolding L by (rule seg_ConsE)
  have hd: "timeslices s i = f" using r(1) [OF b(1)] by (simp add: L)
  let ?t = "(timeslices s)(?g := f, i := 0)"
  show ?thesis
  proof (cases "L ?g")
    case Nil
    let ?s = "s\<lparr>timeslices := ?t, files := (files s)(f \<mapsto> m\<lparr>mf_timeslice := int ?g\<rparr>)\<rparr>"
    have "timeslices s ?g = 0" using r(1) [OF b(2)] by (simp add: Nil)
    then have "tick_move s i = Some ?s" using m hd b by (simp add: tick_move_def)
    moreover have "slices_rep ?s (L(?g := L i @ L ?g, i := []))"
    proof (rule append_rep [OF rep b L])
      show "seg ?s 0 (L i @ L ?g) 0"
        by (rule seg_mono [of _ s]) (use r(2) [OF b(1)] m in \<open>auto simp: Nil\<close>)
    qed (use L in auto)
    ultimately show ?thesis by (auto simp: same_age_def)
  next
    case (Cons h hs)
    from r(2) [OF b(2)] obtain n where n: "h \<noteq> 0" "files s h = Some n" "mf_ts_previous n = 0"
      unfolding Cons by (rule seg_ConsE)
    define l where "l = last (f # fs)"
    define c where "c = butlast (f # fs)"
    have cl: "L i = c @ [l]" using L by (simp add: c_def l_def)
    have tail: "slice_tail s f = Some l"
      using slice_tail_ok [of s 0 f fs] r(2) [OF b(1)] by (simp add: L l_def)
    have "seg s 0 (c @ [l]) 0" using r(2) [OF b(1)] cl by simp
    then obtain k where k: "l \<noteq> 0" "files s l = Some k" by (auto simp: seg_append)
    have d: "distinct (c @ [l] @ h # hs)"
      using r(3) [OF b(1)] r(3) [OF b(2)] r(5) [OF b] by (auto simp: cl Cons)
    then have lh: "l \<noteq> h" by simp
    have fh: "f \<noteq> h" using r(5) [OF b] by (auto simp: L Cons)
    have "timeslices s ?g = h" using r(1) [OF b(2)] by (simp add: Cons)
    let ?s1 = "s\<lparr>files := (files s)(l \<mapsto> k\<lparr>mf_ts_next := h\<rparr>, h \<mapsto> n\<lparr>mf_ts_previous := l\<rparr>)\<rparr>"
    obtain m' where m': "files ?s1 f = Some m'" using lh fh m by (cases "l = f") auto
    let ?s = "?s1\<lparr>timeslices := ?t, files := (files ?s1)(f \<mapsto> m'\<lparr>mf_timeslice := int ?g\<rparr>)\<rparr>"
    have "tick_move s i = Some ?s"
      using m(1) hd b tail k n lh m' \<open>timeslices s ?g = h\<close> by (simp add: tick_move_def)
    moreover have "slices_rep ?s (L(?g := L i @ L ?g, i := []))"
    proof (rule append_rep [OF rep b L])
      have "seg ?s1 0 ((c @ [l]) @ h # hs) 0"
        by (rule seg_join) (use r(2) [OF b(1)] r(2) [OF b(2)] d k n cl Cons in simp_all)
      then show "seg ?s 0 (L i @ L ?g) 0"
        unfolding cl Cons by (rule seg_mono [rotated]) (use m' in auto)
    qed (use L cl lh Cons in \<open>auto simp: c_def l_def\<close>)
    moreover have "same_age s ?s x" if "x \<noteq> f" for x
      using that k n lh by (auto simp: same_age_def)
    ultimately show ?thesis by auto
  qed
qed

lemma update_ok:
  assumes rep: "slices_rep s L"
  shows "\<exists>s'. mcachefs_file_timeslice_update s = Some s' \<and>
    slices_rep s' (ticked L (timeslice_current s)) \<and>
    timeslice_current s' = next_slice (timeslice_current s) \<and>
    (\<forall>f. f \<noteq> hd_or 0 (L (next_slice (timeslice_current s))) \<longrightarrow> same_age s s' f)"
proof -
  define c where "c = timeslice_current s"
  let ?i = "next_slice c" and ?g = timeslice_garbage
  note b = slice_bounds(1) [of c] slice_bounds(2,3) slice_bounds(4) [of c]
  let ?ok = "\<lambda>s1. slices_rep s1 (ticked L c) \<and> timeslice_current s1 = c \<and>
     (\<forall>f. f \<noteq> hd_or 0 (L ?i) \<longrightarrow> same_age s s1 f)"
  have run: "mcachefs_file_timeslice_update s = Option.bind (tick_move s ?i)
      (\<lambda>s. Some (s\<lparr>timeslice_current := (timeslice_current s + 1) mod timeslice_nb\<rparr>))"
    unfolding mcachefs_file_timeslice_update_def tick_move_def Let_def c_def last_timeslice by simp
  have "\<exists>s1. tick_move s ?i = Some s1 \<and> ?ok s1"
  proof (cases "L ?i")
    case Nil
    then have "ticked L c = L" by (simp add: ticked_def fun_eq_iff)
    with Nil show ?thesis using slices_repD(1) [OF rep b(1)] rep b
      by (auto simp: tick_move_def c_def same_age_def)
  next
    case (Cons f fs)
    then show ?thesis using tick_move_ok [OF rep b(1,2,4) Cons] by (auto simp: ticked_def c_def)
  qed
  then obtain s1 where s1: "tick_move s ?i = Some s1" "?ok s1" by blast
  have "mcachefs_file_timeslice_update s = Some (s1\<lparr>timeslice_current := ?i\<rparr>)"
    using run s1 by (simp add: next_slice_def)
  with s1(2) set_current_rep [OF _ next_slice_less] show ?thesis
    unfolding c_def by (auto simp: same_age_def)
qed

section \<open>Acting on the files of a slice\<close>

text \<open>
  The loop acts on every file of the list, in order, provided that each action leaves the
  rest of the list as it was; the file acted upon may leave the list or be released.
\<close>

lemma cleanup_loop_rule:
  assumes next_file: "\<And>s f fs. P s (f # fs) \<Longrightarrow> f \<noteq> 0 \<and> ldf (ms s) f mf_ts_next = Some (hd_or 0 fs)"
    and act: "\<And>s f fs. P s (f # fs) \<Longrightarrow> \<exists>s'. action s f = Some s' \<and> P s' fs"
    and P: "P s fs"
  shows "\<exists>s'. cleanup_loop ms action s (hd_or 0 fs) = Some s' \<and> P s' []"
  using P
proof (induction fs arbitrary: s)
  case Nil
  then show ?case by (simp add: cleanup_loop.simps [of ms action s 0])
next
  case (Cons f fs)
  obtain s1 where "action s f = Some s1" "P s1 fs" using act [OF Cons.prems] by blast
  moreover from this(2) obtain s' where "cleanup_loop ms action s1 (hd_or 0 fs) = Some s'" "P s' []"
    using Cons.IH by blast
  ultimately show ?case
    using next_file [OF Cons.prems] by (simp add: cleanup_loop.simps [of ms action s f])
qed

lemma free_loop:
  "seg s p fs 0 \<Longrightarrow> distinct fs \<Longrightarrow> cleanup_loop (\<lambda>s. s) free_file s (hd_or 0 fs) =
     Some (s\<lparr>files := (\<lambda>f. if f \<in> set fs then None else files s f)\<rparr>)"
proof (induction fs arbitrary: s p)
  case Nil
  then show ?case by (simp add: cleanup_loop.simps [of "\<lambda>s. s" free_file s 0])
next
  case (Cons f fs)
  from Cons.prems(1) obtain m where m: "f \<noteq> 0" "files s f = Some m" "mf_ts_next m = hd_or 0 fs"
    and sg: "seg s f fs 0" by (rule seg_ConsE)
  let ?s = "s\<lparr>files := (files s)(f := None)\<rparr>"
  have "seg ?s f fs 0" using sg Cons.prems(2) seg_cong [of fs ?s s] by auto
  with Cons.IH [of ?s f] Cons.prems(2) have "cleanup_loop (\<lambda>s. s) free_file ?s (hd_or 0 fs) =
    Some (?s\<lparr>files := (\<lambda>f. if f \<in> set fs then None else files ?s f)\<rparr>)" by simp
  moreover have "s\<lparr>files := (\<lambda>h. if h \<in> set (f # fs) then None else files s h)\<rparr> =
      ?s\<lparr>files := (\<lambda>f. if f \<in> set fs then None else files ?s f)\<rparr>"
    by (auto intro!: mstate.equality)
  moreover have "cleanup_loop (\<lambda>s. s) free_file s f = cleanup_loop (\<lambda>s. s) free_file ?s (hd_or 0 fs)"
    using m by (simp add: cleanup_loop.simps [of "\<lambda>s. s" free_file s f]) (simp add: free_file_def)
  ultimately show ?case by (simp only: hd_or.simps)
qed

lemma cleanup_freed_ok:
  assumes rep: "slices_rep s L"
  shows "\<exists>s'. mcachefs_file_timeslice_cleanup_freed s = Some s' \<and>
    slices_rep s' (L(timeslice_freed := [])) \<and>
    (\<forall>f. files s' f = (if f \<in> set (L timeslice_freed) then None else files s f))"
proof -
  let ?i = timeslice_freed
  have i: "?i < slice_count" by (rule slice_bounds)
  note r = slices_repD [OF rep i]
  let ?s = "s\<lparr>files := (\<lambda>f. if f \<in> set (L ?i) then None else files s f),
    timeslices := (timeslices s)(?i := 0)\<rparr>"
  have "mcachefs_file_timeslice_cleanup_freed s = Some ?s"
    using free_loop [OF r(2,3)] r(1) i
    by (simp add: mcachefs_file_timeslice_cleanup_freed_def)
  moreover have "slices_rep ?s (L(?i := []))"
    by (rule slices_repI [OF rep i]) (use r(5) in auto)
  ultimately show ?thesis by auto
qed

section \<open>The walks over all slices\<close>

definition is_open :: "mstate \<Rightarrow> fh \<Rightarrow> bool" where
  "is_open s f \<longleftrightarrow> (\<exists>m. files s f = Some m \<and> is_open_type (mf_type m))"

lemma count_loop_ok:
  "seg s p fs 0 \<Longrightarrow> count_loop s (hd_or 0 fs) n = Some (n + length (filter (is_open s) fs))"
proof (induction fs arbitrary: p n)
  case Nil
  then show ?case by (simp add: count_loop.simps [of s 0])
next
  case (Cons f fs)
  from Cons.prems obtain m where m: "f \<noteq> 0" "files s f = Some m" "mf_ts_next m = hd_or 0 fs"
    and sg: "seg s f fs 0" by (rule seg_ConsE)
  with Cons.IH [OF sg] show ?case
    by (simp add: count_loop.simps [of s f] is_open_def)
qed

lemma count_slices_ok:
  assumes "slices_rep s L" "\<forall>i\<in>set is. i < slice_count"
  shows "count_slices s is n = Some (n + length (filter (is_open s) (concat (map L is))))"
  using assms(2)
proof (induction "is" arbitrary: n)
  case (Cons i "is")
  then have i: "i < slice_count" by simp
  show ?case
    using Cons count_loop_ok [OF slices_repD(2) [OF assms(1) i], of n] slices_repD(1) [OF assms(1) i]
      slice_get_nat [OF i, of s]
    by simp
qed simp

definition clear_id :: "mfile \<Rightarrow> mfile" where
  "clear_id m = (if is_open_type (mf_type m) then m\<lparr>mf_metadata_id := 0\<rparr> else m)"

definition cleared :: "mstate \<Rightarrow> fh set \<Rightarrow> mstate" where
  "cleared s F = s\<lparr>files := (\<lambda>f. if f \<in> F then map_option clear_id (files s f) else files s f)\<rparr>"

lemma clear_id_simps [simp]:
  "mf_ts_previous (clear_id m) = mf_ts_previous m" "mf_ts_next (clear_id m) = mf_ts_next m"
  "mf_timeslice (clear_id m) = mf_timeslice m" "mf_type (clear_id m) = mf_type m"
  by (simp_all add: clear_id_def)

lemma seg_cleared: "seg s p fs q \<Longrightarrow> seg (cleared s F) p fs q"
  by (rule seg_mono [of _ s]) (auto simp: cleared_def)

lemma cleared_rep: "slices_rep s L \<Longrightarrow> slices_rep (cleared s F) L"
  unfolding slices_rep_def
  by (auto simp: cleared_def seg_cleared [unfolded cleared_def] split: if_splits)

lemma clear_loop_ok:
  "seg s p fs 0 \<Longrightarrow> distinct fs \<Longrightarrow> clear_loop s (hd_or 0 fs) = Some (cleared s (set fs))"
proof (induction fs arbitrary: s p)
  case Nil
  then show ?case by (simp add: clear_loop.simps [of s 0] cleared_def)
next
  case (Cons f fs)
  from Cons.prems(1) obtain m where m: "f \<noteq> 0" "files s f = Some m" "mf_ts_next m = hd_or 0 fs"
    and sg: "seg s f fs 0" by (rule seg_ConsE)
  let ?s = "s\<lparr>files := (files s)(f \<mapsto> clear_id m)\<rparr>"
  have "seg ?s f fs 0" using sg Cons.prems(2) seg_cong [of fs ?s s] by auto
  with Cons.IH [of ?s f] Cons.prems(2) have "clear_loop ?s (hd_or 0 fs) = Some (cleared ?s (set fs))"
    by simp
  moreover have "cleared ?s (set fs) = cleared s (set (f # fs))"
    using Cons.prems(2) m(2) by (auto simp: cleared_def fun_eq_iff)
  moreover have "s = ?s" if "\<not> is_open_type (mf_type m)"
    using that m(2) by (cases s) (simp add: clear_id_def fun_upd_idem)
  ultimately show ?case
    using m by (cases "is_open_type (mf_type m)")
      (simp_all add: clear_loop.simps [of s f] clear_id_def)
qed

lemma cleared_Un: "cleared (cleared s A) B = cleared s (A \<union> B)"
proof -
  have "clear_id (clear_id m) = clear_id m" for m by (simp add: clear_id_def)
  then have "map_option clear_id (map_option clear_id x) = map_option clear_id x" for x
    by (cases x) simp_all
  then show ?thesis by (auto simp: cleared_def intro!: mstate.equality)
qed

lemma clear_slices_ok:
  assumes "slices_rep s L" "\<forall>i\<in>set is. i < slice_count"
  shows "clear_slices s is = Some (cleared s (set (concat (map L is))))"
  using assms
proof (induction "is" arbitrary: s)
  case Nil
  then show ?case by (simp add: cleared_def)
next
  case (Cons i "is")
  then have i: "i < slice_count" by simp
  note r = slices_repD [OF Cons.prems(1) i]
  show ?case
    using Cons.IH [OF cleared_rep [OF Cons.prems(1)]] Cons.prems(2) r(1) clear_loop_ok [OF r(2,3)]
      slice_get_nat [OF i, of s]
    by (simp add: cleared_Un)
qed

section \<open>The start\<close>

lemma init_variables_rep:
  "timeslice_current s < timeslice_nb \<Longrightarrow>
   slices_rep (mcachefs_file_timeslice_init_variables s) (\<lambda>_. [])"
  by (simp add: slices_rep_def mcachefs_file_timeslice_init_variables_def)

end
