(* ===== verification/Props_Slices.thy ===== *)
theory Props_Slices
  imports Slices_Clock
begin

text \<open>
  The properties of the timeslices: each operation on the doubly linked lists is the
  operation on the lists of handles they represent, and what the clock gets wrong.
\<close>

section \<open>A sample\<close>

text \<open>Two files in the oldest slice, inserted there in turn, and one freed structure.\<close>

definition listed :: "fh \<Rightarrow> fh \<Rightarrow> int \<Rightarrow> file_type \<Rightarrow> mfile" where
  "listed p n ts t = zero_mfile\<lparr>mf_ts_previous := p, mf_ts_next := n, mf_timeslice := ts, mf_type := t\<rparr>"

definition sample_slices :: mstate where
  "sample_slices = \<lparr>entry = (\<lambda>_. zero_metadata), alloced_nb = 0, first_free = 0, hash_root = 0,
     files = [1 \<mapsto> listed 0 2 1 FileType, 2 \<mapsto> listed 1 0 1 DirType, 3 \<mapsto> listed 0 0 1025 NoType,
       4 \<mapsto> listed 0 0 (-1) FileType],
     timeslices = (\<lambda>_. 0)(1 := 1, 1025 := 3), timeslice_current = 0\<rparr>"

definition sample_lists :: "nat \<Rightarrow> fh list" where
  "sample_lists = (\<lambda>_. [])(1 := [1, 2], 1025 := [3])"

lemmas sample_slices_defs = sample_slices_def sample_lists_def listed_def zero_mfile_def

lemma sample_slices_rep: "slices_rep sample_slices sample_lists"
  by (auto simp: slices_rep_def sample_slices_defs timeslice_nb_def split: if_splits)

lemma sample_detached: "detached sample_slices 4"
  by (simp add: detached_def sample_slices_defs)

section \<open>The lists\<close>

text \<open>Inserting a file that is on no list never faults and puts it in front of its slice;
  the other slices and the clock stay as they are.\<close>

theorem insert_prepends:
  assumes "slices_rep s L" "detached s f" "i < timeslice_nb + 2"
  shows "\<exists>s'. mcachefs_file_timeslice_insert_in_ts s f i = Some s' \<and>
    slices_rep s' (L(i := f # L i)) \<and> timeslice_current s' = timeslice_current s"
  using slices.insert_law assms by (simp add: slice_count_def)

lemma insert_prepends_witness:
  "\<exists>s'. mcachefs_file_timeslice_insert_in_ts sample_slices 4 1 = Some s' \<and>
    slices_rep s' (sample_lists(1 := 4 # sample_lists 1)) \<and> timeslice_current s' = timeslice_current sample_slices"
  by (rule insert_prepends) (simp_all add: sample_slices_rep sample_detached timeslice_nb_def)

text \<open>C12: Removing a file from the slice that holds it never faults, takes it out of that list
  and of no other, and leaves it on no list, ready to be inserted again.\<close>

theorem remove_deletes:
  assumes "slices_rep s L" "i < timeslice_nb + 2" "f \<in> set (L i)"
  shows "\<exists>s'. mcachefs_file_timeslice_remove s f = Some s' \<and>
    slices_rep s' (L(i := remove1 f (L i))) \<and> detached s' f \<and> timeslice_current s' = timeslice_current s"
  using slices.remove_law assms by (simp add: slice_count_def)

lemma remove_deletes_witness:
  "\<exists>s'. mcachefs_file_timeslice_remove sample_slices 2 = Some s' \<and>
    slices_rep s' (sample_lists(1 := remove1 2 (sample_lists 1))) \<and> detached s' 2 \<and>
    timeslice_current s' = timeslice_current sample_slices"
  by (rule remove_deletes [OF sample_slices_rep]) (simp_all add: sample_lists_def timeslice_nb_def)



section \<open>The clock\<close>

text \<open>C14: The tick never faults: it puts the oldest slice, in order, in front of the garbage,
  empties it, makes it the current one, and loses no file.\<close>

theorem tick_prepends_to_garbage:
  assumes "slices_rep s L"
  defines "oldest \<equiv> (timeslice_current s + 1) mod timeslice_nb"
  shows "\<exists>s'. mcachefs_file_timeslice_update s = Some s' \<and> timeslice_current s' = oldest \<and>
    slices_rep s' (L(timeslice_garbage := L oldest @ L timeslice_garbage, oldest := []))"
  using update_ok [OF assms(1)] unfolding oldest_def ticked_def next_slice_def by blast

lemma tick_prepends_to_garbage_witness:
  "\<exists>s'. mcachefs_file_timeslice_update sample_slices = Some s' \<and>
    timeslice_current s' = (timeslice_current sample_slices + 1) mod timeslice_nb \<and>
    slices_rep s' (sample_lists(timeslice_garbage :=
        sample_lists ((timeslice_current sample_slices + 1) mod timeslice_nb) @ sample_lists timeslice_garbage,
      (timeslice_current sample_slices + 1) mod timeslice_nb := []))"
  by (rule tick_prepends_to_garbage [OF sample_slices_rep])

text \<open>C15: A file that the tick moves to the garbage behind another one keeps the number of its
  old slice, which is now the current one: freshening it right after the tick does nothing and
  it stays in the garbage.\<close>

theorem stale_slice_defeats_freshen:
  assumes "slices_rep s L" "L ((timeslice_current s + 1) mod timeslice_nb) = f # fs" "g \<in> set fs"
    "files s g = Some m" "mf_timeslice m = int ((timeslice_current s + 1) mod timeslice_nb)"
  shows "\<exists>s' L'. mcachefs_file_timeslice_update s = Some s' \<and> slices_rep s' L' \<and>
    mcachefs_file_timeslice_freshen s' g = Some s' \<and> g \<in> set (L' timeslice_garbage)"
proof -
  let ?i = "next_slice (timeslice_current s)"
  have i: "L ?i = f # fs" using assms(2) by (simp add: next_slice_def)
  note r = slices_repD [OF assms(1) slice_bounds(1)]
  have "distinct (f # fs)" "0 \<notin> set (f # fs)"
    using r(3) [of "timeslice_current s"] seg_nz [OF r(2) [of "timeslice_current s"]] unfolding i by simp_all
  then have g: "g \<noteq> f" "g \<noteq> 0" using assms(3) by (auto intro: ccontr)
  obtain s' where s': "mcachefs_file_timeslice_update s = Some s'"
      "slices_rep s' (ticked L (timeslice_current s))" "timeslice_current s' = ?i" "same_age s s' g"
    using update_ok [OF assms(1)] g(1) i by auto
  then obtain m' where "files s' g = Some m'" "mf_timeslice m' = int ?i"
    using assms(4,5) by (auto simp: same_age_def next_slice_def)
  then have "mcachefs_file_timeslice_freshen s' g = Some s'"
    using g(2) s'(3) by (simp add: mcachefs_file_timeslice_freshen_def)
  moreover have "g \<in> set (ticked L (timeslice_current s) timeslice_garbage)"
    using assms(3) i slice_bounds(4) [of "timeslice_current s", symmetric] by (simp add: ticked_def)
  ultimately show ?thesis using s'(1,2) by blast
qed

lemma stale_slice_defeats_freshen_witness:
  "\<exists>s' L'. mcachefs_file_timeslice_update sample_slices = Some s' \<and> slices_rep s' L' \<and>
    mcachefs_file_timeslice_freshen s' 2 = Some s' \<and> 2 \<in> set (L' timeslice_garbage)"
  by (rule stale_slice_defeats_freshen [OF sample_slices_rep, where f = 1 and fs = "[2]" and m = "listed 1 0 1 DirType"])
    (simp_all add: sample_slices_defs timeslice_nb_def)

text \<open>The cleanup of the freed structures releases exactly the files of the freed list,
  each once, and empties it.\<close>

theorem cleanup_freed_releases:
  assumes "slices_rep s L"
  shows "\<exists>s'. mcachefs_file_timeslice_cleanup_freed s = Some s' \<and>
    slices_rep s' (L(timeslice_freed := [])) \<and>
    (\<forall>f. files s' f = (if f \<in> set (L timeslice_freed) then None else files s f))"
  by (rule cleanup_freed_ok [OF assms])

lemma cleanup_freed_releases_witness:
  "\<exists>s'. mcachefs_file_timeslice_cleanup_freed sample_slices = Some s' \<and>
    slices_rep s' (sample_lists(timeslice_freed := [])) \<and>
    (\<forall>f. files s' f = (if f \<in> set (sample_lists timeslice_freed) then None else files sample_slices f))"
  by (rule cleanup_freed_releases [OF sample_slices_rep])

text \<open>The count of open files is the number of files and directories on all the slices.\<close>

theorem count_open_counts:
  assumes "slices_rep s L"
  shows "mcachefs_file_timeslices_count_open s =
    Some (length (filter (is_open s) (concat (map L [0..<timeslice_nb + 2]))))"
  using count_slices_ok [OF assms, of "[0..<timeslice_nb + 2]" 0]
  by (simp add: mcachefs_file_timeslices_count_open_def slice_count_def)

lemma count_open_counts_witness:
  "mcachefs_file_timeslices_count_open sample_slices =
    Some (length (filter (is_open sample_slices) (concat (map sample_lists [0..<timeslice_nb + 2]))))"
  by (rule count_open_counts [OF sample_slices_rep])

end
