(* ===== verification/Vops_Buffer.thy ===== *)
theory Vops_Buffer
  imports File_Types
begin

text \<open>
  The contents of a virtual file: a buffer of \<open>contents_alloced\<close> bytes of which
  \<open>contents_size\<close> count.  The macro \<open>__VOPS_WRITE\<close> of src/src/mcachefs-vops.h appends to it,
  growing it as \<open>snprintf\<close> asks for; src/src/mcachefs-io.c reads and writes it by offset.

  The memory that \<open>realloc\<close> adds holds whatever was there: \<open>junk n\<close> stands for \<open>n\<close> bytes
  of it.
\<close>

section \<open>The code\<close>

text \<open>\<open>realloc\<close> to \<open>n\<close> bytes; the buffer is \<open>None\<close> for NULL.\<close>

definition realloc :: "(nat \<Rightarrow> string) \<Rightarrow> string option \<Rightarrow> nat \<Rightarrow> string" where
  "realloc junk buf n =
     (let old = (case buf of None \<Rightarrow> [] | Some b \<Rightarrow> take n b)
      in take n (old @ junk (n - length old) @ replicate n NUL))"

text \<open>\<open>snprintf(&buf[at], avail, ..)\<close>: at most \<open>avail - 1\<close> characters and a NUL.\<close>

definition snprintf_at :: "string option \<Rightarrow> nat \<Rightarrow> nat \<Rightarrow> string \<Rightarrow> string option" where
  "snprintf_at buf at avail w = (if avail = 0 then buf
     else map_option (\<lambda>b. let t = take (avail - 1) w in
       take at b @ t @ [NUL] @ drop (at + length t + 1) b) buf)"

text \<open>\<open>__VOPS_WRITE\<close> of a text that formats to \<open>w\<close>: the loop prints again after growing.\<close>

partial_function (option) vops_write :: "(nat \<Rightarrow> string) \<Rightarrow> mfile \<Rightarrow> string \<Rightarrow> mfile option" where
  "vops_write junk m w =
     (let avail = mf_contents_alloced m - mf_contents_size m;
          m = m\<lparr>mf_contents := snprintf_at (mf_contents m) (mf_contents_size m) avail w\<rparr>
      in if length w < avail then Some (m\<lparr>mf_contents_size := mf_contents_size m + length w\<rparr>)
         else let alloced = mf_contents_alloced m + length w * 2
              in vops_write junk (m\<lparr>mf_contents_alloced := alloced,
                   mf_contents := Some (realloc junk (mf_contents m) alloced)\<rparr>) w)"

declare vops_write.simps [code]

definition mcachefs_vops_cleanup_vops :: "mfile \<Rightarrow> mfile" where
  "mcachefs_vops_cleanup_vops mvops =
     (let mvops = (if mf_contents mvops \<noteq> None then mvops\<lparr>mf_contents := None\<rparr> else mvops)
      in mvops\<lparr>mf_contents_size := 0, mf_contents_alloced := 0\<rparr>)"

text \<open>The bytes read; reading outside the buffer is a fault.\<close>

definition mcachefs_read_vops :: "mfile \<Rightarrow> nat \<Rightarrow> nat \<Rightarrow> string option" where
  "mcachefs_read_vops mfile sz offset =
     (case mf_contents mfile of
        None \<Rightarrow> Some []
      | Some b \<Rightarrow>
          if offset \<ge> mf_contents_size mfile then Some []
          else (let res = (if sz \<le> mf_contents_size mfile - offset then sz
                           else mf_contents_size mfile - offset)
                in if offset + res \<le> length b then Some (take res (drop offset b)) else Bug))"

text \<open>The number of bytes written; copying to a NULL buffer is a fault unless nothing is copied.\<close>

definition mcachefs_write_vops ::
  "(nat \<Rightarrow> string) \<Rightarrow> mfile \<Rightarrow> string \<Rightarrow> nat \<Rightarrow> (mfile \<times> nat) option" where
  "mcachefs_write_vops junk mfile buf offset =
     (let n = length buf;
          mfile = (if offset + n > mf_contents_alloced mfile
            then mfile\<lparr>mf_contents_alloced := offset + n,
              mf_contents := Some (realloc junk (mf_contents mfile) (offset + n))\<rparr>
            else mfile)
      in case mf_contents mfile of
           None \<Rightarrow> if n = 0 then Some (mfile, n) else Bug
         | Some b \<Rightarrow>
             if offset + n \<le> length b then
               let mfile = mfile\<lparr>mf_contents := Some (take offset b @ buf @ drop (offset + n) b)\<rparr>;
                   mfile = (if offset + n > mf_contents_size mfile
                     then mfile\<lparr>mf_contents_size := offset + n\<rparr> else mfile)
               in Some (mfile, n)
             else Bug)"

section \<open>The text of a buffer\<close>

definition vops_ok :: "mfile \<Rightarrow> bool" where
  "vops_ok m \<longleftrightarrow> mf_contents_size m \<le> mf_contents_alloced m \<and>
     (case mf_contents m of None \<Rightarrow> mf_contents_alloced m = 0 | Some b \<Rightarrow> length b = mf_contents_alloced m)"

definition vops_text :: "mfile \<Rightarrow> string" where
  "vops_text m = (case mf_contents m of None \<Rightarrow> [] | Some b \<Rightarrow> take (mf_contents_size m) b)"

lemma length_realloc: "length (realloc junk buf n) = n"
  by (auto simp: realloc_def Let_def)

lemma realloc_prefix: "k \<le> length b \<Longrightarrow> k \<le> n \<Longrightarrow> take k (realloc junk (Some b) n) = take k b"
  by (simp add: realloc_def Let_def min_def)

lemma length_snprintf_at:
  "at + avail \<le> length b \<Longrightarrow> map_option length (snprintf_at (Some b) at avail w) = Some (length b)"
  by (auto simp: snprintf_at_def Let_def)

lemma cleanup_vops_ok: "vops_ok (mcachefs_vops_cleanup_vops m) \<and> vops_text (mcachefs_vops_cleanup_vops m) = []"
  by (auto simp: mcachefs_vops_cleanup_vops_def vops_ok_def vops_text_def)

text \<open>Printing that fits.\<close>

lemma vops_write_fits:
  assumes ok: "vops_ok m" and fits: "length w < mf_contents_alloced m - mf_contents_size m"
  shows "\<exists>m'. vops_write junk m w = Some m' \<and> vops_ok m' \<and> vops_text m' = vops_text m @ w \<and>
    mf_path m' = mf_path m \<and> mf_contents m' \<noteq> None"
proof -
  obtain b where b: "mf_contents m = Some b" "length b = mf_contents_alloced m"
    using ok fits by (cases "mf_contents m") (auto simp: vops_ok_def)
  have "\<not> mf_contents_alloced m \<le> mf_contents_size m" "length w \<le> mf_contents_alloced m - mf_contents_size m - 1"
    using fits by simp_all
  with fits b show ?thesis
    by (subst vops_write.simps) (simp add: snprintf_at_def Let_def vops_ok_def vops_text_def)
qed

text \<open>One round of growing is enough: the buffer gains twice the length of the text.\<close>

lemma vops_write_ok:
  assumes ok: "vops_ok m" and w: "w \<noteq> []"
  shows "\<exists>m'. vops_write junk m w = Some m' \<and> vops_ok m' \<and> vops_text m' = vops_text m @ w \<and>
    mf_path m' = mf_path m \<and> mf_contents m' \<noteq> None"
proof (cases "length w < mf_contents_alloced m - mf_contents_size m")
  case True
  then show ?thesis by (rule vops_write_fits [OF ok])
next
  case False
  let ?avail = "mf_contents_alloced m - mf_contents_size m"
  let ?buf = "snprintf_at (mf_contents m) (mf_contents_size m) ?avail w"
  let ?n = "mf_contents_alloced m + length w * 2"
  let ?m = "m\<lparr>mf_contents_alloced := ?n, mf_contents := Some (realloc junk ?buf ?n)\<rparr>"
  have step: "vops_write junk m w = vops_write junk ?m w"
    using False by (subst vops_write.simps) (simp add: Let_def)
  have "take (mf_contents_size m) (realloc junk ?buf ?n) = vops_text m"
  proof (cases "mf_contents m")
    case None
    then show ?thesis using ok by (simp add: vops_ok_def vops_text_def snprintf_at_def)
  next
    case (Some b)
    with ok have len: "length b = mf_contents_alloced m" "mf_contents_size m \<le> length b"
      by (simp_all add: vops_ok_def)
    with Some show ?thesis
      by (simp add: vops_text_def snprintf_at_def Let_def realloc_prefix)
  qed
  then have "vops_ok ?m" "vops_text ?m = vops_text m"
    using ok by (simp_all add: vops_ok_def vops_text_def length_realloc)
  moreover have "0 < length w" "mf_contents_size m \<le> mf_contents_alloced m"
    using ok w by (simp_all add: vops_ok_def)
  then have "length w < mf_contents_alloced ?m - mf_contents_size ?m"
    by (simp add: less_diff_conv del: length_greater_0_conv)
  ultimately obtain m' where "vops_write junk ?m w = Some m'" "vops_ok m'"
    "vops_text m' = vops_text m @ w" "mf_path m' = mf_path m" "mf_contents m' \<noteq> None"
    using vops_write_fits [of ?m w junk] by auto
  with step show ?thesis by simp
qed

end
