(* ===== verification/Config.thy ===== *)
theory Config
  imports File_Slices
begin

text \<open>
  The configuration of src/src/mcachefs-config.c: its defaults, the arguments, the setters and
  getters behind the virtual files.  A \<open>char *\<close> field is \<open>None\<close> when NULL.  The creation of
  missing directories and the custom commands only call the system.
\<close>

section \<open>Data\<close>

record config =
  cfg_mountpoint :: "string option"
  cfg_source :: "string option"
  cfg_cache :: "string option"
  cfg_metafile :: "string option"
  cfg_journal :: "string option"
  cfg_verbose :: int
  cfg_threads_nb :: "int list"
  cfg_read_state :: int
  cfg_write_state :: int
  cfg_file_thread_interval :: int
  cfg_file_ttl :: int
  cfg_metadata_map_ttl :: int
  cfg_transfer_max_rate :: int
  cfg_cleanup_cache_age :: int
  cfg_cache_prefix :: "string option"
  cfg_cleanup_cache_prefix :: "string option"
  cfg_pre_mount_cmd :: "string option"
  cfg_post_umount_cmd :: "string option"

definition MCACHEFS_TRANSFER_TYPES :: nat where "MCACHEFS_TRANSFER_TYPES = 3"

definition DEFAULT_PREFIX :: string where "DEFAULT_PREFIX = ''/tmp/mcachefs''"

definition DEFAULT_VERBOSE :: int where "DEFAULT_VERBOSE = 0"

definition PATH_MAX :: nat where "PATH_MAX = 4096"

text \<open>The numbers of \<open>MCACHEFS_STATE_*\<close> and \<open>MCACHEFS_WRSTATE_*\<close>.\<close>

fun read_state_code :: "read_state \<Rightarrow> int" where
  "read_state_code StateNormal = 0"
| "read_state_code StateFull = 1"
| "read_state_code StateHandsup = 2"
| "read_state_code StateNocache = 3"
| "read_state_code StateQuitting = 4"

fun write_state_code :: "write_state \<Rightarrow> int" where
  "write_state_code WrCache = 0"
| "write_state_code WrFlush = 1"
| "write_state_code WrForce = 2"

section \<open>Paths\<close>

text \<open>\<open>trim_last_separator\<close> looks one character ahead; on the empty string it reads past the end.\<close>

fun trim_last_separator :: "string \<Rightarrow> string option" where
  "trim_last_separator [] = Bug"
| "trim_last_separator [c] = Some (if c = CHR ''/'' then [] else [c])"
| "trim_last_separator (c # d # cs) = map_option ((#) c) (trim_last_separator (d # cs))"

text \<open>The mount point without its leading slash and with the others replaced.\<close>

definition normalized_mountpoint :: "string \<Rightarrow> string" where
  "normalized_mountpoint mp =
     map (\<lambda>c. if c = CHR ''/'' then CHR ''_'' else c)
       (case mp of [] \<Rightarrow> [] | c # cs \<Rightarrow> if c = CHR ''/'' then cs else mp)"

text \<open>\<open>snprintf(.., PATH_MAX, \"%s/%s/%s\", DEFAULT_PREFIX, normalized_mp, name)\<close>.\<close>

definition default_path :: "string \<Rightarrow> string \<Rightarrow> string" where
  "default_path normalized_mp name =
     take (PATH_MAX - 1) (DEFAULT_PREFIX @ ''/'' @ normalized_mp @ ''/'' @ name)"

definition set_default_config :: "config \<Rightarrow> config option" where
  "set_default_config c = do {
     mp \<leftarrow> cfg_mountpoint c;
     let n = normalized_mountpoint mp;
         dflt = (\<lambda>v name. case v of None \<Rightarrow> Some (default_path n name) | Some p \<Rightarrow> Some p) in
     Some (c\<lparr>cfg_cache := dflt (cfg_cache c) ''cache'',
       cfg_metafile := dflt (cfg_metafile c) ''metafile'',
       cfg_journal := dflt (cfg_journal c) ''journal''\<rparr>)
   }"

section \<open>Arguments\<close>

text \<open>
  The first non-option argument is the source, the second the mount point (which FUSE keeps);
  the result is the value returned and the configuration.
\<close>

definition mcachefs_arg_proc :: "config \<Rightarrow> string \<Rightarrow> bool \<Rightarrow> (int \<times> config) option" where
  "mcachefs_arg_proc c arg nonopt =
     (if nonopt then
        (if cfg_source c = None then do {
           p \<leftarrow> trim_last_separator arg;
           Some (0, c\<lparr>cfg_source := Some p\<rparr>)
         }
         else if cfg_mountpoint c = None then do {
           p \<leftarrow> trim_last_separator arg;
           Some (1, c\<lparr>cfg_mountpoint := Some p\<rparr>)
         }
         else Some (-1, c))
      else Some (1, c))"

text \<open>What \<open>mcachefs_parse_config\<close> sets before the arguments are read.\<close>

definition initial_config :: config where
  "initial_config = \<lparr>cfg_mountpoint = None, cfg_source = None, cfg_cache = None,
     cfg_metafile = None, cfg_journal = None, cfg_verbose = 0,
     cfg_threads_nb = replicate MCACHEFS_TRANSFER_TYPES 0,
     cfg_read_state = read_state_code StateNormal, cfg_write_state = write_state_code WrCache,
     cfg_file_thread_interval = 1, cfg_file_ttl = 300, cfg_metadata_map_ttl = 1800,
     cfg_transfer_max_rate = 100000, cfg_cleanup_cache_age = 30 * 24 * 3600,
     cfg_cache_prefix = Some ''/'', cfg_cleanup_cache_prefix = None,
     cfg_pre_mount_cmd = None, cfg_post_umount_cmd = None\<rparr>"

text \<open>The verbosity and the numbers of threads that become current; the directories are made by the system.\<close>

definition mcachefs_set_current_config :: "config \<Rightarrow> config" where
  "mcachefs_set_current_config c = c\<lparr>cfg_verbose := DEFAULT_VERBOSE,
     cfg_threads_nb := map (\<lambda>n. if n = 0 then 1 else n) (cfg_threads_nb c)\<rparr>"

text \<open>\<open>run\<close> is the result of \<open>system\<close>.\<close>

definition mcachefs_config_run_cmd :: "(string \<Rightarrow> int) \<Rightarrow> string option \<Rightarrow> int" where
  "mcachefs_config_run_cmd run cmd = (case cmd of Some c \<Rightarrow> run c | None \<Rightarrow> 0)"

definition mcachefs_config_run_pre_mount_cmd :: "(string \<Rightarrow> int) \<Rightarrow> config \<Rightarrow> int" where
  "mcachefs_config_run_pre_mount_cmd run c = mcachefs_config_run_cmd run (cfg_pre_mount_cmd c)"

definition mcachefs_config_run_post_umount_cmd :: "(string \<Rightarrow> int) \<Rightarrow> config \<Rightarrow> int" where
  "mcachefs_config_run_post_umount_cmd run c = mcachefs_config_run_cmd run (cfg_post_umount_cmd c)"

section \<open>Settings\<close>

definition mcachefs_config_set_read_state :: "int \<Rightarrow> config \<Rightarrow> config" where
  "mcachefs_config_set_read_state rdstate c = c\<lparr>cfg_read_state := rdstate\<rparr>"

definition mcachefs_config_get_read_state :: "config \<Rightarrow> int" where
  "mcachefs_config_get_read_state c = cfg_read_state c"

definition mcachefs_config_set_write_state :: "int \<Rightarrow> config \<Rightarrow> config" where
  "mcachefs_config_set_write_state wrstate c = c\<lparr>cfg_write_state := wrstate\<rparr>"

definition mcachefs_config_get_write_state :: "config \<Rightarrow> int" where
  "mcachefs_config_get_write_state c = cfg_write_state c"

definition mcachefs_config_get_file_thread_interval :: "config \<Rightarrow> int" where
  "mcachefs_config_get_file_thread_interval c = cfg_file_thread_interval c"

definition mcachefs_config_set_file_thread_interval :: "int \<Rightarrow> config \<Rightarrow> config" where
  "mcachefs_config_set_file_thread_interval interval c = c\<lparr>cfg_file_thread_interval := interval\<rparr>"

definition mcachefs_config_get_file_ttl :: "config \<Rightarrow> int" where
  "mcachefs_config_get_file_ttl c = cfg_file_ttl c"

text \<open>A time to live outside the circular buffer of slices is refused.\<close>

definition mcachefs_config_set_file_ttl :: "int \<Rightarrow> config \<Rightarrow> config" where
  "mcachefs_config_set_file_ttl ttl c =
     (if 0 < ttl \<and> ttl < int timeslice_nb then c\<lparr>cfg_file_ttl := ttl\<rparr> else c)"

definition mcachefs_config_get_metadata_map_ttl :: "config \<Rightarrow> int" where
  "mcachefs_config_get_metadata_map_ttl c = cfg_metadata_map_ttl c"

definition mcachefs_config_set_metadata_map_ttl :: "int \<Rightarrow> config \<Rightarrow> config" where
  "mcachefs_config_set_metadata_map_ttl ttl c = c\<lparr>cfg_metadata_map_ttl := ttl\<rparr>"

definition mcachefs_config_get_transfer_max_rate :: "config \<Rightarrow> int" where
  "mcachefs_config_get_transfer_max_rate c = cfg_transfer_max_rate c"

definition mcachefs_config_set_transfer_max_rate :: "int \<Rightarrow> config \<Rightarrow> config" where
  "mcachefs_config_set_transfer_max_rate rate c = c\<lparr>cfg_transfer_max_rate := rate\<rparr>"

definition mcachefs_config_get_cache_prefix :: "config \<Rightarrow> string option" where
  "mcachefs_config_get_cache_prefix c = cfg_cache_prefix c"

text \<open>A prefix that starts with the mount point loses it, and the last slash goes.\<close>

definition mcachefs_config_set_cache_prefix :: "string option \<Rightarrow> config \<Rightarrow> config option" where
  "mcachefs_config_set_cache_prefix prefix c =
     (case prefix of
        None \<Rightarrow> Some c
      | Some prefix \<Rightarrow> do {
          mp \<leftarrow> cfg_mountpoint c;
          let prefix = (if strncmp_eq prefix mp (length mp) then drop (length mp) prefix else prefix)
          in do {
            p \<leftarrow> trim_last_separator prefix;
            Some (c\<lparr>cfg_cache_prefix := Some p\<rparr>)
          }
        })"

section \<open>Lemmas\<close>

lemma trim_last_separator_snoc:
  "trim_last_separator (p @ [c]) = Some (if c = CHR ''/'' then p else p @ [c])"
proof (induction p)
  case (Cons d p)
  then show ?case by (cases p) auto
qed simp

lemma trim_last_separator_eq:
  "trim_last_separator p = (if p = [] then None
     else Some (if last p = CHR ''/'' then butlast p else p))"
  by (cases p rule: rev_cases) (simp_all add: trim_last_separator_snoc)

lemma read_state_code_inject: "read_state_code a = read_state_code b \<Longrightarrow> a = b"
  by (cases a; cases b) simp_all

text \<open>An integer setting: what is set is read back when it is valid, and refused otherwise.\<close>

locale int_setting =
  fixes get_value :: "'c \<Rightarrow> int" and set_value :: "int \<Rightarrow> 'c \<Rightarrow> 'c" and valid_value :: "int \<Rightarrow> bool"
  assumes get_set: "valid_value v \<Longrightarrow> get_value (set_value v c) = v"
    and set_refused: "\<not> valid_value v \<Longrightarrow> set_value v c = c"
    and set_set: "valid_value v \<Longrightarrow> valid_value w \<Longrightarrow> set_value w (set_value v c) = set_value w c"
begin

lemma get_after: "get_value (set_value v c) = (if valid_value v then v else get_value c)"
  by (simp add: get_set set_refused)

lemma keeps_valid: "valid_value (get_value c) \<Longrightarrow> valid_value (get_value (set_value v c))"
  by (simp add: get_after)

lemma fold_set:
  "valid_value (get_value c) \<Longrightarrow> valid_value (get_value (fold set_value vs c))"
  by (induction vs arbitrary: c) (simp_all add: keeps_valid)

lemma set_idem: "set_value v (set_value v c) = set_value v c"
  by (cases "valid_value v") (simp_all add: set_set set_refused)

end

lemmas setting_defs = mcachefs_config_set_read_state_def mcachefs_config_get_read_state_def
  mcachefs_config_set_write_state_def mcachefs_config_get_write_state_def
  mcachefs_config_get_file_thread_interval_def mcachefs_config_set_file_thread_interval_def
  mcachefs_config_get_file_ttl_def mcachefs_config_set_file_ttl_def
  mcachefs_config_get_metadata_map_ttl_def mcachefs_config_set_metadata_map_ttl_def
  mcachefs_config_get_transfer_max_rate_def mcachefs_config_set_transfer_max_rate_def

interpretation rd: int_setting mcachefs_config_get_read_state mcachefs_config_set_read_state "\<lambda>_. True"
  by unfold_locales (simp_all add: setting_defs)

interpretation wr: int_setting mcachefs_config_get_write_state mcachefs_config_set_write_state "\<lambda>_. True"
  by unfold_locales (simp_all add: setting_defs)

interpretation interval: int_setting mcachefs_config_get_file_thread_interval
  mcachefs_config_set_file_thread_interval "\<lambda>_. True"
  by unfold_locales (simp_all add: setting_defs)

interpretation ttl: int_setting mcachefs_config_get_file_ttl mcachefs_config_set_file_ttl
  "\<lambda>v. 0 < v \<and> v < int timeslice_nb"
  by unfold_locales (auto simp: setting_defs)

interpretation map_ttl: int_setting mcachefs_config_get_metadata_map_ttl
  mcachefs_config_set_metadata_map_ttl "\<lambda>_. True"
  by unfold_locales (simp_all add: setting_defs)

interpretation rate: int_setting mcachefs_config_get_transfer_max_rate
  mcachefs_config_set_transfer_max_rate "\<lambda>_. True"
  by unfold_locales (simp_all add: setting_defs)

end
