(* ===== verification/Vops.thy ===== *)
theory Vops
  imports Vops_Buffer Config Meta_Ops
begin

text \<open>
  The virtual files of src/src/mcachefs-vops.c under /.mcachefs: opening one for reading builds
  its contents, releasing one opened for writing parses them and sets the value.  The state is
  the configuration and the rest of the process (\<open>'w\<close>), on which the actions of the file
  \<open>action\<close> run; the four builders of the listings are parameters.
\<close>

section \<open>Numbers in decimal\<close>

definition digit :: "nat \<Rightarrow> char" where
  "digit d = char_of (48 + d)"

fun show_nat :: "nat \<Rightarrow> string" where
  "show_nat n = (if n < 10 then [digit n] else show_nat (n div 10) @ [digit (n mod 10)])"

declare show_nat.simps [simp del]

text \<open>\<open>%d\<close>.\<close>

definition show_int :: "int \<Rightarrow> string" where
  "show_int i = (if i < 0 then CHR ''-'' # show_nat (nat (- i)) else show_nat (nat i))"

definition is_digit :: "char \<Rightarrow> bool" where
  "is_digit c \<longleftrightarrow> 48 \<le> byte_of c \<and> byte_of c \<le> 57"

definition is_space :: "char \<Rightarrow> bool" where
  "is_space c \<longleftrightarrow> byte_of c = 32 \<or> (9 \<le> byte_of c \<and> byte_of c \<le> 13)"

text \<open>
  \<open>atoi\<close> on a buffer, as the C library has it: the value of \<open>strtol\<close>, clamped to 64 bits,
  cut to 32.  Reading past the end of the buffer is a fault.
\<close>

fun skip_spaces :: "string \<Rightarrow> string option" where
  "skip_spaces [] = Bug"
| "skip_spaces (c # cs) = (if is_space c then skip_spaces cs else Some (c # cs))"

fun read_digits :: "int \<Rightarrow> string \<Rightarrow> int option" where
  "read_digits v [] = Bug"
| "read_digits v (c # cs) = (if is_digit c then read_digits (10 * v + int (byte_of c) - 48) cs else Some v)"

definition clamp_long :: "int \<Rightarrow> int" where
  "clamp_long v = max (- (2 ^ 63)) (min (2 ^ 63 - 1) v)"

definition atoi :: "string \<Rightarrow> int option" where
  "atoi b = do {
     b \<leftarrow> skip_spaces b;
     v \<leftarrow> (if hd b = CHR ''-'' then map_option uminus (read_digits 0 (tl b))
          else if hd b = CHR ''+'' then read_digits 0 (tl b)
          else read_digits 0 b);
     Some (signed_take_bit 31 (clamp_long v))
   }"

section \<open>C strings in a buffer\<close>

text \<open>\<open>strcmp(buffer, v) == 0\<close>; running past the end of the buffer is a fault.\<close>

fun strcmp_eq :: "string \<Rightarrow> string \<Rightarrow> bool option" where
  "strcmp_eq [] v = Bug"
| "strcmp_eq (c # cs) [] = Some (c = NUL)"
| "strcmp_eq (c # cs) (v # vs) = (if c = v then strcmp_eq cs vs else Some False)"

definition c_string :: "string \<Rightarrow> string option" where
  "c_string b = (if NUL \<in> set b then Some (takeWhile (\<lambda>c. c \<noteq> NUL) b) else Bug)"

text \<open>The first newline becomes the end of the string.\<close>

fun cut_first_line :: "string \<Rightarrow> string" where
  "cut_first_line [] = []"
| "cut_first_line (c # cs) = (if c = CHR 0x0A then NUL # cs else c # cut_first_line cs)"

definition vops_cleanup_first_line :: "mfile \<Rightarrow> mfile" where
  "vops_cleanup_first_line mvops = mvops\<lparr>mf_contents := map_option cut_first_line (mf_contents mvops)\<rparr>"

section \<open>The table of virtual files\<close>

record 'w vstate =
  v_config :: config
  v_world :: 'w

record 'w vops_proc =
  vp_name :: string
  vp_get_int :: "('w vstate \<Rightarrow> int) option"
  vp_set_int :: "(int \<Rightarrow> 'w vstate \<Rightarrow> 'w vstate option) option"
  vp_get_string :: "('w vstate \<Rightarrow> string option) option"
  vp_set_string :: "(string \<Rightarrow> 'w vstate \<Rightarrow> 'w vstate option) option"
  vp_int_string_map :: "string list option"
  vp_extern_build :: "('w vstate \<Rightarrow> mfile \<Rightarrow> mfile option) option"

definition read_state_names :: "string list" where
  "read_state_names = [''normal'', ''full'', ''handsup'', ''nocache'', ''quitting'']"

definition write_state_names :: "string list" where
  "write_state_names = [''cache'', ''flush'', ''force'']"

definition vops_action_names :: "string list" where
  "vops_action_names = [''none'', ''apply_journal'', ''flush_metadata'', ''cleanup_cache'', ''fill_cache_meta'']"

text \<open>What the table refers to in other files.\<close>

record 'w externs =
  x_journal_apply :: "'w vstate \<Rightarrow> 'w vstate option"
  x_metadata_flush :: "'w vstate \<Rightarrow> 'w vstate option"
  x_cleanup_backing :: "'w vstate \<Rightarrow> 'w vstate option"
  x_fill_meta :: "'w vstate \<Rightarrow> 'w vstate option"
  x_transfer_dump :: "'w vstate \<Rightarrow> mfile \<Rightarrow> mfile option"
  x_journal_dump :: "'w vstate \<Rightarrow> mfile \<Rightarrow> mfile option"
  x_metadata_dump :: "'w vstate \<Rightarrow> mfile \<Rightarrow> mfile option"
  x_timeslices_dump :: "'w vstate \<Rightarrow> mfile \<Rightarrow> mfile option"

text \<open>The calls, in the order of the names, and the NULL behind them.\<close>

definition vops_action_calls :: "'w externs \<Rightarrow> ('w vstate \<Rightarrow> 'w vstate option) option list" where
  "vops_action_calls x = [Some Some, Some (x_journal_apply x), Some (x_metadata_flush x),
     Some (x_cleanup_backing x), Some (x_fill_meta x), None]"

definition mcachefs_call_action :: "'w externs \<Rightarrow> int \<Rightarrow> 'w vstate \<Rightarrow> 'w vstate option" where
  "mcachefs_call_action x action s =
     (if 0 \<le> action \<and> action < int (length (vops_action_calls x))
      then (case vops_action_calls x ! nat action of Some call \<Rightarrow> call s | None \<Rightarrow> Some s)
      else Bug)"

definition mcachefs_get_default_action :: "'w vstate \<Rightarrow> int" where
  "mcachefs_get_default_action s = 0"

definition int_proc :: "string \<Rightarrow> (config \<Rightarrow> int) \<Rightarrow> (int \<Rightarrow> config \<Rightarrow> config) \<Rightarrow> string list option \<Rightarrow> 'w vops_proc" where
  "int_proc name getv setv names = \<lparr>vp_name = name, vp_get_int = Some (\<lambda>s. getv (v_config s)),
     vp_set_int = Some (\<lambda>v s. Some (s\<lparr>v_config := setv v (v_config s)\<rparr>)), vp_get_string = None,
     vp_set_string = None, vp_int_string_map = names, vp_extern_build = None\<rparr>"

definition build_proc :: "string \<Rightarrow> ('w vstate \<Rightarrow> mfile \<Rightarrow> mfile option) \<Rightarrow> 'w vops_proc" where
  "build_proc name b = \<lparr>vp_name = name, vp_get_int = None, vp_set_int = None, vp_get_string = None,
     vp_set_string = None, vp_int_string_map = None, vp_extern_build = Some b\<rparr>"

definition vops_procs :: "'w externs \<Rightarrow> 'w vops_proc list" where
  "vops_procs x = [
     int_proc ''read_state'' mcachefs_config_get_read_state mcachefs_config_set_read_state (Some read_state_names),
     int_proc ''write_state'' mcachefs_config_get_write_state mcachefs_config_set_write_state (Some write_state_names),
     int_proc ''file_thread_interval'' mcachefs_config_get_file_thread_interval mcachefs_config_set_file_thread_interval None,
     int_proc ''file_ttl'' mcachefs_config_get_file_ttl mcachefs_config_set_file_ttl None,
     int_proc ''metadata_map_ttl'' mcachefs_config_get_metadata_map_ttl mcachefs_config_set_metadata_map_ttl None,
     int_proc ''transfer_max_rate'' mcachefs_config_get_transfer_max_rate mcachefs_config_set_transfer_max_rate None,
     build_proc ''transfer'' (x_transfer_dump x),
     build_proc ''journal'' (x_journal_dump x),
     build_proc ''metadata'' (x_metadata_dump x),
     build_proc ''timeslices'' (x_timeslices_dump x),
     \<lparr>vp_name = ''cache_prefix'', vp_get_int = None, vp_set_int = None,
       vp_get_string = Some (\<lambda>s. mcachefs_config_get_cache_prefix (v_config s)),
       vp_set_string = Some (\<lambda>p s. do {
         c \<leftarrow> mcachefs_config_set_cache_prefix (Some p) (v_config s);
         Some (s\<lparr>v_config := c\<rparr>)
       }), vp_int_string_map = None, vp_extern_build = None\<rparr>,
     \<lparr>vp_name = ''action'', vp_get_int = Some mcachefs_get_default_action,
       vp_set_int = Some (mcachefs_call_action x), vp_get_string = None, vp_set_string = None,
       vp_int_string_map = Some vops_action_names, vp_extern_build = None\<rparr>]"

fun find_proc :: "string \<Rightarrow> 'w vops_proc list \<Rightarrow> 'w vops_proc option" where
  "find_proc file [] = None"
| "find_proc file (p # ps) = (if vp_name p = file then Some p else find_proc file ps)"

text \<open>The name behind \<open>/.mcachefs/\<close>: the path from its twelfth character on.\<close>

definition mcachefs_vops_proc_find :: "'w externs \<Rightarrow> mfile \<Rightarrow> 'w vops_proc option option" where
  "mcachefs_vops_proc_find x mvops = do {
     path \<leftarrow> mf_path mvops;
     if length path < 11 then Bug else Some (find_proc (drop 11 path) (vops_procs x))
   }"

section \<open>Building\<close>

text \<open>The names, the current one in brackets.\<close>

fun build_names :: "(nat \<Rightarrow> string) \<Rightarrow> int \<Rightarrow> mfile \<Rightarrow> nat \<Rightarrow> string list \<Rightarrow> mfile option" where
  "build_names junk v m valueindex [] = Some m"
| "build_names junk v m valueindex (n # ns) = do {
     m \<leftarrow> (if valueindex \<noteq> 0 then vops_write junk m '' '' else Some m);
     m \<leftarrow> (if v = int valueindex then vops_write junk m ''['' else Some m);
     m \<leftarrow> vops_write junk m n;
     m \<leftarrow> (if v = int valueindex then vops_write junk m '']'' else Some m);
     build_names junk v m (valueindex + 1) ns
   }"

definition vops_build_int_map :: "(nat \<Rightarrow> string) \<Rightarrow> mfile \<Rightarrow> int \<Rightarrow> string list \<Rightarrow> mfile option" where
  "vops_build_int_map junk mvops v names = do {
     m \<leftarrow> build_names junk v mvops 0 names;
     vops_write junk m [CHR 0x0A]
   }"

definition vops_build_int :: "(nat \<Rightarrow> string) \<Rightarrow> mfile \<Rightarrow> int \<Rightarrow> mfile option" where
  "vops_build_int junk mvops v = vops_write junk mvops (show_int v @ [CHR 0x0A])"

definition vops_build_string :: "(nat \<Rightarrow> string) \<Rightarrow> mfile \<Rightarrow> string option \<Rightarrow> mfile option" where
  "vops_build_string junk mvops v =
     (case v of Some w \<Rightarrow> vops_write junk mvops (w @ [CHR 0x0A]) | None \<Rightarrow> vops_write junk mvops [CHR 0x0A])"

definition mcachefs_vops_build ::
  "'w externs \<Rightarrow> (nat \<Rightarrow> string) \<Rightarrow> 'w vstate \<Rightarrow> mfile \<Rightarrow> mfile option" where
  "mcachefs_vops_build x junk s mvops =
     (if mf_contents mvops \<noteq> None then Some mvops
      else do {
        proc \<leftarrow> mcachefs_vops_proc_find x mvops;
        case proc of
          None \<Rightarrow> Some mvops
        | Some proc \<Rightarrow>
            (case vp_get_int proc of
               Some getv \<Rightarrow>
                 (case vp_int_string_map proc of
                    Some names \<Rightarrow> vops_build_int_map junk mvops (getv s) names
                  | None \<Rightarrow> vops_build_int junk mvops (getv s))
             | None \<Rightarrow>
                 (case vp_get_string proc of
                    Some getv \<Rightarrow> vops_build_string junk mvops (getv s)
                  | None \<Rightarrow>
                      (case vp_extern_build proc of
                         Some b \<Rightarrow> b s mvops
                       | None \<Rightarrow> Some mvops)))
      })"

section \<open>Parsing\<close>

fun match_names :: "string \<Rightarrow> nat \<Rightarrow> string list \<Rightarrow> int option" where
  "match_names b iter [] = Some (-1)"
| "match_names b iter (n # ns) = do {
     eq \<leftarrow> strcmp_eq b n;
     if eq then Some (int iter) else match_names b (iter + 1) ns
   }"

definition vops_parse_int_raw_map :: "mfile \<Rightarrow> string list \<Rightarrow> (mfile \<times> int) option" where
  "vops_parse_int_raw_map mvops values = do {
     let mvops = vops_cleanup_first_line mvops;
     b \<leftarrow> mf_contents mvops;
     v \<leftarrow> match_names b 0 values;
     Some (mvops, v)
   }"

definition vops_parse_int_map ::
  "mfile \<Rightarrow> string list \<Rightarrow> (int \<Rightarrow> 's \<Rightarrow> 's option) \<Rightarrow> 's \<Rightarrow> (mfile \<times> 's) option" where
  "vops_parse_int_map mvops names setv s = do {
     (mvops, v) \<leftarrow> vops_parse_int_raw_map mvops names;
     s \<leftarrow> (if v \<noteq> -1 then setv v s else Some s);
     Some (mvops, s)
   }"

definition vops_parse_int :: "mfile \<Rightarrow> (int \<Rightarrow> 's \<Rightarrow> 's option) \<Rightarrow> 's \<Rightarrow> (mfile \<times> 's) option" where
  "vops_parse_int mvops setv s = do {
     let mvops = vops_cleanup_first_line mvops;
     b \<leftarrow> mf_contents mvops;
     result \<leftarrow> atoi b;
     s \<leftarrow> setv result s;
     Some (mvops, s)
   }"

text \<open>The setter gets the buffer; a NULL buffer it ignores.\<close>

definition vops_parse_string :: "mfile \<Rightarrow> (string \<Rightarrow> 's \<Rightarrow> 's option) \<Rightarrow> 's \<Rightarrow> (mfile \<times> 's) option" where
  "vops_parse_string mvops setv s = do {
     let mvops = vops_cleanup_first_line mvops;
     s \<leftarrow> (case mf_contents mvops of
            None \<Rightarrow> Some s
          | Some b \<Rightarrow> do { p \<leftarrow> c_string b; setv p s });
     Some (mvops, s)
   }"

definition mcachefs_vops_parse :: "'w externs \<Rightarrow> mfile \<Rightarrow> 'w vstate \<Rightarrow> (mfile \<times> 'w vstate) option" where
  "mcachefs_vops_parse x mvops s = do {
     proc \<leftarrow> mcachefs_vops_proc_find x mvops;
     case proc of
       None \<Rightarrow> Some (mvops, s)
     | Some proc \<Rightarrow>
         (case vp_set_int proc of
            Some setv \<Rightarrow>
              (case vp_int_string_map proc of
                 Some names \<Rightarrow> vops_parse_int_map mvops names setv s
               | None \<Rightarrow> vops_parse_int mvops setv s)
          | None \<Rightarrow>
              (case vp_set_string proc of
                 Some setv \<Rightarrow> vops_parse_string mvops setv s
               | None \<Rightarrow> Some (mvops, s)))
   }"

end
