(* ===== verification/Vops_Text.thy ===== *)
theory Vops_Text
  imports Vops
begin

text \<open>
  What the virtual files read and write: decimal numbers are read back, names select their
  index, and the file of a setting is built with its value and parsed back to it.
\<close>

section \<open>Decimal numbers\<close>

lemma byte_digit: "d < 10 \<Longrightarrow> byte_of (digit d) = 48 + d"
  by (simp add: digit_def)

lemma is_digit_digit: "d < 10 \<Longrightarrow> is_digit (digit d)"
  by (simp add: is_digit_def byte_digit)

lemma read_digits_show:
  "read_digits v (show_nat n @ rest) = read_digits (v * 10 ^ length (show_nat n) + int n) rest"
proof (induction n arbitrary: v rest rule: show_nat.induct)
  case (1 n)
  show ?case
  proof (cases "n < 10")
    case True
    then show ?thesis by (simp add: show_nat.simps [of n] is_digit_digit byte_digit algebra_simps)
  next
    case False
    let ?w = "show_nat (n div 10)"
    have w: "show_nat n = ?w @ [digit (n mod 10)]" using False by (simp add: show_nat.simps [of n])
    have "read_digits v (show_nat n @ rest) =
        read_digits (v * 10 ^ length ?w + int (n div 10)) (digit (n mod 10) # rest)"
      using 1 [OF False, of v "digit (n mod 10) # rest"] w by simp
    also have "\<dots> = read_digits (10 * (v * 10 ^ length ?w + int (n div 10)) + int (n mod 10)) rest"
      by (simp add: is_digit_digit byte_digit algebra_simps)
    also have "10 * (v * 10 ^ length ?w + int (n div 10)) + int (n mod 10) = v * 10 ^ length (show_nat n) + int n"
      unfolding w by (simp add: algebra_simps) (simp flip: of_nat_mod of_nat_div add: zdiv_int zmod_int)
    finally show ?thesis .
  qed
qed

lemma show_nat_hd: "\<exists>d cs. d < 10 \<and> show_nat n = digit d # cs"
proof (induction n rule: show_nat.induct)
  case (1 n)
  then show ?case by (cases "n < 10") (auto simp: show_nat.simps [of n])
qed

lemma digit_not:
  assumes "d < 10" shows "\<not> is_space (digit d)" "digit d \<noteq> CHR ''-''" "digit d \<noteq> CHR ''+''"
    "digit d \<noteq> NUL" "digit d \<noteq> CHR 0x0A"
  using byte_digit [OF assms] assms by (auto simp: is_space_def)

lemma clamp_small: "- (2 ^ 31) \<le> i \<Longrightarrow> i < 2 ^ 31 \<Longrightarrow> signed_take_bit 31 (clamp_long i) = i"
  by (simp add: clamp_long_def signed_take_bit_int_eq_self_iff min_def max_def)

text \<open>Any \<open>int\<close> printed is read back.\<close>

lemma atoi_show:
  assumes "- (2 ^ 31) \<le> i" "i < 2 ^ 31" "\<not> is_digit c"
  shows "atoi (show_int i @ c # rest) = Some i"
proof (cases "i < 0")
  case True
  have "skip_spaces (show_int i @ c # rest) = Some (show_int i @ c # rest)"
    using True by (simp add: show_int_def is_space_def)
  moreover have "read_digits 0 (show_nat (nat (- i)) @ c # rest) = Some (- i)"
    using True assms(3) by (simp add: read_digits_show)
  ultimately show ?thesis
    using True clamp_small [OF assms(1,2)] by (simp add: atoi_def show_int_def)
next
  case False
  obtain d cs where d: "d < 10" "show_nat (nat i) = digit d # cs" using show_nat_hd by blast
  have "skip_spaces (show_int i @ c # rest) = Some (show_int i @ c # rest)"
    using False d digit_not [OF d(1)] by (simp add: show_int_def)
  moreover have "read_digits 0 (show_nat (nat i) @ c # rest) = Some i"
    using False assms(3) by (simp add: read_digits_show)
  ultimately show ?thesis
    using False d digit_not [OF d(1)] clamp_small [OF assms(1,2)]
    by (simp add: atoi_def show_int_def)
qed

section \<open>First lines\<close>

lemma cut_first_line_no_newline: "CHR 0x0A \<notin> set w \<Longrightarrow> cut_first_line w = w"
  by (induction w) auto

lemma cut_first_line_append:
  "CHR 0x0A \<notin> set w \<Longrightarrow> cut_first_line (w @ CHR 0x0A # rest) = w @ NUL # rest"
  by (induction w) auto

lemma show_nat_no_newline: "CHR 0x0A \<notin> set (show_nat n)"
proof (induction n rule: show_nat.induct)
  case (1 n)
  have "digit (n mod 10) \<noteq> CHR 0x0A" by (rule digit_not) simp
  with 1 digit_not(5) [of n] show ?case by (cases "n < 10") (auto simp: show_nat.simps [of n])
qed

lemma show_int_no_newline: "CHR 0x0A \<notin> set (show_int i)"
  using show_nat_no_newline by (simp add: show_int_def)

section \<open>Names\<close>

lemma strcmp_eq_string:
  "NUL \<notin> set w \<Longrightarrow> NUL \<notin> set v \<Longrightarrow> strcmp_eq (w @ NUL # rest) v = Some (w = v)"
proof (induction w arbitrary: v)
  case Nil
  then show ?case by (cases v) auto
next
  case (Cons c w)
  then show ?case by (cases v) auto
qed

text \<open>Comparing a name with an equal buffer that has no terminator runs past its end.\<close>

lemma strcmp_eq_overrun: "strcmp_eq v v = None"
  by (induction v) auto

lemma strcmp_eq_differ: "length w < length v \<or> take (length v) w \<noteq> v \<Longrightarrow> strcmp_eq w v \<noteq> Some True"
proof (induction w arbitrary: v)
  case (Cons c w)
  then show ?case by (cases v) (auto split: if_splits)
qed simp

fun position :: "string \<Rightarrow> nat \<Rightarrow> string list \<Rightarrow> int" where
  "position w i [] = -1"
| "position w i (n # ns) = (if w = n then int i else position w (i + 1) ns)"

lemma match_names_position:
  "NUL \<notin> set w \<Longrightarrow> \<forall>n\<in>set ns. NUL \<notin> set n \<Longrightarrow> match_names (w @ NUL # rest) i ns = Some (position w i ns)"
  by (induction ns arbitrary: i) (auto simp: strcmp_eq_string)

lemma position_nth:
  "distinct ns \<Longrightarrow> k < length ns \<Longrightarrow> position (ns ! k) i ns = int (i + k)"
proof (induction ns arbitrary: i k)
  case (Cons n ns)
  then show ?case by (cases k) auto
qed simp

lemma position_absent: "w \<notin> set ns \<Longrightarrow> position w i ns = -1"
  by (induction ns arbitrary: i) auto

section \<open>Parsing a line\<close>

text \<open>A buffer whose first line is \<open>w\<close>.\<close>

definition first_line :: "mfile \<Rightarrow> string \<Rightarrow> bool" where
  "first_line m w \<longleftrightarrow> CHR 0x0A \<notin> set w \<and> NUL \<notin> set w \<and> (\<exists>rest. mf_contents m = Some (w @ CHR 0x0A # rest))"

lemma first_line_cut:
  "first_line m w \<Longrightarrow> \<exists>rest. mf_contents (vops_cleanup_first_line m) = Some (w @ NUL # rest)"
  by (auto simp: first_line_def vops_cleanup_first_line_def cut_first_line_append)

lemma parse_int_line:
  assumes "first_line m (show_int i)" "- (2 ^ 31) \<le> i" "i < 2 ^ 31"
  shows "vops_parse_int m setv s = map_option (Pair (vops_cleanup_first_line m)) (setv i s)"
proof -
  obtain rest where "mf_contents (vops_cleanup_first_line m) = Some (show_int i @ NUL # rest)"
    using first_line_cut [OF assms(1)] by blast
  moreover have "\<not> is_digit NUL" by (simp add: is_digit_def)
  ultimately show ?thesis
    using atoi_show [OF assms(2,3)] by (simp add: vops_parse_int_def map_conv_bind_option comp_def)
qed

lemma parse_names_line:
  assumes "first_line m w" "\<forall>n\<in>set names. NUL \<notin> set n"
  shows "vops_parse_int_map m names setv s =
    (if w \<in> set names then map_option (Pair (vops_cleanup_first_line m)) (setv (position w 0 names) s)
     else Some (vops_cleanup_first_line m, s))"
proof -
  obtain rest where b: "mf_contents (vops_cleanup_first_line m) = Some (w @ NUL # rest)"
    using first_line_cut [OF assms(1)] by blast
  have w: "NUL \<notin> set w" using assms(1) by (simp add: first_line_def)
  have "position w i ns \<noteq> -1" if "w \<in> set ns" for i ns
    using that by (induction ns arbitrary: i) auto
  with b match_names_position [OF w assms(2)] position_absent [of w names 0] show ?thesis
    by (simp add: vops_parse_int_map_def vops_parse_int_raw_map_def map_conv_bind_option comp_def)
qed

section \<open>The building of the lists\<close>

definition bracketed :: "int \<Rightarrow> nat \<Rightarrow> string \<Rightarrow> string" where
  "bracketed v i n = (if v = int i then ''['' @ n @ '']'' else n)"

definition names_text :: "int \<Rightarrow> nat \<Rightarrow> string list \<Rightarrow> string" where
  "names_text v i ns = concat (map (\<lambda>(k, n). (if k \<noteq> 0 then '' '' else []) @ bracketed v k n) (zip [i..<i + length ns] ns))"

lemma names_text_Cons:
  "names_text v i (n # ns) = (if i \<noteq> 0 then '' '' else []) @ bracketed v i n @ names_text v (Suc i) ns"
  by (simp add: names_text_def upt_conv_Cons del: upt_Suc)

lemma maybe_write:
  assumes "vops_ok m" "w \<noteq> []"
  shows "\<exists>m'. (if b then vops_write junk m w else Some m) = Some m' \<and> vops_ok m' \<and>
    vops_text m' = vops_text m @ (if b then w else []) \<and> mf_path m' = mf_path m"
  using vops_write_ok [OF assms, of junk] assms by auto

lemma build_names_ok:
  assumes "vops_ok m" "\<forall>n\<in>set ns. n \<noteq> []"
  shows "\<exists>m'. build_names junk v m i ns = Some m' \<and> vops_ok m' \<and>
    vops_text m' = vops_text m @ names_text v i ns \<and> mf_path m' = mf_path m"
  using assms
proof (induction ns arbitrary: m i)
  case Nil
  then show ?case by (simp add: names_text_def)
next
  case (Cons n ns)
  obtain m1 where m1: "(if i \<noteq> 0 then vops_write junk m '' '' else Some m) = Some m1" "vops_ok m1"
    "vops_text m1 = vops_text m @ (if i \<noteq> 0 then '' '' else [])" "mf_path m1 = mf_path m"
    using maybe_write [OF Cons.prems(1), of "'' ''" "i \<noteq> 0" junk] by auto
  obtain m2 where m2: "(if v = int i then vops_write junk m1 ''['' else Some m1) = Some m2" "vops_ok m2"
    "vops_text m2 = vops_text m1 @ (if v = int i then ''['' else [])" "mf_path m2 = mf_path m1"
    using maybe_write [OF m1(2), of "''[''" "v = int i" junk] by auto
  obtain m3 where m3: "vops_write junk m2 n = Some m3" "vops_ok m3" "vops_text m3 = vops_text m2 @ n"
    "mf_path m3 = mf_path m2"
    using vops_write_ok [OF m2(2), of n junk] Cons.prems(2) by auto
  obtain m4 where m4: "(if v = int i then vops_write junk m3 '']'' else Some m3) = Some m4" "vops_ok m4"
    "vops_text m4 = vops_text m3 @ (if v = int i then '']'' else [])" "mf_path m4 = mf_path m3"
    using maybe_write [OF m3(2), of "'']''" "v = int i" junk] by auto
  have "build_names junk v m i (n # ns) = build_names junk v m4 (i + 1) ns"
    using m1(1) m2(1) m3(1) m4(1) by (simp only: build_names.simps bind.simps)
  moreover obtain m' where "build_names junk v m4 (i + 1) ns = Some m'" "vops_ok m'"
    "vops_text m' = vops_text m4 @ names_text v (i + 1) ns" "mf_path m' = mf_path m4"
    using Cons.IH [OF m4(2), of "i + 1"] Cons.prems(2) by auto
  ultimately show ?case
    using m1(3,4) m2(3,4) m3(3,4) m4(3,4) by (simp add: names_text_Cons bracketed_def)
qed

lemma build_int_map_ok:
  assumes "vops_ok m" "\<forall>n\<in>set ns. n \<noteq> []"
  shows "\<exists>m'. vops_build_int_map junk m v ns = Some m' \<and> vops_ok m' \<and>
    vops_text m' = vops_text m @ names_text v 0 ns @ [CHR 0x0A]"
proof -
  obtain m1 where m1: "build_names junk v m 0 ns = Some m1" "vops_ok m1"
    "vops_text m1 = vops_text m @ names_text v 0 ns"
    using build_names_ok [OF assms] by blast
  with vops_write_ok [OF m1(2), of "[CHR 0x0A]" junk] show ?thesis
    by (auto simp: vops_build_int_map_def)
qed

lemma build_int_ok:
  assumes "vops_ok m"
  shows "\<exists>m'. vops_build_int junk m v = Some m' \<and> vops_ok m' \<and>
    vops_text m' = vops_text m @ show_int v @ [CHR 0x0A] \<and> mf_path m' = mf_path m \<and> mf_contents m' \<noteq> None"
  using vops_write_ok [OF assms, of "show_int v @ [CHR 0x0A]" junk] by (auto simp: vops_build_int_def)

text \<open>A built number is a first line.\<close>

lemma text_first_line:
  assumes "vops_ok m" "vops_text m = w @ CHR 0x0A # r" "CHR 0x0A \<notin> set w" "NUL \<notin> set w"
  shows "first_line m w"
proof -
  obtain b where b: "mf_contents m = Some b"
    using assms(2) by (cases "mf_contents m") (auto simp: vops_text_def)
  then have "take (mf_contents_size m) b = w @ CHR 0x0A # r" using assms(2) by (simp add: vops_text_def)
  then have "b = w @ CHR 0x0A # (r @ drop (mf_contents_size m) b)"
    by (metis append_Cons append_assoc append_take_drop_id)
  with assms(3,4) b show ?thesis unfolding first_line_def by (metis option.inject)
qed

lemma show_int_no_nul: "NUL \<notin> set (show_int i)"
proof -
  have "NUL \<notin> set (show_nat n)" for n
  proof (induction n rule: show_nat.induct)
    case (1 n)
    have "digit (n mod 10) \<noteq> NUL" by (rule digit_not) simp
    with 1 digit_not(4) [of n] show ?case by (cases "n < 10") (auto simp: show_nat.simps [of n])
  qed
  then show ?thesis by (simp add: show_int_def)
qed

section \<open>The table\<close>

lemma proc_find_prefix:
  "mf_path m = Some (''/.mcachefs/'' @ name) \<Longrightarrow>
   mcachefs_vops_proc_find x m = Some (find_proc name (vops_procs x))"
  by (simp add: mcachefs_vops_proc_find_def)

lemma find_proc_settings:
  "find_proc ''read_state'' (vops_procs x) = Some (int_proc ''read_state'' mcachefs_config_get_read_state
     mcachefs_config_set_read_state (Some read_state_names))"
  "find_proc ''write_state'' (vops_procs x) = Some (int_proc ''write_state'' mcachefs_config_get_write_state
     mcachefs_config_set_write_state (Some write_state_names))"
  "find_proc ''file_thread_interval'' (vops_procs x) = Some (int_proc ''file_thread_interval''
     mcachefs_config_get_file_thread_interval mcachefs_config_set_file_thread_interval None)"
  "find_proc ''file_ttl'' (vops_procs x) = Some (int_proc ''file_ttl'' mcachefs_config_get_file_ttl
     mcachefs_config_set_file_ttl None)"
  "find_proc ''metadata_map_ttl'' (vops_procs x) = Some (int_proc ''metadata_map_ttl''
     mcachefs_config_get_metadata_map_ttl mcachefs_config_set_metadata_map_ttl None)"
  "find_proc ''transfer_max_rate'' (vops_procs x) = Some (int_proc ''transfer_max_rate''
     mcachefs_config_get_transfer_max_rate mcachefs_config_set_transfer_max_rate None)"
  by (simp_all add: vops_procs_def int_proc_def build_proc_def)

lemma find_proc_action:
  "find_proc ''action'' (vops_procs x) = Some \<lparr>vp_name = ''action'',
     vp_get_int = Some mcachefs_get_default_action, vp_set_int = Some (mcachefs_call_action x),
     vp_get_string = None, vp_set_string = None, vp_int_string_map = Some vops_action_names,
     vp_extern_build = None\<rparr>"
  by (simp add: vops_procs_def int_proc_def build_proc_def)

text \<open>The table has the names of the files that the metadata creates.\<close>

lemma vops_procs_names: "map vp_name (vops_procs x) = mcachefs_vops_get_vops_list"
  by (simp add: vops_procs_def int_proc_def build_proc_def mcachefs_vops_get_vops_list_def)

lemma parse_int_proc:
  assumes "mcachefs_vops_proc_find x m = Some (Some (int_proc name getv setv names))"
  shows "mcachefs_vops_parse x m s =
    (case names of
       Some ns \<Rightarrow> vops_parse_int_map m ns (\<lambda>v s. Some (s\<lparr>v_config := setv v (v_config s)\<rparr>)) s
     | None \<Rightarrow> vops_parse_int m (\<lambda>v s. Some (s\<lparr>v_config := setv v (v_config s)\<rparr>)) s)"
  by (simp add: mcachefs_vops_parse_def assms) (simp add: int_proc_def)

lemma parse_action_proc:
  assumes "mcachefs_vops_proc_find x m = Some (find_proc ''action'' (vops_procs x))"
  shows "mcachefs_vops_parse x m s = vops_parse_int_map m vops_action_names (mcachefs_call_action x) s"
  by (simp add: mcachefs_vops_parse_def assms find_proc_action)

end
