(* ===== verification/Props_Vops.thy ===== *)
theory Props_Vops
  imports Vops_Text
begin

text \<open>
  The properties of the virtual files and of the configuration behind them.
\<close>

section \<open>Samples\<close>

definition no_externs :: "unit externs" where
  "no_externs = \<lparr>x_journal_apply = Some, x_metadata_flush = Some, x_cleanup_backing = Some,
     x_fill_meta = Some, x_transfer_dump = (\<lambda>s. Some), x_journal_dump = (\<lambda>s. Some),
     x_metadata_dump = (\<lambda>s. Some), x_timeslices_dump = (\<lambda>s. Some)\<rparr>"

definition sample_vstate :: "unit vstate" where
  "sample_vstate = \<lparr>v_config = initial_config\<lparr>cfg_mountpoint := Some ''/mnt''\<rparr>, v_world = ()\<rparr>"

definition vops_file :: "string \<Rightarrow> string option \<Rightarrow> mfile" where
  "vops_file name b = zero_mfile\<lparr>mf_path := Some (''/.mcachefs/'' @ name), mf_type := VopsType, mf_contents := b,
     mf_contents_size := (case b of None \<Rightarrow> 0 | Some b \<Rightarrow> length b),
     mf_contents_alloced := (case b of None \<Rightarrow> 0 | Some b \<Rightarrow> length b)\<rparr>"

definition memory :: "nat \<Rightarrow> string" where
  "memory n = replicate n CHR ''?''"

lemmas sample_vops_defs = no_externs_def sample_vstate_def vops_file_def memory_def zero_mfile_def

section \<open>The buffer\<close>

text \<open>Printing a non-empty text into the buffer of a virtual file always returns, whatever the
  memory holds, and appends the text.\<close>

theorem vops_write_appends:
  assumes "vops_ok m" "w \<noteq> []"
  shows "\<exists>m'. vops_write junk m w = Some m' \<and> vops_ok m' \<and> vops_text m' = vops_text m @ w"
  using vops_write_ok [OF assms] by blast

lemma vops_write_appends_witness:
  "\<exists>m'. vops_write memory (vops_file ''journal'' (Some ''ab'')) ''cd'' = Some m' \<and> vops_ok m' \<and>
    vops_text m' = vops_text (vops_file ''journal'' (Some ''ab'')) @ ''cd''"
  by (rule vops_write_appends) (simp_all add: vops_ok_def sample_vops_defs)

text \<open>What a write at an offset stores, a read of the same length at that offset returns, for
  any state of the buffer.\<close>

theorem vops_write_read:
  assumes "vops_ok m" "buf \<noteq> []"
  shows "\<exists>m'. mcachefs_write_vops junk m buf off = Some (m', length buf) \<and> vops_ok m' \<and>
    mcachefs_read_vops m' (length buf) off = Some buf"
proof -
  let ?m = "if off + length buf > mf_contents_alloced m
    then m\<lparr>mf_contents_alloced := off + length buf,
      mf_contents := Some (realloc junk (mf_contents m) (off + length buf))\<rparr> else m"
  have "0 < length buf" using assms(2) by simp
  with assms(1) have "\<exists>b. mf_contents ?m = Some b \<and> length b = mf_contents_alloced ?m \<and>
    off + length buf \<le> length b \<and> mf_contents_size ?m \<le> length b"
    by (cases "mf_contents m") (simp_all add: vops_ok_def length_realloc)
  then obtain b where b: "mf_contents ?m = Some b" "length b = mf_contents_alloced ?m"
    "off + length buf \<le> length b" "mf_contents_size ?m \<le> length b" by blast
  define n where "n = max (mf_contents_size ?m) (off + length buf)"
  let ?w = "?m\<lparr>mf_contents := Some (take off b @ buf @ drop (off + length buf) b), mf_contents_size := n\<rparr>"
  have "mcachefs_write_vops junk m buf off = Some (?w, length buf)"
    using b(1,3) unfolding mcachefs_write_vops_def Let_def by (simp add: n_def max_def)
  moreover have "vops_ok ?w" using b by (simp add: vops_ok_def n_def)
  moreover have n: "off + length buf \<le> n" by (simp add: n_def)
  with \<open>0 < length buf\<close> have "\<not> n \<le> off" by linarith
  with n have "mcachefs_read_vops ?w (length buf) off = Some buf"
    using b(3) by (simp add: mcachefs_read_vops_def le_diff_conv2)
  ultimately show ?thesis by blast
qed

lemma vops_write_read_witness:
  "\<exists>m'. mcachefs_write_vops memory (vops_file ''action'' None) ''none'' 3 = Some (m', length ''none'') \<and>
    vops_ok m' \<and> mcachefs_read_vops m' (length ''none'') 3 = Some ''none''"
  by (rule vops_write_read) (simp_all add: vops_ok_def sample_vops_defs)

section \<open>The settings\<close>

text \<open>The integer settings by the names of their files.\<close>

definition setting_value :: "string \<Rightarrow> config \<Rightarrow> int" where
  "setting_value name c =
     (if name = ''file_thread_interval'' then cfg_file_thread_interval c
      else if name = ''file_ttl'' then cfg_file_ttl c
      else if name = ''metadata_map_ttl'' then cfg_metadata_map_ttl c
      else cfg_transfer_max_rate c)"

definition setting_names :: "string list" where
  "setting_names = [''file_thread_interval'', ''file_ttl'', ''metadata_map_ttl'', ''transfer_max_rate'']"

lemma int_setting_proc:
  assumes "name \<in> set setting_names" "mf_path m = Some (''/.mcachefs/'' @ name)"
  obtains getv setv where
    "mcachefs_vops_proc_find x m = Some (Some (int_proc name getv setv None))"
    "\<And>c. getv c = setting_value name c"
    "\<And>c v. name \<noteq> ''file_ttl'' \<or> 0 < v \<and> v < int timeslice_nb \<Longrightarrow> setting_value name (setv v c) = v"
proof -
  note p = proc_find_prefix [OF assms(2), of x]
  consider "name = ''file_thread_interval''" | "name = ''file_ttl''" | "name = ''metadata_map_ttl''"
    | "name = ''transfer_max_rate''" using assms(1) unfolding setting_names_def list.set by blast
  then show thesis
  proof cases
    case 1
    show ?thesis
      by (rule that [of mcachefs_config_get_file_thread_interval mcachefs_config_set_file_thread_interval])
        (simp_all add: 1 p find_proc_settings setting_value_def setting_defs)
  next
    case 2
    show ?thesis
      by (rule that [of mcachefs_config_get_file_ttl mcachefs_config_set_file_ttl])
        (simp_all add: 2 p find_proc_settings setting_value_def setting_defs)
  next
    case 3
    show ?thesis
      by (rule that [of mcachefs_config_get_metadata_map_ttl mcachefs_config_set_metadata_map_ttl])
        (simp_all add: 3 p find_proc_settings setting_value_def setting_defs)
  next
    case 4
    show ?thesis
      by (rule that [of mcachefs_config_get_transfer_max_rate mcachefs_config_set_transfer_max_rate])
        (simp_all add: 4 p find_proc_settings setting_value_def setting_defs)
  qed
qed

text \<open>C16: Writing back what the file of an integer setting shows restores the setting, from any
  later configuration: the number is printed and read back without loss.\<close>

theorem setting_file_roundtrip:
  assumes "name \<in> set setting_names" "mf_path m = Some (''/.mcachefs/'' @ name)" "mf_contents m = None"
    "vops_ok m" "v = setting_value name (v_config s)" "- (2 ^ 31) \<le> v" "v < 2 ^ 31"
    "name \<noteq> ''file_ttl'' \<or> 0 < v \<and> v < int timeslice_nb"
  shows "\<exists>m1 m2 s2. mcachefs_vops_build x junk s m = Some m1 \<and>
    vops_text m1 = show_int v @ [CHR 0x0A] \<and>
    mcachefs_vops_parse x m1 s1 = Some (m2, s2) \<and> setting_value name (v_config s2) = v"
proof -
  obtain getv setv where p: "mcachefs_vops_proc_find x m = Some (Some (int_proc name getv setv None))"
      "getv (v_config s) = v" "setting_value name (setv v (v_config s1)) = v"
    using int_setting_proc [OF assms(1,2), of x] assms(5,8) by metis
  have "vops_text m = []" using assms(3) by (simp add: vops_text_def)
  then obtain m1 where m1: "vops_build_int junk m v = Some m1" "vops_ok m1"
      "vops_text m1 = show_int v @ [CHR 0x0A]" "mf_path m1 = mf_path m"
    using build_int_ok [OF assms(4)] by auto
  have "mcachefs_vops_build x junk s m = Some m1"
    using p m1(1) assms(3) by (simp add: mcachefs_vops_build_def int_proc_def)
  moreover have "mcachefs_vops_proc_find x m1 = mcachefs_vops_proc_find x m"
    by (simp add: mcachefs_vops_proc_find_def m1(4))
  moreover have line: "first_line m1 (show_int v)"
    using text_first_line [OF m1(2), of "show_int v" "[]"] m1(3) show_int_no_newline show_int_no_nul by simp
  have "mcachefs_vops_parse x m1 s1 =
      Some (vops_cleanup_first_line m1, s1\<lparr>v_config := setv v (v_config s1)\<rparr>)"
    using p(1) calculation(2) parse_int_proc [of x m1 name getv setv None s1]
    by (simp add: parse_int_line [OF line assms(6,7)])
  ultimately show ?thesis using m1(3) p(3) by simp
qed

lemma setting_file_roundtrip_witness:
  "\<exists>m1 m2 s2. mcachefs_vops_build no_externs memory sample_vstate (vops_file ''file_ttl'' None) = Some m1 \<and>
    vops_text m1 = show_int 300 @ [CHR 0x0A] \<and>
    mcachefs_vops_parse no_externs m1 sample_vstate = Some (m2, s2) \<and>
    setting_value ''file_ttl'' (v_config s2) = 300"
  by (rule setting_file_roundtrip)
    (simp_all add: setting_names_def sample_vops_defs vops_ok_def setting_value_def initial_config_def timeslice_nb_def)

text \<open>C17: A line written to the file of the read state selects the state of that name by its
  number, and any other line changes nothing.\<close>

theorem read_state_file_selects:
  assumes "mf_path m = Some ''/.mcachefs/read_state''" "first_line m w"
  shows "\<exists>m'. mcachefs_vops_parse x m s = Some (m',
    if w \<in> set read_state_names
    then s\<lparr>v_config := mcachefs_config_set_read_state (position w 0 read_state_names) (v_config s)\<rparr> else s)"
proof -
  have "mcachefs_vops_proc_find x m = Some (Some (int_proc ''read_state'' mcachefs_config_get_read_state
      mcachefs_config_set_read_state (Some read_state_names)))"
    using proc_find_prefix [of m "''read_state''" x] assms(1) by (simp add: find_proc_settings)
  moreover have "\<forall>n\<in>set read_state_names. NUL \<notin> set n" by (simp add: read_state_names_def)
  ultimately show ?thesis
    by (simp add: parse_int_proc parse_names_line [OF assms(2)])
qed

lemma read_state_file_selects_witness:
  "\<exists>m'. mcachefs_vops_parse no_externs (vops_file ''read_state'' (Some (''full'' @ [CHR 0x0A]))) sample_vstate =
    Some (m', if ''full'' \<in> set read_state_names
      then sample_vstate\<lparr>v_config := mcachefs_config_set_read_state (position ''full'' 0 read_state_names)
        (v_config sample_vstate)\<rparr> else sample_vstate)"
  by (rule read_state_file_selects) (simp_all add: first_line_def sample_vops_defs)

text \<open>The name of a state or of an action written without a newline, as the first write to the
  file, makes the comparison run past the end of the buffer.\<close>

theorem unterminated_name_overruns:
  assumes "mf_path m = Some (''/.mcachefs/'' @ nm)"
    "(nm, names) \<in> {(''read_state'', read_state_names), (''write_state'', write_state_names), (''action'', vops_action_names)}"
    "w \<in> set names" "mf_contents m = Some w"
  shows "mcachefs_vops_parse x m s = None"
proof -
  have differ: "strcmp_eq a b \<noteq> Some True" if "NUL \<notin> set a" for a b :: string
    using that by (induction a b rule: strcmp_eq.induct) auto
  have none: "match_names a i ns = None" if "NUL \<notin> set a" "a \<in> set ns" for a i ns
    using that(2) differ [OF that(1)]
  proof (induction ns arbitrary: i)
    case (Cons n ns)
    then show ?case by (cases "strcmp_eq a n") (auto simp: strcmp_eq_overrun)
  qed simp
  have w: "NUL \<notin> set w" "CHR 0x0A \<notin> set w"
    using assms(2,3) by (auto simp: read_state_names_def write_state_names_def vops_action_names_def)
  then have "mf_contents (vops_cleanup_first_line m) = Some w"
    using assms(4) by (simp add: vops_cleanup_first_line_def cut_first_line_no_newline)
  then have "vops_parse_int_map m names setv s = None" for setv :: "int \<Rightarrow> 'a vstate \<Rightarrow> 'a vstate option"
    using none [OF w(1) assms(3)] by (simp add: vops_parse_int_map_def vops_parse_int_raw_map_def)
  then show ?thesis
    using assms(2) proc_find_prefix [OF assms(1), of x]
    by (auto simp: find_proc_settings parse_int_proc parse_action_proc)
qed

lemma unterminated_name_overruns_witness:
  "mcachefs_vops_parse no_externs (vops_file ''read_state'' (Some ''full'')) sample_vstate = None"
  by (rule unterminated_name_overruns [where names = read_state_names and w = "''full''" and nm = "''read_state''"])
    (simp_all add: sample_vops_defs read_state_names_def)

text \<open>Releasing the file of an integer setting or of a state that was opened for writing and
  into which nothing was written reads through a NULL pointer.\<close>

theorem empty_write_crashes:
  assumes "mf_path m = Some (''/.mcachefs/'' @ nm)" "mf_contents m = None"
    "nm \<in> set (setting_names @ [''read_state'', ''write_state'', ''action''])"
  shows "mcachefs_vops_parse x m s = None"
proof -
  have "mf_contents (vops_cleanup_first_line m) = None"
    using assms(2) by (simp add: vops_cleanup_first_line_def)
  then have none: "vops_parse_int m setv s = None" "vops_parse_int_map m names setv s = None"
    for setv :: "int \<Rightarrow> 'a vstate \<Rightarrow> 'a vstate option" and names
    by (simp_all add: vops_parse_int_def vops_parse_int_map_def vops_parse_int_raw_map_def)
  then show ?thesis
    using assms(3) proc_find_prefix [OF assms(1), of x]
    by (auto simp: setting_names_def find_proc_settings parse_int_proc parse_action_proc)
qed

lemma empty_write_crashes_witness:
  "mcachefs_vops_parse no_externs (vops_file ''file_ttl'' None) sample_vstate = None"
  by (rule empty_write_crashes [where nm = "''file_ttl''"]) (simp_all add: sample_vops_defs setting_names_def)

section \<open>The configuration\<close>

text \<open>Setting the prefix of the cached paths strips the mount point as a string, whatever
  character follows it, then the last slash; when nothing is left it reads past the end.\<close>

theorem cache_prefix_stripped:
  assumes "cfg_mountpoint c = Some mp"
  shows "mcachefs_config_set_cache_prefix (Some p) c =
    (let q = (if take (length mp) p = mp then drop (length mp) p else p)
     in if q = [] then None
        else Some (c\<lparr>cfg_cache_prefix := Some (if last q = CHR ''/'' then butlast q else q)\<rparr>))"
  using assms by (simp add: mcachefs_config_set_cache_prefix_def strncmp_eq_take trim_last_separator_eq Let_def)

lemma cache_prefix_stripped_witness:
  "mcachefs_config_set_cache_prefix (Some ''/mnt'') (v_config sample_vstate) =
    (let q = (if take (length ''/mnt'') ''/mnt'' = ''/mnt'' then drop (length ''/mnt'') ''/mnt'' else ''/mnt'')
     in if q = [] then None
        else Some ((v_config sample_vstate)\<lparr>cfg_cache_prefix := Some (if last q = CHR ''/'' then butlast q else q)\<rparr>))"
  by (rule cache_prefix_stripped) (simp add: sample_vstate_def)

text \<open>Whatever values are written to the time to live, from the initial configuration on, the
  cleanup looks at a slice of the circular buffer, and not at the current one.\<close>

theorem cleanup_slice_in_range:
  assumes "cur < timeslice_nb"
    and age: "age = mcachefs_config_get_file_ttl (fold mcachefs_config_set_file_ttl vs initial_config)"
    and i: "i = (int cur + int timeslice_nb - age) smod int timeslice_nb"
  shows "0 \<le> i \<and> i < int timeslice_nb \<and> i \<noteq> int cur"
proof -
  have "0 < mcachefs_config_get_file_ttl initial_config \<and> mcachefs_config_get_file_ttl initial_config < int timeslice_nb"
    by (simp add: mcachefs_config_get_file_ttl_def initial_config_def timeslice_nb_def)
  from ttl.fold_set [OF this, of vs] have age: "0 < age" "age < int timeslice_nb" by (simp_all add: age)
  then have i: "i = (int cur + int timeslice_nb - age) mod int timeslice_nb"
    using assms(1) by (simp add: i signed_modulo_int_def timeslice_nb_def)
  show ?thesis
  proof (intro conjI)
    show "0 \<le> i" "i < int timeslice_nb" by (simp_all add: i timeslice_nb_def)
    show "i \<noteq> int cur"
    proof
      assume "i = int cur"
      then have "int cur mod int timeslice_nb = (int cur + int timeslice_nb - age) mod int timeslice_nb"
        using assms(1) by (simp add: i)
      then have "int timeslice_nb dvd int timeslice_nb - age"
        by (simp add: mod_eq_dvd_iff algebra_simps) (metis dvd_minus_iff minus_diff_eq)
      with age show False using zdvd_not_zless [of "int timeslice_nb - age" "int timeslice_nb"] by simp
    qed
  qed
qed

lemma cleanup_slice_in_range_witness:
  "0 \<le> (1022::int) \<and> 1022 < int timeslice_nb \<and> 1022 \<noteq> int 3"
  by (rule cleanup_slice_in_range [where vs = "[5, 2000]" and age = 5])
    (simp_all add: timeslice_nb_def setting_defs signed_modulo_int_def initial_config_def abs_if sgn_if)

end
