(* ===== verification/Journal.thy ===== *)
theory Journal
  imports Path_Util Config Vops_Buffer
begin

text \<open>
  The journal of src/src/mcachefs-journal.c: the changes to send to the source, a file of
  entries, each a fixed-size header followed by one or two paths; and the state of their
  application.

  A file is the list of its bytes; \<open>room\<close> is the number of bytes the disk still takes, so that
  a write may be short, and \<open>errno\<close> the value a failed or short read leaves there (a short
  read does not set it).  The header has the layout of the x86-64 ABI.
\<close>

section \<open>Data\<close>

datatype journal_op = OpNone | OpMknod | OpMkdir | OpUnlink | OpRmdir | OpSymlink | OpRename
  | OpLink | OpChmod | OpChown | OpTruncate | OpUtime | OpFsync

fun op_code :: "journal_op \<Rightarrow> int" where
  "op_code OpNone = 0"
| "op_code OpMknod = 1"
| "op_code OpMkdir = 2"
| "op_code OpUnlink = 3"
| "op_code OpRmdir = 4"
| "op_code OpSymlink = 5"
| "op_code OpRename = 6"
| "op_code OpLink = 7"
| "op_code OpChmod = 8"
| "op_code OpChown = 9"
| "op_code OpTruncate = 10"
| "op_code OpUtime = 11"
| "op_code OpFsync = 12"

record journal_entry =
  je_op :: int
  je_path_sz :: int
  je_to_sz :: int
  je_mode :: int
  je_rdev :: int
  je_uid :: int
  je_gid :: int
  je_size :: int
  je_actime :: int
  je_modtime :: int

datatype journal_action = ActionNone | ActionUpdate | ActionSync

record journal_fsync =
  total_files :: int
  files_ok :: int
  files_error :: int

text \<open>The journal file and the one being synchronised (\<open>None\<close> when absent).\<close>

record journal =
  j_file :: "string option"
  j_fsync_file :: "string option"
  j_action :: journal_action
  j_fsync :: journal_fsync

definition zero_entry :: journal_entry where
  "zero_entry = \<lparr>je_op = 0, je_path_sz = 0, je_to_sz = 0, je_mode = 0, je_rdev = 0, je_uid = 0,
     je_gid = 0, je_size = 0, je_actime = 0, je_modtime = 0\<rparr>"

definition no_fsync :: journal_fsync where
  "no_fsync = \<lparr>total_files = 0, files_ok = 0, files_error = 0\<rparr>"

section \<open>The header in memory\<close>

definition le_bytes :: "nat \<Rightarrow> int \<Rightarrow> string" where
  "le_bytes n v = map (\<lambda>i. char_of (nat (v div 256 ^ i mod 256))) [0..<n]"

definition le_unsigned :: "string \<Rightarrow> int" where
  "le_unsigned bs = foldr (\<lambda>c v. int (byte_of c) + 256 * v) bs 0"

definition le_signed :: "string \<Rightarrow> int" where
  "le_signed bs = signed_take_bit (8 * length bs - 1) (le_unsigned bs)"

definition ENTRY_BYTES :: nat where "ENTRY_BYTES = 56"

definition entry_bytes :: "journal_entry \<Rightarrow> string" where
  "entry_bytes e = le_bytes 4 (je_op e) @ le_bytes 4 (je_path_sz e) @ le_bytes 4 (je_to_sz e) @
     le_bytes 4 (je_mode e) @ le_bytes 8 (je_rdev e) @ le_bytes 4 (je_uid e) @ le_bytes 4 (je_gid e) @
     le_bytes 8 (je_size e) @ le_bytes 8 (je_actime e) @ le_bytes 8 (je_modtime e)"

definition part :: "nat \<Rightarrow> nat \<Rightarrow> string \<Rightarrow> string" where
  "part at n bs = take n (drop at bs)"

definition entry_of_bytes :: "string \<Rightarrow> journal_entry" where
  "entry_of_bytes bs = \<lparr>je_op = le_signed (part 0 4 bs), je_path_sz = le_signed (part 4 4 bs),
     je_to_sz = le_signed (part 8 4 bs), je_mode = le_unsigned (part 12 4 bs),
     je_rdev = le_unsigned (part 16 8 bs), je_uid = le_unsigned (part 24 4 bs),
     je_gid = le_unsigned (part 28 4 bs), je_size = le_signed (part 32 8 bs),
     je_actime = le_signed (part 40 8 bs), je_modtime = le_signed (part 48 8 bs)\<rparr>"

section \<open>Reading and writing an ent\<close>

text \<open>
  The result, the bytes written (as far as there is room) and the room left.  A NULL \<open>to\<close> is
  treated like an empty one.
\<close>

definition mcachefs_journal_append_entry ::
  "nat \<Rightarrow> journal_entry \<Rightarrow> string \<Rightarrow> string \<Rightarrow> int \<times> string \<times> nat" where
  "mcachefs_journal_append_entry room ent path to =
     (let ent = ent\<lparr>je_path_sz := int (length path), je_to_sz := int (length to)\<rparr>;
          h = entry_bytes ent; w = take room h; room = room - length w
      in if length w \<noteq> length h then (- EIO, w, room)
      else let p = take room path; room = room - length p
      in if length p \<noteq> length path then (- EIO, w @ p, room)
      else if to = [] then (0, w @ p, room)
      else let t = take room to; room = room - length t
      in if length t \<noteq> length to then (- EIO, w @ p @ t, room) else (0, w @ p @ t, room))"

text \<open>
  The result (0 at the end, the number of bytes read, or \<open>-errno\<close>), the ent with its paths,
  and what is left to read.  The buffers of the paths hold \<open>PATH_MAX\<close> bytes.
\<close>

type_synonym read_result = "int \<times> journal_entry \<times> string \<times> string \<times> string"

definition read_path :: "int \<Rightarrow> int \<Rightarrow> string \<Rightarrow> (int \<times> string \<times> string) option" where
  "read_path errno sz rest =
     (if sz < 0 \<or> length (take (nat sz) rest) > PATH_MAX then Bug
      else if length (take (nat sz) rest) \<noteq> nat sz then Some (- errno, [], drop (nat sz) rest)
      else if nat sz \<ge> PATH_MAX then Bug
      else Some (sz, take (nat sz) rest, drop (nat sz) rest))"

definition mcachefs_journal_read_entry :: "int \<Rightarrow> string \<Rightarrow> read_result option" where
  "mcachefs_journal_read_entry errno rest =
     (let h = take ENTRY_BYTES rest; rest = drop ENTRY_BYTES rest
      in if h = [] then Some (0, zero_entry, [], [], rest)
      else if length h \<noteq> ENTRY_BYTES then Some (- errno, zero_entry, [], [], rest)
      else let ent = entry_of_bytes h
      in do {
        (res, path, rest) \<leftarrow> read_path errno (je_path_sz ent) rest;
        if res \<noteq> je_path_sz ent then Some (res, ent, [], [], rest)
        else if je_to_sz ent = 0
        then Some (int ENTRY_BYTES + je_path_sz ent, ent, path, [], rest)
        else do {
          (res, to, rest) \<leftarrow> read_path errno (je_to_sz ent) rest;
          if res \<noteq> je_to_sz ent then Some (res, ent, path, [], rest)
          else Some (int ENTRY_BYTES + je_path_sz ent + je_to_sz ent, ent, path, to, rest)
        }
      })"

text \<open>A path argument of the functions is a C string: what precedes the first NUL.\<close>

definition cstr :: "string \<Rightarrow> string" where
  "cstr p = takeWhile (\<lambda>c. c \<noteq> NUL) p"

section \<open>Appending\<close>

text \<open>The loop over the entries: what it does with each, until the end, an error or a stop.\<close>

partial_function (option) scan_entries ::
  "int \<Rightarrow> (journal_entry \<Rightarrow> string \<Rightarrow> string \<Rightarrow> 'a \<Rightarrow> ('a \<times> int option) option) \<Rightarrow> string \<Rightarrow> 'a \<Rightarrow> ('a \<times> int) option" where
  "scan_entries errno f rest a = do {
     (res, ent, path, to, rest) \<leftarrow> mcachefs_journal_read_entry errno rest;
     if res \<le> 0 then Some (a, res)
     else do {
       (a, stop) \<leftarrow> f ent (cstr path) (cstr to) a;
       case stop of Some r \<Rightarrow> Some (a, r) | None \<Rightarrow> scan_entries errno f rest a
     }
   }"

declare scan_entries.simps [code]

text \<open>An fsync entry of a path that starts with the renamed one follows it.\<close>

definition rebuild_entry ::
  "string \<Rightarrow> string \<Rightarrow> journal_entry \<Rightarrow> string \<Rightarrow> string \<Rightarrow> string \<times> nat \<Rightarrow> ((string \<times> nat) \<times> int option) option" where
  "rebuild_entry rename_path rename_to ent path to = (\<lambda>(tgt, room).
     if je_op ent = op_code OpFsync \<and> strncmp_eq path rename_path (length rename_path) then
       (let altered_path = rename_to @ drop (length rename_path) path
        in if length altered_path \<ge> PATH_MAX then Bug
        else let (res, bytes, room) = mcachefs_journal_append_entry room ent altered_path to
        in Some ((tgt @ bytes, room), if res < 0 then Some res else None))
     else
       (let (res, bytes, room) = mcachefs_journal_append_entry room ent path to
        in Some ((tgt @ bytes, room), if res < 0 then Some res else None)))"

text \<open>The new journal; a failure exits the process.\<close>

definition mcachefs_journal_rebuild ::
  "int \<Rightarrow> nat \<Rightarrow> string \<Rightarrow> string \<Rightarrow> string \<Rightarrow> (string \<times> nat) option" where
  "mcachefs_journal_rebuild errno room src rename_path rename_to = do {
     ((tgt, room), res) \<leftarrow> scan_entries errno (rebuild_entry rename_path rename_to) src ([], room);
     if res \<noteq> 0 then Bug
     else let (res, bytes, room) = mcachefs_journal_append_entry room
            (zero_entry\<lparr>je_op := op_code OpRename\<rparr>) rename_path rename_to
          in if res \<noteq> 0 then Bug else Some (tgt @ bytes, room)
   }"

definition mcachefs_journal_append ::
  "int \<Rightarrow> nat \<Rightarrow> journal \<Rightarrow> journal_op \<Rightarrow> string \<Rightarrow> string \<Rightarrow> journal_entry \<Rightarrow> (journal \<times> nat) option" where
  "mcachefs_journal_append errno room j op path to attrs =
     (let ent = attrs\<lparr>je_op := op_code op\<rparr>
      in case (if op = OpRename then j_file j else None) of
           Some (c # src) \<Rightarrow> do {
             (b, room) \<leftarrow> mcachefs_journal_rebuild errno room (c # src) path to;
             Some (j\<lparr>j_file := Some b\<rparr>, room)
           }
         | _ \<Rightarrow>
             let (res, bytes, room) = mcachefs_journal_append_entry room ent path to
             in Some (j\<lparr>j_file := Some ((case j_file j of Some b \<Rightarrow> b | None \<Rightarrow> []) @ bytes)\<rparr>, room))"

section \<open>Queries\<close>

text \<open>Whether some rename goes to a path that \<open>newpath\<close> starts with.\<close>

definition mcachefs_journal_was_renamed :: "int \<Rightarrow> journal \<Rightarrow> string \<Rightarrow> bool option" where
  "mcachefs_journal_was_renamed errno j newpath =
     (case j_file j of
        None \<Rightarrow> Some False
      | Some b \<Rightarrow> do {
          (wasrenamed, res) \<leftarrow> scan_entries errno (\<lambda>ent path to w.
              if je_op ent \<noteq> op_code OpRename then Some (w, None)
              else if strncmp_eq newpath to (nat (je_to_sz ent)) then Some (True, Some 1)
              else Some (w, None)) b False;
          if res < 0 then Bug else Some wasrenamed
        })"

definition mcachefs_journal_count_entries :: "journal \<Rightarrow> nat" where
  "mcachefs_journal_count_entries j =
     (case j_file j of Some b \<Rightarrow> length b div ENTRY_BYTES | None \<Rightarrow> 0)"

definition mcachefs_journal_drop :: "journal \<Rightarrow> journal option" where
  "mcachefs_journal_drop j =
     (case j_file j of Some b \<Rightarrow> Some (j\<lparr>j_file := Some []\<rparr>) | None \<Rightarrow> Bug)"

text \<open>A synchronisation that was interrupted keeps the program from starting.\<close>

definition mcachefs_journal_init :: "journal \<Rightarrow> journal option" where
  "mcachefs_journal_init j = (if j_fsync_file j \<noteq> None then Bug else Some j)"

end
