(* ===== verification/Journal_Apply.thy ===== *)
theory Journal_Apply
  imports Journal
begin

text \<open>
  Applying the journal of src/src/mcachefs-journal.c: first the entries that are not fsync, by
  system calls on the source, then the fsync entries, by queueing the write-back of their
  files; the end of each write-back is notified.
\<close>

section \<open>The system calls\<close>

datatype syscall = SysMknod string int int | SysMkdir string int | SysChown string int int
  | SysUnlink string | SysRmdir string | SysRename string string | SysSymlink string string
  | SysChmod string int | SysTruncate string int | SysUtime string int int

text \<open>The calls of one entry, in order; their failures are only logged.\<close>

definition mcachefs_journal_apply_entry ::
  "string \<Rightarrow> journal_entry \<Rightarrow> string \<Rightarrow> string \<Rightarrow> syscall list option" where
  "mcachefs_journal_apply_entry source e path to =
     (let realpath = mcachefs_makepath path source; realto = mcachefs_makepath to source in
      if je_op e = op_code OpNone then Some []
      else if je_op e = op_code OpMknod then
        Some [SysMknod realpath (je_mode e) (je_rdev e), SysChown realpath (je_uid e) (je_gid e)]
      else if je_op e = op_code OpMkdir then
        Some [SysMkdir realpath (je_mode e), SysChown realpath (je_uid e) (je_gid e)]
      else if je_op e = op_code OpUnlink then Some [SysUnlink realpath]
      else if je_op e = op_code OpRmdir then Some [SysRmdir realpath]
      else if je_op e = op_code OpRename then Some [SysRename realpath realto]
      else if je_op e = op_code OpSymlink then Some [SysSymlink to realpath]
      else if je_op e = op_code OpLink then Some []
      else if je_op e = op_code OpChmod then Some [SysChmod realpath (je_mode e)]
      else if je_op e = op_code OpChown then Some [SysChown realpath (je_uid e) (je_gid e)]
      else if je_op e = op_code OpTruncate then Some [SysTruncate realpath (je_size e)]
      else if je_op e = op_code OpUtime then Some [SysUtime realpath (je_actime e) (je_modtime e)]
      else Bug)"

text \<open>The calls of a file of entries; \<open>None\<close> inside for a file that cannot be opened.\<close>

definition mcachefs_journal_apply_updates ::
  "int \<Rightarrow> string \<Rightarrow> string option \<Rightarrow> syscall list option option" where
  "mcachefs_journal_apply_updates errno source file =
     (case file of
        None \<Rightarrow> Some None
      | Some b \<Rightarrow> do {
          (calls, res) \<leftarrow> scan_entries errno (\<lambda>e path to calls.
              if je_op e = op_code OpFsync then Some (calls, None)
              else do {
                c \<leftarrow> mcachefs_journal_apply_entry source e path to;
                Some (calls @ c, None)
              }) b [];
          if res < 0 then Bug else Some (Some calls)
        })"

section \<open>The write-backs\<close>

text \<open>\<open>mcachefs_transfer_writeback\<close> on the rest of the process is the argument \<open>writeback\<close>.\<close>

definition count_writeback :: "int \<Rightarrow> journal_fsync \<Rightarrow> journal_fsync" where
  "count_writeback ret f =
     (let f = f\<lparr>total_files := total_files f + 1\<rparr>
      in if ret = - EEXIST then f\<lparr>files_ok := files_ok f + 1\<rparr>
         else if ret \<noteq> 0 then f\<lparr>files_error := files_error f + 1\<rparr>
         else f)"

definition mcachefs_journal_apply_fsync ::
  "int \<Rightarrow> (string \<Rightarrow> 'w \<Rightarrow> ('w \<times> int) option) \<Rightarrow> string \<Rightarrow> 'w \<Rightarrow> journal_fsync \<Rightarrow> ('w \<times> journal_fsync) option" where
  "mcachefs_journal_apply_fsync errno writeback file w f = do {
     ((w, f), res) \<leftarrow> scan_entries errno (\<lambda>e path to (w, f).
         if je_op e \<noteq> op_code OpFsync then Some ((w, f), None)
         else do {
           (w, ret) \<leftarrow> writeback path w;
           Some ((w, count_writeback ret f), None)
         }) file (w, f);
     if res < 0 then Bug else Some (w, f)
   }"

definition mcachefs_journal_apply ::
  "int \<Rightarrow> string \<Rightarrow> (string \<Rightarrow> 'w \<Rightarrow> ('w \<times> int) option) \<Rightarrow> journal \<Rightarrow> 'w \<Rightarrow> (journal \<times> 'w \<times> syscall list) option" where
  "mcachefs_journal_apply errno source writeback j w =
     (if j_action j \<noteq> ActionNone then Some (j, w, [])
      else if total_files (j_fsync j) \<noteq> 0 then Bug
      else let j = j\<lparr>j_fsync := no_fsync, j_action := ActionUpdate\<rparr>
      in do {
        calls \<leftarrow> mcachefs_journal_apply_updates errno source (j_file j);
        case calls of
          None \<Rightarrow> Some (j, w, [])
        | Some calls \<Rightarrow>
            let j = j\<lparr>j_action := ActionSync\<rparr>
            in (case j_file j of
                  None \<Rightarrow> Bug
                | Some b \<Rightarrow>
                    let j = j\<lparr>j_file := None, j_fsync_file := Some b\<rparr>
                    in do {
                      (w, f) \<leftarrow> mcachefs_journal_apply_fsync errno writeback b w (j_fsync j);
                      let j = j\<lparr>j_fsync := f\<rparr>;
                      Some (if files_ok f + files_error f = total_files f
                            then j\<lparr>j_fsync_file := None, j_action := ActionNone\<rparr> else j, w, calls)
                    })
      })"

definition mcachefs_notify_sync_end :: "journal \<Rightarrow> bool \<Rightarrow> journal option" where
  "mcachefs_notify_sync_end j success =
     (let f = j_fsync j;
          f = (if success then f\<lparr>files_ok := files_ok f + 1\<rparr> else f\<lparr>files_error := files_error f + 1\<rparr>)
      in if files_ok f + files_error f = total_files f
         then (case j_fsync_file j of
                 None \<Rightarrow> Bug
               | Some _ \<Rightarrow> Some (j\<lparr>j_fsync_file := None, j_fsync := no_fsync, j_action := ActionNone\<rparr>))
         else Some (j\<lparr>j_fsync := f\<rparr>))"

end
