(* ===== verification/Journal_Codec.thy ===== *)
theory Journal_Codec
  imports Journal_Apply
begin

text \<open>
  A journal is the list of its entries: what is appended is read back, and every loop over the
  file is a loop over that list.
\<close>

section \<open>Integers as bytes\<close>

lemma length_le_bytes [simp]: "length (le_bytes n v) = n"
  by (simp add: le_bytes_def)

lemma le_bytes_0 [simp]: "le_bytes 0 v = []"
  by (simp add: le_bytes_def)

lemma le_bytes_Suc: "le_bytes (Suc n) v = char_of (nat (v mod 256)) # le_bytes n (v div 256)"
  unfolding le_bytes_def
  by (simp add: upt_conv_Cons map_Suc_upt [symmetric] comp_def zdiv_zmult2_eq [symmetric] del: upt_Suc)

lemma le_unsigned_bytes: "le_unsigned (le_bytes n v) = v mod 256 ^ n"
proof (induction n arbitrary: v)
  case (Suc n)
  have "v mod 256 + 256 * (v div 256 mod 256 ^ n) = v mod (256 * 256 ^ n)"
    using zmod_zmult2_eq [of "256 ^ n" v 256] by simp
  moreover have "byte_of (char_of (nat (v mod 256)) :: char) = nat (v mod 256)"
    by (simp add: nat_mod_distrib [of 256 v, symmetric] unsigned_less)
  ultimately show ?case
    using Suc [of "v div 256"] by (simp add: le_bytes_Suc le_unsigned_def)
qed (simp add: le_unsigned_def)

lemma le_unsigned_small: "0 \<le> v \<Longrightarrow> v < 256 ^ n \<Longrightarrow> le_unsigned (le_bytes n v) = v"
  by (simp add: le_unsigned_bytes)

lemma le_signed_4: "- (2 ^ 31) \<le> v \<Longrightarrow> v < 2 ^ 31 \<Longrightarrow> le_signed (le_bytes 4 v) = v"
  using signed_take_bit_int_eq_self [of 31 v] signed_take_bit_take_bit [of 31 32 v]
  by (simp add: le_signed_def le_unsigned_bytes flip: take_bit_eq_mod [of 32, simplified])
 
lemma le_signed_8: "- (2 ^ 63) \<le> v \<Longrightarrow> v < 2 ^ 63 \<Longrightarrow> le_signed (le_bytes 8 v) = v"
  using signed_take_bit_int_eq_self [of 63 v] signed_take_bit_take_bit [of 63 64 v]
  by (simp add: le_signed_def le_unsigned_bytes flip: take_bit_eq_mod [of 64, simplified])

section \<open>Entries as bytes\<close>

definition wf_entry :: "journal_entry \<Rightarrow> bool" where
  "wf_entry e \<longleftrightarrow> - (2 ^ 31) \<le> je_op e \<and> je_op e < 2 ^ 31 \<and>
     0 \<le> je_mode e \<and> je_mode e < 2 ^ 32 \<and> 0 \<le> je_rdev e \<and> je_rdev e < 2 ^ 64 \<and>
     0 \<le> je_uid e \<and> je_uid e < 2 ^ 32 \<and> 0 \<le> je_gid e \<and> je_gid e < 2 ^ 32 \<and>
     - (2 ^ 63) \<le> je_size e \<and> je_size e < 2 ^ 63 \<and> - (2 ^ 63) \<le> je_actime e \<and> je_actime e < 2 ^ 63 \<and>
     - (2 ^ 63) \<le> je_modtime e \<and> je_modtime e < 2 ^ 63"

definition sized :: "journal_entry \<Rightarrow> string \<Rightarrow> string \<Rightarrow> journal_entry" where
  "sized e p t = e\<lparr>je_path_sz := int (length p), je_to_sz := int (length t)\<rparr>"

definition wf_path :: "string \<Rightarrow> bool" where
  "wf_path p \<longleftrightarrow> length p < PATH_MAX \<and> NUL \<notin> set p"

definition record_bytes :: "journal_entry \<Rightarrow> string \<Rightarrow> string \<Rightarrow> string" where
  "record_bytes e p t = entry_bytes (sized e p t) @ p @ t"

lemma length_entry_bytes [simp]: "length (entry_bytes e) = ENTRY_BYTES"
  by (simp add: entry_bytes_def ENTRY_BYTES_def)

lemma length_record_bytes: "length (record_bytes e p t) = ENTRY_BYTES + length p + length t"
  by (simp add: record_bytes_def)

lemma entry_of_entry_bytes:
  assumes "wf_entry e" "- (2 ^ 31) \<le> je_path_sz e" "je_path_sz e < 2 ^ 31" "- (2 ^ 31) \<le> je_to_sz e" "je_to_sz e < 2 ^ 31"
  shows "entry_of_bytes (entry_bytes e) = e"
  using assms unfolding entry_of_bytes_def entry_bytes_def part_def wf_entry_def
  by (cases e) (simp add: le_signed_4 le_signed_8 le_unsigned_small)

lemma cstr_id: "NUL \<notin> set p \<Longrightarrow> cstr p = p"
  by (auto simp: cstr_def takeWhile_eq_all_conv)

text \<open>With enough room the whole record is written.\<close>

lemma append_entry_ok:
  "length (record_bytes e p t) \<le> room \<Longrightarrow>
   mcachefs_journal_append_entry room e p t = (0, record_bytes e p t, room - length (record_bytes e p t))"
  by (auto simp: mcachefs_journal_append_entry_def record_bytes_def sized_def Let_def)

lemma read_path_ok:
  "length p < PATH_MAX \<Longrightarrow> read_path errno (int (length p)) (p @ rest) = Some (int (length p), p, rest)"
  by (simp add: read_path_def)

text \<open>A record is read back, whatever follows.\<close>

lemma read_record:
  assumes "wf_entry e" "length p < PATH_MAX" "length t < PATH_MAX"
  shows "mcachefs_journal_read_entry errno (record_bytes e p t @ rest) =
    Some (int (length (record_bytes e p t)), sized e p t, p, t, rest)"
proof -
  have "wf_entry (sized e p t)" using assms(1) by (simp add: wf_entry_def sized_def)
  then have e: "entry_of_bytes (entry_bytes (sized e p t)) = sized e p t"
    using assms(2,3) by (intro entry_of_entry_bytes) (simp_all add: sized_def PATH_MAX_def)
  have h: "take ENTRY_BYTES (record_bytes e p t @ rest) = entry_bytes (sized e p t)"
    "drop ENTRY_BYTES (record_bytes e p t @ rest) = p @ t @ rest"
    by (simp_all add: record_bytes_def)
  have ne: "entry_bytes (sized e p t) \<noteq> []"
    using length_entry_bytes [of "sized e p t"] by (metis ENTRY_BYTES_def list.size(3) zero_neq_numeral)
  have sz: "je_path_sz (sized e p t) = int (length p)" "je_to_sz (sized e p t) = int (length t)"
    by (simp_all add: sized_def)
  show ?thesis
    unfolding mcachefs_journal_read_entry_def Let_def h e sz
    using ne read_path_ok [OF assms(2)] read_path_ok [OF assms(3)]
    by (simp add: length_record_bytes)
qed

section \<open>The list of entries\<close>

type_synonym jrecord = "journal_entry \<times> string \<times> string"

definition wf_record :: "jrecord \<Rightarrow> bool" where
  "wf_record r \<longleftrightarrow> (case r of (e, p, t) \<Rightarrow> wf_entry e \<and> wf_path p \<and> wf_path t)"

definition journal_bytes :: "jrecord list \<Rightarrow> string" where
  "journal_bytes rs = concat (map (\<lambda>(e, p, t). record_bytes e p t) rs)"

fun walk :: "(journal_entry \<Rightarrow> string \<Rightarrow> string \<Rightarrow> 'a \<Rightarrow> ('a \<times> int option) option) \<Rightarrow> jrecord list \<Rightarrow> 'a \<Rightarrow> ('a \<times> int) option" where
  "walk f [] a = Some (a, 0)"
| "walk f ((e, p, t) # rs) a = do {
     (a, stop) \<leftarrow> f (sized e p t) p t a;
     case stop of Some r \<Rightarrow> Some (a, r) | None \<Rightarrow> walk f rs a
   }"

lemma scan_walk:
  "\<forall>r\<in>set rs. wf_record r \<Longrightarrow> scan_entries errno f (journal_bytes rs) a = walk f rs a"
proof (induction rs arbitrary: a)
  case Nil
  then show ?case
    by (subst scan_entries.simps) (simp add: journal_bytes_def mcachefs_journal_read_entry_def)
next
  case (Cons r rs)
  obtain e p t where r: "r = (e, p, t)" by (cases r)
  with Cons.prems have wf: "wf_entry e" "length p < PATH_MAX" "length t < PATH_MAX" "cstr p = p" "cstr t = t"
    by (auto simp: wf_record_def wf_path_def cstr_id)
  have "journal_bytes (r # rs) = record_bytes e p t @ journal_bytes rs" by (simp add: journal_bytes_def r)
  moreover have "int (length (record_bytes e p t)) > 0" by (simp add: length_record_bytes ENTRY_BYTES_def)
  ultimately have "scan_entries errno f (journal_bytes (r # rs)) a = do {
      (a, stop) \<leftarrow> f (sized e p t) p t a;
      case stop of Some r \<Rightarrow> Some (a, r) | None \<Rightarrow> scan_entries errno f (journal_bytes rs) a }"
    by (subst scan_entries.simps) (simp add: read_record [OF wf(1-3)] wf(4,5))
  with Cons show ?case by (simp add: r cong: option.case_cong)
qed

end
