(* ===== verification/Journal_Refine.thy ===== *)
theory Journal_Refine
  imports Journal_Codec
begin

text \<open>
  The operations of the journal on the list of its entries.
\<close>

definition journal_rep :: "journal \<Rightarrow> jrecord list \<Rightarrow> bool" where
  "journal_rep j rs \<longleftrightarrow> (\<forall>r\<in>set rs. wf_record r) \<and>
     (case j_file j of Some b \<Rightarrow> b = journal_bytes rs | None \<Rightarrow> rs = [])"

lemma journal_bytes_append: "journal_bytes (rs @ rs') = journal_bytes rs @ journal_bytes rs'"
  by (simp add: journal_bytes_def)

lemma journal_bytes_Cons: "journal_bytes ((e, p, t) # rs) = record_bytes e p t @ journal_bytes rs"
  by (simp add: journal_bytes_def)

lemma journal_bytes_Nil [simp]: "journal_bytes [] = []"
  by (simp add: journal_bytes_def)

lemma record_bytes_sized [simp]: "record_bytes (sized e p t) q u = record_bytes e q u"
  by (simp add: record_bytes_def sized_def)

lemma sized_simps [simp]: "je_op (sized e p t) = je_op e" "je_to_sz (sized e p t) = int (length t)"
  by (simp_all add: sized_def)

lemma record_bytes_ne: "record_bytes e p t \<noteq> []"
proof
  assume "record_bytes e p t = []"
  with length_record_bytes [of e p t] show False by (simp add: ENTRY_BYTES_def)
qed

lemma journal_bytes_eq_Nil [simp]: "journal_bytes rs = [] \<longleftrightarrow> rs = []"
  by (cases rs) (auto simp: journal_bytes_def record_bytes_ne)

text \<open>A loop that does not stop by itself meets a broken last header.\<close>

lemma scan_broken:
  assumes "\<forall>r\<in>set rs. wf_record r" "tail \<noteq> []" "length tail < ENTRY_BYTES"
    and nostop: "\<And>e p t a a' stop. f e p t a = Some (a', stop) \<Longrightarrow> stop = None"
    and errno: "0 \<le> errno" and "walk f rs a = Some (a', res)"
  shows "scan_entries errno f (journal_bytes rs @ tail) a = Some (a', - errno)"
  using assms(1,6)
proof (induction rs arbitrary: a)
  case Nil
  have "mcachefs_journal_read_entry errno tail = Some (- errno, zero_entry, [], [], [])"
    using assms(2,3) by (simp add: mcachefs_journal_read_entry_def Let_def)
  with Nil errno show ?case by (subst scan_entries.simps) simp
next
  case (Cons r rs)
  obtain e p t where r: "r = (e, p, t)" by (cases r)
  with Cons.prems have wf: "wf_entry e" "length p < PATH_MAX" "length t < PATH_MAX" "cstr p = p" "cstr t = t"
    by (auto simp: wf_record_def wf_path_def cstr_id)
  obtain a1 stop where f: "f (sized e p t) p t a = Some (a1, stop)" "stop = None"
    using Cons.prems(2) nostop by (cases "f (sized e p t) p t a") (auto simp: r)
  then have "walk f rs a1 = Some (a', res)" using Cons.prems(2) by (simp add: r)
  moreover have "journal_bytes (r # rs) @ tail = record_bytes e p t @ (journal_bytes rs @ tail)"
    by (simp add: journal_bytes_Cons r)
  moreover have "0 < int (length (record_bytes e p t))" by (simp add: length_record_bytes ENTRY_BYTES_def)
  ultimately have "scan_entries errno f (journal_bytes (r # rs) @ tail) a = scan_entries errno f (journal_bytes rs @ tail) a1"
    by (subst scan_entries.simps) (simp add: read_record [OF wf(1-3)] wf(4,5) f)
  with Cons.IH [of a1] Cons.prems(1) \<open>walk f rs a1 = Some (a', res)\<close> show ?case by simp
qed

section \<open>Renaming\<close>

definition retarget :: "string \<Rightarrow> string \<Rightarrow> jrecord \<Rightarrow> jrecord" where
  "retarget p t r = (case r of (e, q, u) \<Rightarrow>
     if je_op e = op_code OpFsync \<and> take (length p) q = p then (e, t @ drop (length p) q, u) else (e, q, u))"

definition rename_record :: "string \<Rightarrow> string \<Rightarrow> jrecord" where
  "rename_record p t = (zero_entry\<lparr>je_op := op_code OpRename\<rparr>, p, t)"

lemma rebuild_step:
  assumes "retarget p t (e, q, u) = (e, q', u)" "length q' < PATH_MAX"
    "length (record_bytes e q' u) \<le> room"
  shows "rebuild_entry p t (sized e q u) q u (tgt, room) =
    Some ((tgt @ record_bytes e q' u, room - length (record_bytes e q' u)), None)"
  using assms append_entry_ok [of "sized e q u" q' u room]
  by (auto simp: rebuild_entry_def retarget_def strncmp_eq_take split: if_splits)

lemma walk_rebuild:
  assumes "\<forall>r\<in>set rs. case retarget p t r of (e, q, u) \<Rightarrow> length q < PATH_MAX"
    "length (journal_bytes (map (retarget p t) rs)) \<le> room"
  shows "walk (rebuild_entry p t) rs (tgt, room) =
    Some ((tgt @ journal_bytes (map (retarget p t) rs),
      room - length (journal_bytes (map (retarget p t) rs))), 0)"
  using assms
proof (induction rs arbitrary: tgt room)
  case (Cons r rs)
  obtain e q u where r: "r = (e, q, u)" by (cases r)
  obtain q' where q': "retarget p t (e, q, u) = (e, q', u)"
    using that by (cases "je_op e = op_code OpFsync \<and> take (length p) q = p") (auto simp: retarget_def)
  have len: "length q' < PATH_MAX" "length (record_bytes e q' u) \<le> room"
    using Cons.prems r q' by (simp_all add: journal_bytes_Cons)
  let ?room = "room - length (record_bytes e q' u)"
  have "length (journal_bytes (map (retarget p t) rs)) \<le> ?room"
    using Cons.prems(2) r q' by (simp add: journal_bytes_Cons)
  with Cons.IH [of ?room "tgt @ record_bytes e q' u"] Cons.prems(1) rebuild_step [OF q' len, of tgt]
  show ?case by (simp add: r q' journal_bytes_Cons)
qed simp

lemma rebuild_ok:
  assumes wf: "\<forall>r\<in>set rs. wf_record r"
    and len: "\<forall>r\<in>set rs. case retarget p t r of (e, q, u) \<Rightarrow> length q < PATH_MAX"
    and room: "length (journal_bytes (map (retarget p t) rs @ [rename_record p t])) \<le> room"
  shows "\<exists>room'. mcachefs_journal_rebuild errno room (journal_bytes rs) p t =
    Some (journal_bytes (map (retarget p t) rs @ [rename_record p t]), room')"
proof -
  let ?b = "journal_bytes (map (retarget p t) rs)" and ?e = "zero_entry\<lparr>je_op := op_code OpRename\<rparr>"
  have split: "journal_bytes (map (retarget p t) rs @ [rename_record p t]) = ?b @ record_bytes ?e p t"
    by (simp add: journal_bytes_append rename_record_def journal_bytes_Cons)
  have "walk (rebuild_entry p t) rs ([], room) = Some ((?b, room - length ?b), 0)"
    using walk_rebuild [OF len, of room "[]"] room by (simp add: split)
  moreover have "mcachefs_journal_append_entry (room - length ?b) ?e p t =
      (0, record_bytes ?e p t, room - length ?b - length (record_bytes ?e p t))"
    by (rule append_entry_ok) (use room split in simp)
  ultimately show ?thesis
    by (simp add: mcachefs_journal_rebuild_def scan_walk [OF wf] split)
qed

section \<open>The other loops\<close>

definition renames_to :: "string \<Rightarrow> jrecord \<Rightarrow> bool" where
  "renames_to newpath r \<longleftrightarrow> (case r of (e, p, t) \<Rightarrow>
     je_op e = op_code OpRename \<and> take (length t) newpath = t)"

lemma walk_was_renamed:
  "walk (\<lambda>entry path to w.
      if je_op entry \<noteq> op_code OpRename then Some (w, None)
      else if strncmp_eq newpath to (nat (je_to_sz entry)) then Some (True, Some 1)
      else Some (w, None)) rs False =
    Some (if \<exists>r\<in>set rs. renames_to newpath r then (True, 1) else (False, 0))"
proof (induction rs)
  case (Cons r rs)
  then show ?case
    by (cases r) (simp add: renames_to_def strncmp_eq_take)
qed simp

text \<open>The calls of the entries that are not fsync.\<close>

definition update_calls :: "string \<Rightarrow> jrecord list \<Rightarrow> syscall list" where
  "update_calls source rs = concat (map (\<lambda>(e, p, t). the (mcachefs_journal_apply_entry source (sized e p t) p t))
     (filter (\<lambda>(e, p, t). je_op e \<noteq> op_code OpFsync) rs))"

definition known_op :: "jrecord \<Rightarrow> bool" where
  "known_op r \<longleftrightarrow> (case r of (e, p, t) \<Rightarrow> 0 \<le> je_op e \<and> je_op e \<le> 12)"

lemma apply_entry_known:
  assumes "0 \<le> je_op e" "je_op e < 12"
  shows "mcachefs_journal_apply_entry source e p t \<noteq> None"
proof -
  have "je_op e = 0 \<or> je_op e = 1 \<or> je_op e = 2 \<or> je_op e = 3 \<or> je_op e = 4 \<or> je_op e = 5 \<or>
      je_op e = 6 \<or> je_op e = 7 \<or> je_op e = 8 \<or> je_op e = 9 \<or> je_op e = 10 \<or> je_op e = 11"
    using assms by presburger
  then show ?thesis by (auto simp: mcachefs_journal_apply_entry_def Let_def)
qed

lemma walk_updates:
  assumes "\<forall>r\<in>set rs. known_op r"
  shows "walk (\<lambda>e path to calls.
      if je_op e = op_code OpFsync then Some (calls, None)
      else do { c \<leftarrow> mcachefs_journal_apply_entry source e path to; Some (calls @ c, None) }) rs calls =
    Some (calls @ update_calls source rs, 0)"
  using assms
proof (induction rs arbitrary: calls)
  case Nil
  then show ?case by (simp add: update_calls_def)
next
  case (Cons r rs)
  obtain e p t where r: "r = (e, p, t)" by (cases r)
  show ?case
  proof (cases "je_op e = op_code OpFsync")
    case True
    with Cons show ?thesis by (simp add: r update_calls_def)
  next
    case False
    then obtain c where "mcachefs_journal_apply_entry source (sized e p t) p t = Some c"
      using apply_entry_known [of "sized e p t" source p t] Cons.prems by (auto simp: r known_op_def)
    with False Cons show ?thesis by (simp add: r update_calls_def)
  qed
qed

text \<open>The write-backs asked for, one after the other, and what they return.\<close>

fun run_writebacks :: "(string \<Rightarrow> 'w \<Rightarrow> ('w \<times> int) option) \<Rightarrow> string list \<Rightarrow> 'w \<Rightarrow> ('w \<times> int list) option" where
  "run_writebacks wb [] w = Some (w, [])"
| "run_writebacks wb (p # ps) w = do {
     (w, r) \<leftarrow> wb p w;
     (w, rs) \<leftarrow> run_writebacks wb ps w;
     Some (w, r # rs)
   }"

definition fsync_paths :: "jrecord list \<Rightarrow> string list" where
  "fsync_paths rs = map (\<lambda>(e, p, t). p) (filter (\<lambda>(e, p, t). je_op e = op_code OpFsync) rs)"

lemma walk_fsync:
  assumes "run_writebacks wb (fsync_paths rs) w = Some (w', rets)"
  shows "walk (\<lambda>e path to (w, f).
      if je_op e \<noteq> op_code OpFsync then Some ((w, f), None)
      else do { (w, ret) \<leftarrow> wb path w; Some ((w, count_writeback ret f), None) }) rs (w, f) =
    Some ((w', fold count_writeback rets f), 0)"
  using assms
proof (induction rs arbitrary: w f rets)
  case Nil
  then show ?case by (simp add: fsync_paths_def)
next
  case (Cons r rs)
  obtain e p t where r: "r = (e, p, t)" by (cases r)
  show ?case
  proof (cases "je_op e = op_code OpFsync")
    case True
    then obtain w1 r1 rets1 where "wb p w = Some (w1, r1)"
      "run_writebacks wb (fsync_paths rs) w1 = Some (w', rets1)" "rets = r1 # rets1"
      using Cons.prems by (auto simp: r fsync_paths_def split: bind_splits)
    with True Cons.IH show ?thesis by (simp add: r)
  next
    case False
    with Cons show ?thesis by (simp add: r fsync_paths_def)
  qed
qed

lemma fold_count_writeback:
  "fold count_writeback rets f = \<lparr>total_files = total_files f + int (length rets),
     files_ok = files_ok f + int (length (filter (\<lambda>r. r = - EEXIST) rets)),
     files_error = files_error f + int (length (filter (\<lambda>r. r \<noteq> 0 \<and> r \<noteq> - EEXIST) rets))\<rparr>"
  by (induction rets arbitrary: f) (auto simp: count_writeback_def Let_def errno_defs)

section \<open>Applying\<close>

definition writebacks_counted :: "int list \<Rightarrow> journal_fsync" where
  "writebacks_counted rets = \<lparr>total_files = int (length rets),
     files_ok = int (length (filter (\<lambda>r. r = - EEXIST) rets)),
     files_error = int (length (filter (\<lambda>r. r \<noteq> 0 \<and> r \<noteq> - EEXIST) rets))\<rparr>"

lemma split_results:
  "length rets = length (filter (\<lambda>r. r = 0) rets) + length (filter (\<lambda>r. r = - EEXIST) rets) +
     length (filter (\<lambda>r. r \<noteq> 0 \<and> r \<noteq> - EEXIST) rets)"
  by (induction rets) (auto simp: errno_defs)

lemma apply_ok:
  assumes idle: "j_action j = ActionNone" "total_files (j_fsync j) = 0"
    and present: "j_file j = Some (journal_bytes rs)" and wf: "\<forall>r\<in>set rs. wf_record r" and known: "\<forall>r\<in>set rs. known_op r"
    and run: "run_writebacks wb (fsync_paths rs) w = Some (w', rets)"
  shows "mcachefs_journal_apply errno source wb j w =
    Some (if \<exists>r\<in>set rets. r = 0
      then \<lparr>j_file = None, j_fsync_file = Some (journal_bytes rs), j_action = ActionSync,
        j_fsync = writebacks_counted rets\<rparr>
      else \<lparr>j_file = None, j_fsync_file = None, j_action = ActionNone,
        j_fsync = writebacks_counted rets\<rparr>, w', update_calls source rs)"
proof -
  have updates: "mcachefs_journal_apply_updates errno source (Some (journal_bytes rs)) = Some (Some (update_calls source rs))"
    unfolding mcachefs_journal_apply_updates_def option.case scan_walk [OF wf] walk_updates [OF known] by simp
  have count: "fold count_writeback rets no_fsync = writebacks_counted rets"
    by (simp add: fold_count_writeback no_fsync_def writebacks_counted_def)
  have fsync: "mcachefs_journal_apply_fsync errno wb (journal_bytes rs) w no_fsync = Some (w', writebacks_counted rets)"
    unfolding mcachefs_journal_apply_fsync_def scan_walk [OF wf] walk_fsync [OF run] count by simp
  have "(\<exists>r\<in>set rets. r = 0) \<longleftrightarrow> files_ok (writebacks_counted rets) + files_error (writebacks_counted rets) \<noteq>
      total_files (writebacks_counted rets)"
    using split_results [of rets] by (auto simp: writebacks_counted_def filter_empty_conv)
  then show ?thesis
    using idle present by (cases j) (simp add: mcachefs_journal_apply_def updates fsync Let_def)
qed

text \<open>The notifications that are still to come.\<close>

definition pending :: "journal \<Rightarrow> int" where
  "pending j = total_files (j_fsync j) - files_ok (j_fsync j) - files_error (j_fsync j)"

lemma notify_more:
  assumes "1 < pending j"
  shows "\<exists>j'. mcachefs_notify_sync_end j b = Some j' \<and> pending j' = pending j - 1 \<and>
    j_action j' = j_action j \<and> j_fsync_file j' = j_fsync_file j \<and> j_file j' = j_file j"
  using assms by (auto simp: mcachefs_notify_sync_end_def pending_def Let_def)

lemma notify_last:
  assumes "pending j = 1" "j_fsync_file j \<noteq> None"
  shows "mcachefs_notify_sync_end j b =
    Some (j\<lparr>j_fsync_file := None, j_fsync := no_fsync, j_action := ActionNone\<rparr>)"
  using assms by (auto simp: mcachefs_notify_sync_end_def pending_def Let_def)

fun notify_all :: "journal \<Rightarrow> bool list \<Rightarrow> journal option" where
  "notify_all j [] = Some j"
| "notify_all j (b # bs) = do { j \<leftarrow> mcachefs_notify_sync_end j b; notify_all j bs }"

lemma notify_all_ok:
  "pending j = int (length bs) \<Longrightarrow> bs \<noteq> [] \<Longrightarrow> j_fsync_file j \<noteq> None \<Longrightarrow>
   notify_all j bs = Some \<lparr>j_file = j_file j, j_fsync_file = None, j_action = ActionNone, j_fsync = no_fsync\<rparr>"
proof (induction bs arbitrary: j)
  case (Cons b bs)
  show ?case
  proof (cases "bs = []")
    case True
    with Cons.prems show ?thesis by (cases j) (simp add: notify_last)
  next
    case False
    then have "1 < pending j" using Cons.prems(1) by (cases bs) simp_all
    from notify_more [OF this, of b] obtain j' where "mcachefs_notify_sync_end j b = Some j'"
      "pending j' = pending j - 1" "j_fsync_file j' = j_fsync_file j" "j_file j' = j_file j" by blast
    with Cons.IH [of j'] Cons.prems False show ?thesis by simp
  qed
qed simp

text \<open>Fewer notifications than are waited for change nothing but the counts.\<close>

lemma notify_fewer:
  "int (length bs) < pending j \<Longrightarrow> \<exists>j'. notify_all j bs = Some j' \<and> j_action j' = j_action j \<and>
   pending j' = pending j - int (length bs)"
proof (induction bs arbitrary: j)
  case (Cons b bs)
  then have "1 < pending j" by simp
  from notify_more [OF this, of b] obtain j' where "mcachefs_notify_sync_end j b = Some j'"
    "pending j' = pending j - 1" "j_action j' = j_action j" by blast
  with Cons.IH [of j'] Cons.prems show ?case by auto
qed simp

text \<open>Appending to the file appends to the list.\<close>

lemma append_record_ok:
  assumes "journal_rep j rs" "op \<noteq> OpRename \<or> rs = []" "r = (attrs\<lparr>je_op := op_code op\<rparr>, p, t)" "wf_record r"
    "ENTRY_BYTES + length p + length t \<le> room"
  shows "\<exists>j' room'. mcachefs_journal_append errno room j op p t attrs = Some (j', room') \<and>
    journal_rep j' (rs @ [r]) \<and> j_action j' = j_action j \<and> j_fsync j' = j_fsync j"
proof -
  let ?e = "attrs\<lparr>je_op := op_code op\<rparr>"
  have new: "journal_bytes (rs @ [r]) = journal_bytes rs @ record_bytes ?e p t"
    by (simp add: assms(3) journal_bytes_append journal_bytes_Cons)
  have old: "(case j_file j of Some b \<Rightarrow> b | None \<Rightarrow> []) = journal_bytes rs"
    using assms(1) by (cases "j_file j") (simp_all add: journal_rep_def)
  have none: "(if op = OpRename then j_file j else None) \<in> {None, Some []}"
    using assms(1,2) by (cases "j_file j") (auto simp: journal_rep_def)
  have wr: "mcachefs_journal_append_entry room ?e p t =
      (0, record_bytes ?e p t, room - length (record_bytes ?e p t))"
    using assms(5) by (intro append_entry_ok) (simp add: length_record_bytes)
  have "mcachefs_journal_append errno room j op p t attrs =
      Some (j\<lparr>j_file := Some (journal_bytes (rs @ [r]))\<rparr>, room - length (record_bytes ?e p t))"
    using none unfolding mcachefs_journal_append_def Let_def wr old new by auto
  moreover have "journal_rep (j\<lparr>j_file := Some (journal_bytes (rs @ [r]))\<rparr>) (rs @ [r])"
    using assms(1,4) by (simp add: journal_rep_def)
  ultimately show ?thesis by auto
qed

end
