(* ===== verification/Props_Journal.thy ===== *)
theory Props_Journal
  imports Journal_Refine
begin

text \<open>
  The properties of the journal: what is appended, how a rename rewrites it, what applying it
  does and how it ends, and the states in which it blocks or crashes.
\<close>

section \<open>Samples\<close>

definition sample_records :: "jrecord list" where
  "sample_records = [(zero_entry\<lparr>je_op := op_code OpMkdir, je_mode := 448\<rparr>, ''/d'', []),
     (zero_entry\<lparr>je_op := op_code OpFsync\<rparr>, ''/d/f'', [])]"

definition journal_of :: "jrecord list \<Rightarrow> journal" where
  "journal_of rs = \<lparr>j_file = Some (journal_bytes rs), j_fsync_file = None, j_action = ActionNone, j_fsync = no_fsync\<rparr>"

definition no_journal :: journal where
  "no_journal = \<lparr>j_file = None, j_fsync_file = None, j_action = ActionNone, j_fsync = no_fsync\<rparr>"

text \<open>A write-back that is always queued, and one that always fails.\<close>

definition queued :: "string \<Rightarrow> string list \<Rightarrow> (string list \<times> int) option" where
  "queued p w = Some (w @ [p], 0)"

definition refused :: "string \<Rightarrow> string list \<Rightarrow> (string list \<times> int) option" where
  "refused p w = Some (w, - ENOENT)"

lemma sample_records_wf: "\<forall>r\<in>set sample_records. wf_record r"
  by (simp add: sample_records_def wf_record_def wf_entry_def wf_path_def zero_entry_def PATH_MAX_def)

lemma sample_journal_rep: "journal_rep (journal_of sample_records) sample_records"
  by (simp add: journal_rep_def journal_of_def sample_records_wf)

section \<open>Appending\<close>

text \<open>C18: With enough room on the disk, appending an entry to a journal adds it, with its paths, at
  the end of the list that reading the journal gives.\<close>

theorem append_adds_entry:
  assumes "journal_rep j rs" "op \<noteq> OpRename \<or> rs = []" "r = (attrs\<lparr>je_op := op_code op\<rparr>, p, t)" "wf_record r"
    "ENTRY_BYTES + length p + length t \<le> room"
  shows "\<exists>j' room'. mcachefs_journal_append errno room j op p t attrs = Some (j', room') \<and>
    journal_rep j' (rs @ [r]) \<and> j_action j' = j_action j \<and> j_fsync j' = j_fsync j"
  by (rule append_record_ok [OF assms])

lemma append_adds_entry_witness:
  "\<exists>j' room'. mcachefs_journal_append 0 100 (journal_of sample_records) OpUnlink ''/d/g'' [] zero_entry = Some (j', room') \<and>
    journal_rep j' (sample_records @ [(zero_entry\<lparr>je_op := op_code OpUnlink\<rparr>, ''/d/g'', [])]) \<and>
    j_action j' = j_action (journal_of sample_records) \<and> j_fsync j' = j_fsync (journal_of sample_records)"
  by (rule append_adds_entry [OF sample_journal_rep])
    (simp_all add: wf_record_def wf_entry_def wf_path_def zero_entry_def PATH_MAX_def ENTRY_BYTES_def)

text \<open>C19: A rename rewrites a journal that is not empty: every fsync entry whose path begins with the
  renamed path, as a string, has that prefix replaced, the other entries stay, and the rename
  comes last.\<close>

theorem rename_rewrites_journal:
  assumes "j_file j = Some (journal_bytes rs)" "rs \<noteq> []" "\<forall>r\<in>set rs. wf_record r"
    "\<forall>r\<in>set rs. case retarget p t r of (e, q, u) \<Rightarrow> length q < PATH_MAX"
    "length (journal_bytes (map (retarget p t) rs @ [rename_record p t])) \<le> room"
  shows "\<exists>room'. mcachefs_journal_append errno room j OpRename p t attrs =
    Some (j\<lparr>j_file := Some (journal_bytes (map (retarget p t) rs @ [rename_record p t]))\<rparr>, room')"
proof -
  obtain c src where b: "journal_bytes rs = c # src" using assms(2) by (cases "journal_bytes rs") auto
  obtain room' where "mcachefs_journal_rebuild errno room (journal_bytes rs) p t =
      Some (journal_bytes (map (retarget p t) rs @ [rename_record p t]), room')"
    using rebuild_ok [OF assms(3-5)] by blast
  then show ?thesis
    using assms(1) by (simp add: mcachefs_journal_append_def b)
qed

text \<open>The witness shows the defect: renaming \<open>/d\<close> to \<open>/e\<close> also moves the fsync of \<open>/dx\<close>.\<close>

lemma rename_rewrites_journal_witness:
  "\<exists>room'. mcachefs_journal_append 0 300 (journal_of [(zero_entry\<lparr>je_op := op_code OpFsync\<rparr>, ''/dx'', [])]) OpRename ''/d'' ''/e'' zero_entry =
    Some (journal_of [(zero_entry\<lparr>je_op := op_code OpFsync\<rparr>, ''/ex'', []), rename_record ''/d'' ''/e''], room')"
proof -
  let ?j = "journal_of [(zero_entry\<lparr>je_op := op_code OpFsync\<rparr>, ''/dx'', [])]"
  have "map (retarget ''/d'' ''/e'') [(zero_entry\<lparr>je_op := op_code OpFsync\<rparr>, ''/dx'', [])] =
      [(zero_entry\<lparr>je_op := op_code OpFsync\<rparr>, ''/ex'', [])]"
    by (simp add: retarget_def zero_entry_def)
  then show ?thesis
    using rename_rewrites_journal [of ?j "[(zero_entry\<lparr>je_op := op_code OpFsync\<rparr>, ''/dx'', [])]" "''/d''" "''/e''" 300 0 zero_entry]
    by (simp add: journal_of_def retarget_def wf_record_def wf_entry_def wf_path_def zero_entry_def PATH_MAX_def
        journal_bytes_def length_record_bytes ENTRY_BYTES_def rename_record_def)
qed

text \<open>A path counts as renamed exactly when some rename of the journal goes to a path that is a
  prefix of it, whatever character follows.\<close>

theorem was_renamed_prefix:
  assumes "journal_rep j rs"
  shows "mcachefs_journal_was_renamed errno j newpath = Some (\<exists>r\<in>set rs. renames_to newpath r)"
proof (cases "j_file j")
  case None
  with assms show ?thesis by (simp add: mcachefs_journal_was_renamed_def journal_rep_def)
next
  case (Some b)
  with assms have wf: "\<forall>r\<in>set rs. wf_record r" and b: "b = journal_bytes rs"
    by (simp_all add: journal_rep_def)
  show ?thesis
    unfolding mcachefs_journal_was_renamed_def Some b option.case scan_walk [OF wf] walk_was_renamed
    by simp
qed

lemma was_renamed_prefix_witness:
  "mcachefs_journal_was_renamed 0 (journal_of sample_records) ''/d'' = Some (\<exists>r\<in>set sample_records. renames_to ''/d'' r)"
  by (rule was_renamed_prefix [OF sample_journal_rep])

section \<open>Applying\<close>

text \<open>C20: Applying an idle journal makes the system calls of its entries other than fsync, in their
  order, asks for the write-back of each fsync entry, and is done at once exactly when none of
  them is queued.\<close>

theorem apply_runs_journal:
  assumes "j_action j = ActionNone" "total_files (j_fsync j) = 0" "j_file j = Some (journal_bytes rs)"
    "\<forall>r\<in>set rs. wf_record r" "\<forall>r\<in>set rs. known_op r"
    "run_writebacks wb (fsync_paths rs) w = Some (w', rets)"
  shows "\<exists>j'. mcachefs_journal_apply errno source wb j w = Some (j', w', update_calls source rs) \<and>
    j_file j' = None \<and> (j_action j' = ActionNone \<longleftrightarrow> 0 \<notin> set rets) \<and>
    total_files (j_fsync j') = int (length rets)"
  using apply_ok [OF assms, of errno source] by (auto simp: writebacks_counted_def)

lemma apply_runs_journal_witness:
  "\<exists>j'. mcachefs_journal_apply 0 ''/src'' queued (journal_of sample_records) [] =
      Some (j', [''/d/f''], update_calls ''/src'' sample_records) \<and>
    j_file j' = None \<and> (j_action j' = ActionNone \<longleftrightarrow> 0 \<notin> set [0::int]) \<and>
    total_files (j_fsync j') = int (length [0::int])"
  by (rule apply_runs_journal [OF _ _ _ sample_records_wf])
    (simp_all add: journal_of_def no_fsync_def sample_records_def known_op_def zero_entry_def fsync_paths_def queued_def)

text \<open>C21: When some write-backs are queued, the application ends with the notifications of the
  queued ones, successful or not, in whatever number they are: the counters are cleared, the
  file of the synchronisation is removed and the journal is idle.\<close>

theorem apply_ends_with_notifications:
  assumes "j_action j = ActionNone" "total_files (j_fsync j) = 0" "j_file j = Some (journal_bytes rs)"
    "\<forall>r\<in>set rs. wf_record r" "\<forall>r\<in>set rs. known_op r"
    "run_writebacks wb (fsync_paths rs) w = Some (w', rets)" "0 \<in> set rets"
    "length bs = length (filter (\<lambda>r. r = 0) rets)"
  shows "\<exists>j' calls. mcachefs_journal_apply errno source wb j w = Some (j', w', calls) \<and>
    notify_all j' bs = Some no_journal"
proof -
  let ?j = "\<lparr>j_file = None, j_fsync_file = Some (journal_bytes rs), j_action = ActionSync,
    j_fsync = writebacks_counted rets\<rparr>"
  have "mcachefs_journal_apply errno source wb j w = Some (?j, w', update_calls source rs)"
    using apply_ok [OF assms(1-6), of errno source] assms(7) by simp
  moreover have "pending ?j = int (length bs)"
    using split_results [of rets] assms(8) by (simp add: pending_def writebacks_counted_def)
  moreover have "bs \<noteq> []" using assms(7,8) by (auto simp: filter_empty_conv)
  ultimately show ?thesis
    using notify_all_ok [of ?j bs] by (auto simp: no_journal_def)
qed

lemma apply_ends_with_notifications_witness:
  "\<exists>j' calls. mcachefs_journal_apply 0 ''/src'' queued (journal_of sample_records) [] = Some (j', [''/d/f''], calls) \<and>
    notify_all j' [False] = Some no_journal"
  by (rule apply_ends_with_notifications [OF _ _ _ sample_records_wf, where rets = "[0]"])
    (simp_all add: journal_of_def no_fsync_def sample_records_def known_op_def zero_entry_def fsync_paths_def queued_def)

section \<open>What goes wrong\<close>

text \<open>Applying when there is no journal file leaves the application marked as running: no later
  application does anything, whatever the journal then holds.\<close>

theorem apply_without_file_blocks:
  assumes "j_action j = ActionNone" "total_files (j_fsync j) = 0" "j_file j = None"
  shows "\<exists>j'. mcachefs_journal_apply errno source wb j w = Some (j', w, []) \<and>
    (\<forall>b. mcachefs_journal_apply errno source wb (j'\<lparr>j_file := b\<rparr>) w = Some (j'\<lparr>j_file := b\<rparr>, w, []))"
  using assms by (simp add: mcachefs_journal_apply_def mcachefs_journal_apply_updates_def)

lemma apply_without_file_blocks_witness:
  "\<exists>j'. mcachefs_journal_apply 0 ''/src'' queued no_journal [] = Some (j', [], []) \<and>
    (\<forall>b. mcachefs_journal_apply 0 ''/src'' queued (j'\<lparr>j_file := b\<rparr>) [] = Some (j'\<lparr>j_file := b\<rparr>, [], []))"
  by (rule apply_without_file_blocks) (simp_all add: no_journal_def no_fsync_def)

text \<open>When the journal has fsync entries and none of the write-backs is queued, the counters are
  not cleared although the application has ended: the next application crashes.\<close>

theorem failed_writebacks_crash_next_apply:
  assumes "j_action j = ActionNone" "total_files (j_fsync j) = 0" "j_file j = Some (journal_bytes rs)"
    "\<forall>r\<in>set rs. wf_record r" "\<forall>r\<in>set rs. known_op r"
    "run_writebacks wb (fsync_paths rs) w = Some (w', rets)" "rets \<noteq> []" "0 \<notin> set rets"
  shows "\<exists>j' calls. mcachefs_journal_apply errno source wb j w = Some (j', w', calls) \<and>
    j_action j' = ActionNone \<and> (\<forall>b. mcachefs_journal_apply errno source wb (j'\<lparr>j_file := b\<rparr>) w' = None)"
proof -
  let ?j = "\<lparr>j_file = None, j_fsync_file = None, j_action = ActionNone, j_fsync = writebacks_counted rets\<rparr>"
  have "\<not> (\<exists>r\<in>set rets. r = 0)" using assms(8) by simp
  then have "mcachefs_journal_apply errno source wb j w = Some (?j, w', update_calls source rs)"
    using apply_ok [OF assms(1-6), of errno source] by (simp only: if_False)
  moreover have "mcachefs_journal_apply errno source wb (?j\<lparr>j_file := b\<rparr>) w' = None" for b
    using assms(7) by (simp add: mcachefs_journal_apply_def writebacks_counted_def)
  ultimately show ?thesis by auto
qed

lemma failed_writebacks_crash_next_apply_witness:
  "\<exists>j' calls. mcachefs_journal_apply 0 ''/src'' refused (journal_of sample_records) [] = Some (j', [], calls) \<and>
    j_action j' = ActionNone \<and> (\<forall>b. mcachefs_journal_apply 0 ''/src'' refused (j'\<lparr>j_file := b\<rparr>) [] = None)"
  by (rule failed_writebacks_crash_next_apply [OF _ _ _ sample_records_wf, where rets = "[- ENOENT]"])
    (simp_all add: journal_of_def no_fsync_def sample_records_def known_op_def zero_entry_def fsync_paths_def
      refused_def errno_defs)

text \<open>A write to the journal that the disk cuts short inside the header is only logged; the next
  application crashes on the rest it left, if \<open>errno\<close> is not zero then.\<close>

theorem short_write_crashes_apply:
  assumes "journal_rep j rs" "op \<noteq> OpRename" "0 < room" "room < ENTRY_BYTES" "0 < errno"
    "\<forall>r\<in>set rs. known_op r" "j_action j = ActionNone"
  shows "\<exists>j' room'. mcachefs_journal_append errno room j op p t attrs = Some (j', room') \<and>
    mcachefs_journal_apply errno source wb j' w = None"
proof -
  let ?e = "attrs\<lparr>je_op := op_code op, je_path_sz := int (length p), je_to_sz := int (length t)\<rparr>"
  let ?w = "take room (entry_bytes ?e)"
  let ?j = "j\<lparr>j_file := Some (journal_bytes rs @ ?w)\<rparr>"
  have old: "(case j_file j of Some b \<Rightarrow> b | None \<Rightarrow> []) = journal_bytes rs"
    using assms(1) by (cases "j_file j") (simp_all add: journal_rep_def)
  have len: "length ?w = room" using assms(4) by simp
  have ne: "?w \<noteq> []" "length ?w < ENTRY_BYTES"
    using assms(3,4) len list.size(3) less_irrefl by metis+
  have "mcachefs_journal_append_entry room (attrs\<lparr>je_op := op_code op\<rparr>) p t = (- EIO, ?w, 0)"
    using assms(4) by (simp add: mcachefs_journal_append_entry_def Let_def)
  then have "mcachefs_journal_append errno room j op p t attrs = Some (?j, 0)"
    using assms(2) by (simp add: mcachefs_journal_append_def Let_def old)
  moreover have "mcachefs_journal_apply_updates errno source (Some (journal_bytes rs @ ?w)) = None"
    unfolding mcachefs_journal_apply_updates_def option.case
    by (subst scan_broken [OF _ ne _ _ walk_updates [OF assms(6)]])
      (use assms(1,5) in \<open>auto simp: journal_rep_def split: if_splits bind_splits\<close>)
  then have "mcachefs_journal_apply errno source wb ?j w = None"
    using assms(7) by (simp add: mcachefs_journal_apply_def)
  ultimately show ?thesis by blast
qed

lemma short_write_crashes_apply_witness:
  "\<exists>j' room'. mcachefs_journal_append 28 10 (journal_of sample_records) OpUnlink ''/d/g'' [] zero_entry = Some (j', room') \<and>
    mcachefs_journal_apply 28 ''/src'' queued j' [] = None"
  by (rule short_write_crashes_apply [OF sample_journal_rep])
    (simp_all add: ENTRY_BYTES_def journal_of_def sample_records_def known_op_def zero_entry_def)

text \<open>The number of entries the journal reports is that of the headers its whole size would hold.\<close>

lemma count_entries_by_size:
  assumes "j_file j = Some (journal_bytes rs)"
  shows "mcachefs_journal_count_entries j =
    (\<Sum>(e, p, t)\<leftarrow>rs. ENTRY_BYTES + length p + length t) div ENTRY_BYTES"
proof -
  have "length (journal_bytes rs) = (\<Sum>(e, p, t)\<leftarrow>rs. ENTRY_BYTES + length p + length t)"
    by (induction rs) (auto simp: journal_bytes_Cons length_record_bytes)
  with assms show ?thesis by (simp add: mcachefs_journal_count_entries_def)
qed

end
