(* ===== verification/Host.thy ===== *)
theory Host
  imports Path_Util "HOL-Library.Word"
begin

text \<open>
  The host's files, as far as the program uses them through system calls: the tree of the cache and
  of the source by absolute path, the contents of the files, and what the calls return.  A call on
  a path may be refused for reasons outside the model (\<open>h_refuse\<close>, an error number); a read or
  a write transfers at most as many bytes as \<open>h_read_max\<close> and \<open>h_write_max\<close> allow, or fails.  The
  names in a directory come in the order of \<open>h_listing\<close>, which depends on the tree.
\<close>

section \<open>State\<close>

text \<open>A regular file refers to its inode, of which several names may exist.\<close>

datatype hnode = HDir | HReg nat | HLink string

datatype host_call = CallOpen "32 word" "32 word" | CallLstat | CallStat | CallMkdir | CallMknod
  | CallTruncate int | CallUnlink | CallRmdir | CallRename string | CallLink string
  | CallSymlink string | CallReadlink | CallUtime int int

record host =
  h_nodes :: "string \<Rightarrow> hnode option"
  h_data :: "nat \<Rightarrow> string"
  h_mtime :: "nat \<Rightarrow> int"
  h_now :: int
  h_other_stat :: "string \<Rightarrow> int \<times> int"
  h_refuse :: "host_call \<Rightarrow> string \<Rightarrow> int option"
  h_read_max :: "nat \<Rightarrow> int \<Rightarrow> nat \<Rightarrow> int"
  h_write_max :: "nat \<Rightarrow> int \<Rightarrow> nat \<Rightarrow> int"
  h_listing :: "(string \<Rightarrow> hnode option) \<Rightarrow> string \<Rightarrow> string list"

definition O_RDONLY :: "32 word" where "O_RDONLY = 0"
definition O_WRONLY :: "32 word" where "O_WRONLY = 1"
definition O_RDWR :: "32 word" where "O_RDWR = 2"
definition O_CREAT :: "32 word" where "O_CREAT = 0x40"

definition IS_WRITE :: "32 word \<Rightarrow> bool" where
  "IS_WRITE flag \<longleftrightarrow> and flag (or O_RDWR O_WRONLY) \<noteq> 0"

definition ELOOP :: int where "ELOOP = 40"

text \<open>The inode numbers in use are given with a new file; 0 stands for a directory.\<close>

definition host_new :: "host \<Rightarrow> nat \<Rightarrow> bool" where
  "host_new h i \<longleftrightarrow> i \<noteq> 0 \<and> (\<forall>p. h_nodes h p \<noteq> Some (HReg i))"

section \<open>Paths\<close>

text \<open>What precedes the last slash.\<close>

definition dir_of :: "string \<Rightarrow> string" where
  "dir_of p = rev (tl (dropWhile (\<lambda>c. c \<noteq> CHR ''/'') (rev p)))"

text \<open>Where a path leads through symbolic links, of which the host follows forty.\<close>

fun host_resolve :: "nat \<Rightarrow> host \<Rightarrow> string \<Rightarrow> string option" where
  "host_resolve 0 h p = None"
| "host_resolve (Suc n) h p =
     (case h_nodes h p of
        Some (HLink t) \<Rightarrow> host_resolve n h (if take 1 t = ''/'' then t else dir_of p @ ''/'' @ t)
      | _ \<Rightarrow> Some p)"

definition MAX_SYMLINKS :: nat where "MAX_SYMLINKS = 40"

section \<open>Calls\<close>

definition host_lstat :: "host \<Rightarrow> string \<Rightarrow> hnode option" where
  "host_lstat h p = (if h_refuse h CallLstat p \<noteq> None then None else h_nodes h p)"

definition host_stat :: "host \<Rightarrow> string \<Rightarrow> hnode option" where
  "host_stat h p = (if h_refuse h CallStat p \<noteq> None then None
     else do { p \<leftarrow> host_resolve (Suc MAX_SYMLINKS) h p; h_nodes h p })"

text \<open>The modification time and the size; \<open>h_other_stat\<close> has those of directories and links.\<close>

definition stat_times_size :: "host \<Rightarrow> string \<Rightarrow> hnode \<Rightarrow> int \<times> int" where
  "stat_times_size h p n = (case n of HReg i \<Rightarrow> (h_mtime h i, int (length (h_data h i))) | _ \<Rightarrow> h_other_stat h p)"

text \<open>The inode opened, or an error number.\<close>

definition host_open :: "host \<Rightarrow> string \<Rightarrow> 32 word \<Rightarrow> 32 word \<Rightarrow> int + nat" where
  "host_open h path flags mode =
     (case h_refuse h (CallOpen flags mode) path of
        Some e \<Rightarrow> Inl e
      | None \<Rightarrow> (case host_resolve (Suc MAX_SYMLINKS) h path of
            None \<Rightarrow> Inl ELOOP
          | Some p \<Rightarrow> (case h_nodes h p of
                Some (HReg i) \<Rightarrow> Inr i
              | Some HDir \<Rightarrow> if IS_WRITE flags then Inl EISDIR else Inr 0
              | _ \<Rightarrow> Inl ENOENT)))"

text \<open>A call that changes the tree: the error number, 0 for success.\<close>

definition refused :: "host \<Rightarrow> host_call \<Rightarrow> string \<Rightarrow> (unit \<Rightarrow> host \<times> int) \<Rightarrow> host \<times> int" where
  "refused h c p g = (case h_refuse h c p of Some e \<Rightarrow> (h, e) | None \<Rightarrow> g ())"

definition host_make :: "host \<Rightarrow> host_call \<Rightarrow> string \<Rightarrow> hnode \<Rightarrow> host \<times> int" where
  "host_make h c p n = refused h c p (\<lambda>_.
     if h_nodes h p \<noteq> None then (h, EEXIST)
     else if h_nodes h (dir_of p) \<noteq> Some HDir then (h, ENOENT)
     else (h\<lparr>h_nodes := (h_nodes h)(p \<mapsto> n)\<rparr>, 0))"

definition host_mkdir :: "host \<Rightarrow> string \<Rightarrow> host \<times> int" where
  "host_mkdir h p = host_make h CallMkdir p HDir"

text \<open>\<open>mknod\<close> of an empty regular file with the new inode \<open>i\<close>.\<close>

definition host_mknod :: "host \<Rightarrow> nat \<Rightarrow> string \<Rightarrow> host \<times> int" where
  "host_mknod h i p = (let (h, e) = host_make h CallMknod p (HReg i) in
     if e \<noteq> 0 then (h, e)
     else (h\<lparr>h_data := (h_data h)(i := []), h_mtime := (h_mtime h)(i := h_now h)\<rparr>, 0))"

definition host_symlink :: "host \<Rightarrow> string \<Rightarrow> string \<Rightarrow> host \<times> int" where
  "host_symlink h target p = host_make h (CallSymlink target) p (HLink target)"

definition host_link :: "host \<Rightarrow> string \<Rightarrow> string \<Rightarrow> host \<times> int" where
  "host_link h p to = (case h_nodes h p of
       None \<Rightarrow> (h, ENOENT)
     | Some HDir \<Rightarrow> (h, EPERM)
     | Some n \<Rightarrow> host_make h (CallLink p) to n)"

definition host_unlink :: "host \<Rightarrow> string \<Rightarrow> host \<times> int" where
  "host_unlink h p = refused h CallUnlink p (\<lambda>_. case h_nodes h p of
       None \<Rightarrow> (h, ENOENT)
     | Some HDir \<Rightarrow> (h, EISDIR)
     | Some n \<Rightarrow> (h\<lparr>h_nodes := (h_nodes h)(p := None)\<rparr>, 0))"

text \<open>Reading a directory; it is empty when it has no names but those of itself and its father.\<close>

definition host_readdir :: "host \<Rightarrow> string \<Rightarrow> string list" where
  "host_readdir h p = h_listing h (h_nodes h) p"

definition host_dir_empty :: "host \<Rightarrow> string \<Rightarrow> bool" where
  "host_dir_empty h p \<longleftrightarrow> list_all (\<lambda>n. n = ''.'' \<or> n = ''..'') (host_readdir h p)"

text \<open>As documented: a directory lists itself, its father and what the tree has below it.\<close>

definition listing_ok :: "host \<Rightarrow> bool" where
  "listing_ok h \<longleftrightarrow> (\<forall>p. h_nodes h p = Some HDir \<longrightarrow> distinct (host_readdir h p) \<and>
     set (host_readdir h p) = {''.'', ''..''} \<union>
       {n. CHR ''/'' \<notin> set n \<and> n \<noteq> [] \<and> n \<noteq> ''.'' \<and> n \<noteq> ''..'' \<and> h_nodes h (p @ ''/'' @ n) \<noteq> None})"

definition host_rmdir :: "host \<Rightarrow> string \<Rightarrow> host \<times> int" where
  "host_rmdir h p = refused h CallRmdir p (\<lambda>_. case h_nodes h p of
       None \<Rightarrow> (h, ENOENT)
     | Some HDir \<Rightarrow> if host_dir_empty h p then (h\<lparr>h_nodes := (h_nodes h)(p := None)\<rparr>, 0) else (h, ENOTEMPTY)
     | _ \<Rightarrow> (h, ENOTDIR))"

text \<open>A path that is \<open>p\<close> or lies below it; and the tree with \<open>p\<close> moved to \<open>q\<close>.\<close>

definition below :: "string \<Rightarrow> string \<Rightarrow> bool" where
  "below p r \<longleftrightarrow> r = p \<or> take (length p + 1) r = p @ ''/''"

definition moved_tree :: "(string \<Rightarrow> hnode option) \<Rightarrow> string \<Rightarrow> string \<Rightarrow> string \<Rightarrow> hnode option" where
  "moved_tree nodes p q r = (if below q r then nodes (p @ drop (length q) r)
     else if below p r then None else nodes r)"

definition host_rename :: "host \<Rightarrow> string \<Rightarrow> string \<Rightarrow> host \<times> int" where
  "host_rename h p q = refused h (CallRename q) p (\<lambda>_. case h_nodes h p of
       None \<Rightarrow> (h, ENOENT)
     | Some n \<Rightarrow>
         if h_nodes h (dir_of q) \<noteq> Some HDir then (h, ENOENT)
         else if q = p then (h, 0)
         else if below p q then (h, if n = HDir then EINVAL else ENOTDIR)
         else (case h_nodes h q of
             None \<Rightarrow> (h\<lparr>h_nodes := moved_tree (h_nodes h) p q\<rparr>, 0)
           | Some HDir \<Rightarrow> if n \<noteq> HDir then (h, EISDIR) else if \<not> host_dir_empty h q then (h, ENOTEMPTY)
               else (h\<lparr>h_nodes := moved_tree (h_nodes h) p q\<rparr>, 0)
           | Some (HReg i) \<Rightarrow> if n = HDir then (h, ENOTDIR)
               else if n = HReg i then (h, 0) else (h\<lparr>h_nodes := moved_tree (h_nodes h) p q\<rparr>, 0)
           | Some (HLink t) \<Rightarrow> if n = HDir then (h, ENOTDIR) else (h\<lparr>h_nodes := moved_tree (h_nodes h) p q\<rparr>, 0)))"

text \<open>The first \<open>n\<close> bytes of a link, or an error number.\<close>

definition host_readlink :: "host \<Rightarrow> string \<Rightarrow> nat \<Rightarrow> int + string" where
  "host_readlink h p n = (case h_refuse h CallReadlink p of
       Some e \<Rightarrow> Inl e
     | None \<Rightarrow> (case h_nodes h p of
           Some (HLink t) \<Rightarrow> Inr (take n t)
         | Some _ \<Rightarrow> Inl EINVAL
         | None \<Rightarrow> Inl ENOENT))"

text \<open>The bytes at an offset; what lies behind the old end is zero.\<close>

definition write_at :: "string \<Rightarrow> nat \<Rightarrow> string \<Rightarrow> string" where
  "write_at old at bs = take at (old @ replicate (at - length old) NUL) @ bs @ drop (at + length bs) old"

definition host_truncate :: "host \<Rightarrow> string \<Rightarrow> int \<Rightarrow> host \<times> int" where
  "host_truncate h p n = refused h (CallTruncate n) p (\<lambda>_.
     if n < 0 then (h, EINVAL)
     else case host_resolve (Suc MAX_SYMLINKS) h p of
       None \<Rightarrow> (h, ELOOP)
     | Some p \<Rightarrow> (case h_nodes h p of
           Some (HReg i) \<Rightarrow> (h\<lparr>h_data := (h_data h)(i := take (nat n)
               (h_data h i @ replicate (nat n - length (h_data h i)) NUL)), h_mtime := (h_mtime h)(i := h_now h)\<rparr>, 0)
         | Some HDir \<Rightarrow> (h, EISDIR)
         | _ \<Rightarrow> (h, ENOENT)))"

definition host_utime :: "host \<Rightarrow> string \<Rightarrow> int \<Rightarrow> int \<Rightarrow> host \<times> int" where
  "host_utime h p actime modtime = refused h (CallUtime actime modtime) p (\<lambda>_.
     case host_resolve (Suc MAX_SYMLINKS) h p of
       None \<Rightarrow> (h, ELOOP)
     | Some p \<Rightarrow> (case h_nodes h p of
           Some (HReg i) \<Rightarrow> (h\<lparr>h_mtime := (h_mtime h)(i := modtime)\<rparr>, 0)
         | Some HDir \<Rightarrow> (h, 0)
         | _ \<Rightarrow> (h, ENOENT)))"

text \<open>Reading and writing an inode at an offset: the number of bytes, or minus an error number.\<close>

definition host_pread :: "host \<Rightarrow> nat \<Rightarrow> nat \<Rightarrow> int \<Rightarrow> int \<times> string" where
  "host_pread h i n at =
     (if i = 0 then (- EISDIR, [])
      else if at < 0 then (- EINVAL, [])
      else if h_read_max h i at n < 0 then (h_read_max h i at n, [])
      else let bs = take (nat (h_read_max h i at n)) (take n (drop (nat at) (h_data h i)))
        in (int (length bs), bs))"

definition host_pwrite :: "host \<Rightarrow> nat \<Rightarrow> string \<Rightarrow> int \<Rightarrow> host \<times> int" where
  "host_pwrite h i bs at =
     (if i = 0 then (h, - EBADF)
      else if at < 0 then (h, - EINVAL)
      else if h_write_max h i at (length bs) < 0 then (h, h_write_max h i at (length bs))
      else let bs = take (nat (h_write_max h i at (length bs))) bs
        in (if bs = [] then h else h\<lparr>h_data := (h_data h)(i := write_at (h_data h i) (nat at) bs),
              h_mtime := (h_mtime h)(i := h_now h)\<rparr>, int (length bs)))"

text \<open>A host that refuses nothing and transfers all that is asked.\<close>

definition willing :: "host \<Rightarrow> bool" where
  "willing h \<longleftrightarrow> (\<forall>c p. h_refuse h c p = None) \<and> (\<forall>i at n. int n \<le> h_read_max h i at n) \<and>
     (\<forall>i at n. int n \<le> h_write_max h i at n)"

text \<open>Error numbers are positive.\<close>

definition host_errors_ok :: "host \<Rightarrow> bool" where
  "host_errors_ok h \<longleftrightarrow> (\<forall>c p x. h_refuse h c p = Some x \<longrightarrow> 0 < x)"

lemma willing_errors_ok: "willing h \<Longrightarrow> host_errors_ok h"
  by (simp add: willing_def host_errors_ok_def)

lemma host_open_error: "host_open h path flags mode = Inl x \<Longrightarrow> host_errors_ok h \<Longrightarrow> 0 < x"
  by (auto simp: host_open_def host_errors_ok_def ELOOP_def errno_defs split: option.splits hnode.splits if_splits)

lemma host_resolve_node: "h_nodes h p = Some (HReg i) \<Longrightarrow> host_resolve (Suc n) h p = Some p"
  by simp

end
