(* ===== verification/File.thy ===== *)
theory File
  imports File_Slices Meta_Ops Journal Host
begin

text \<open>
  The open files of src/src/mcachefs-file.c: their creation and reuse, the descriptors of their
  two sources (the cache and the real file) with their use counts, their release.

  The system's file descriptors are the list of the open ones, each with the inode it reads and
  writes; \<open>open\<close> returns the lowest free number, as POSIX has it, or an error number.  Locks are held as in
  the code; while one thread sleeps with the lock of a file released, the others may change the
  source it waits for.
\<close>

section \<open>State and environment\<close>

record fworld =
  fw_ms :: mstate
  fw_fds :: "int list"
  fw_ino :: "int \<Rightarrow> nat"
  fw_host :: host

text \<open>
  The directories and the identity of the process; the configuration and the journal; the
  address that \<open>malloc\<close> returns (0 when out of memory); what the other threads make of the open
  files and their descriptors in one second.
\<close>

record fenv =
  fe_env :: env
  fe_config :: config
  fe_journal :: journal
  fe_read_errno :: int
  fe_malloc :: "mstate \<Rightarrow> fh"
  fe_others :: "fworld \<Rightarrow> fworld"

abbreviation MCACHEFS_FILE_SOURCE_BACKING :: nat where "MCACHEFS_FILE_SOURCE_BACKING \<equiv> 0"
abbreviation MCACHEFS_FILE_SOURCE_REAL :: nat where "MCACHEFS_FILE_SOURCE_REAL \<equiv> 1"

text \<open>\<open>sources[real]\<close>.\<close>

definition source_of_file :: "nat \<Rightarrow> mfile \<Rightarrow> file_source" where
  "source_of_file real m = (if real = MCACHEFS_FILE_SOURCE_BACKING then mf_backing m else mf_real m)"

definition with_source :: "nat \<Rightarrow> (file_source \<Rightarrow> file_source) \<Rightarrow> mfile \<Rightarrow> mfile" where
  "with_source real g m = (if real = MCACHEFS_FILE_SOURCE_BACKING
     then m\<lparr>mf_backing := g (mf_backing m)\<rparr> else m\<lparr>mf_real := g (mf_real m)\<rparr>)"

definition upd_source :: "fworld \<Rightarrow> fh \<Rightarrow> nat \<Rightarrow> (file_source \<Rightarrow> file_source) \<Rightarrow> fworld option" where
  "upd_source w f real g = map_option (\<lambda>s. w\<lparr>fw_ms := s\<rparr>) (updf (fw_ms w) f (with_source real g))"

definition lowest_free :: "int list \<Rightarrow> int" where
  "lowest_free fds = hd (filter (\<lambda>n. n \<notin> set fds) (map int [0..<Suc (length fds)]))"

text \<open>\<open>open\<close>: the descriptor and \<open>errno\<close>; and \<open>close\<close>.\<close>

definition os_open :: "fworld \<Rightarrow> string \<Rightarrow> 32 word \<Rightarrow> 32 word \<Rightarrow> fworld \<times> int \<times> int" where
  "os_open w path flags mode =
     (case host_open (fw_host w) path flags mode of
        Inl errno \<Rightarrow> (w, -1, errno)
      | Inr i \<Rightarrow> (let fd = lowest_free (fw_fds w)
          in (w\<lparr>fw_fds := fd # fw_fds w, fw_ino := (fw_ino w)(fd := i)\<rparr>, fd, 0)))"

definition os_close :: "fworld \<Rightarrow> int \<Rightarrow> fworld" where
  "os_close w fd = w\<lparr>fw_fds := removeAll fd (fw_fds w)\<rparr>"

section \<open>Files\<close>

text \<open>The constant that \<open>path\<close> is set to; paths begin with a slash.\<close>

definition mcachefs_file_path_deleted :: string where
  "mcachefs_file_path_deleted = ''DELETED''"

definition mcachefs_file_init :: "mstate \<Rightarrow> fh \<Rightarrow> string option \<Rightarrow> hash_t \<Rightarrow> file_type \<Rightarrow> mstate option" where
  "mcachefs_file_init s fh path h type =
     updf s fh (\<lambda>_. zero_mfile\<lparr>mf_metadata_id := 0, mf_hash := h, mf_path := path, mf_use := 1,
       mf_backing := mcachefs_file_source_init zero_source,
       mf_real := mcachefs_file_source_init zero_source,
       mf_cache_status := BackingNone, mf_timeslice := -1, mf_ts_previous := 0, mf_ts_next := 0,
       mf_type := type\<rparr>)"

text \<open>A freed structure is reused first.\<close>

definition mcachefs_file_add :: "fenv \<Rightarrow> mstate \<Rightarrow> (mstate \<times> fh) option" where
  "mcachefs_file_add e s = do {
     (s, mfile) \<leftarrow> mcachefs_file_timeslice_get_freed s;
     (s, mfile) \<leftarrow> Some (if mfile = 0 then (let f = fe_malloc e s in (s\<lparr>files := (files s)(f \<mapsto> zero_mfile)\<rparr>, f))
       else (s, mfile));
     s \<leftarrow> updf s mfile (\<lambda>_. zero_mfile);
     Some (s, mfile)
   }"

definition mcachefs_fileid_get ::
  "fenv \<Rightarrow> mstate \<Rightarrow> mid \<Rightarrow> string option \<Rightarrow> file_type \<Rightarrow> (mstate \<times> fh) option" where
  "mcachefs_fileid_get e s mdata path type = do {
     mfh \<leftarrow> ld s mdata md_fh;
     i \<leftarrow> ld s mdata md_id;
     if mfh \<noteq> 0 then do {
       m \<leftarrow> ldf s mfh (\<lambda>m. m);
       if mf_metadata_id m \<noteq> i \<or> mf_type m \<noteq> type then Bug
       else do {
         s \<leftarrow> updf s mfh (\<lambda>m. m\<lparr>mf_use := mf_use m + 1\<rparr>);
         Some (s, mfh)
       }
     }
     else do {
       (s, f) \<leftarrow> mcachefs_file_add e s;
       s \<leftarrow> upd s mdata (\<lambda>m. m\<lparr>md_fh := f\<rparr>);
       mypath \<leftarrow> (case path of None \<Rightarrow> mcachefs_metadata_get_path s mdata | Some p \<Rightarrow> Some p);
       s \<leftarrow> mcachefs_file_init s f (Some mypath) (doHash mypath) type;
       s \<leftarrow> updf s f (\<lambda>m. m\<lparr>mf_metadata_id := i\<rparr>);
       s \<leftarrow> mcachefs_file_timeslice_insert s f;
       Some (s, f)
     }
   }"

section \<open>Releasing\<close>

definition mcachefs_file_cleanup_file_source :: "fworld \<Rightarrow> fh \<Rightarrow> nat \<Rightarrow> fworld option" where
  "mcachefs_file_cleanup_file_source w f real = do {
     src \<leftarrow> ldf (fw_ms w) f (source_of_file real);
     if src_use src = 0 \<and> src_fd src \<noteq> -1
     then upd_source (os_close w (src_fd src)) f real (\<lambda>src. src\<lparr>src_fd := -1\<rparr>)
     else Some w
   }"

definition mcachefs_file_cleanup_file :: "fworld \<Rightarrow> fh \<Rightarrow> fworld option" where
  "mcachefs_file_cleanup_file w f = do {
     m \<leftarrow> ldf (fw_ms w) f (\<lambda>m. m);
     if mf_type m \<noteq> FileType then Some w
     else do {
       w \<leftarrow> mcachefs_file_cleanup_file_source w f MCACHEFS_FILE_SOURCE_REAL;
       if mf_cache_status m = BackingDone
       then mcachefs_file_cleanup_file_source w f MCACHEFS_FILE_SOURCE_BACKING
       else Some w
     }
   }"

definition mcachefs_file_remove :: "mstate \<Rightarrow> fh \<Rightarrow> mstate option" where
  "mcachefs_file_remove s f = do {
     s \<leftarrow> mcachefs_file_timeslice_remove s f;
     m \<leftarrow> ldf s f (\<lambda>m. m);
     s \<leftarrow> (if mf_metadata_id m \<noteq> 0 then do {
             s \<leftarrow> mcachefs_metadata_clean_fh_locked s (mf_metadata_id m);
             if mf_use m \<noteq> 0 then Bug else Some s
           } else Some s);
     if mf_path m = Some mcachefs_file_path_deleted then Bug
     else do {
       s \<leftarrow> updf s f (\<lambda>m. m\<lparr>mf_path := Some mcachefs_file_path_deleted\<rparr>);
       mcachefs_file_timeslice_insert_in_freed s f
     }
   }"

definition mcachefs_file_release :: "fworld \<Rightarrow> fh \<Rightarrow> fworld option" where
  "mcachefs_file_release w f = do {
     u \<leftarrow> ldf (fw_ms w) f mf_use;
     if u = 0 then Bug
     else do {
       s \<leftarrow> updf (fw_ms w) f (\<lambda>m. m\<lparr>mf_use := mf_use m - 1\<rparr>);
       let w = w\<lparr>fw_ms := s\<rparr>;
       if u - 1 \<noteq> 0 then Some w
       else do {
         t \<leftarrow> ldf (fw_ms w) f mf_type;
         (case t of
            FileType \<Rightarrow> do {
              w \<leftarrow> mcachefs_file_cleanup_file w f;
              s \<leftarrow> mcachefs_file_remove (fw_ms w) f;
              Some (w\<lparr>fw_ms := s\<rparr>)
            }
          | VopsType \<Rightarrow> Some w
          | DirType \<Rightarrow> do {
              s \<leftarrow> mcachefs_file_remove (fw_ms w) f;
              Some (w\<lparr>fw_ms := s\<rparr>)
            }
          | NoType \<Rightarrow> Bug)
       }
     }
   }"

definition mcachefs_fileid_put :: "fworld \<Rightarrow> fh \<Rightarrow> fworld option" where
  "mcachefs_fileid_put w fdi = mcachefs_file_release w fdi"

section \<open>Descriptors\<close>

text \<open>A descriptor that is open read-only and asked for writing waits until nobody uses it.\<close>

partial_function (option) wait_unused :: "(fworld \<Rightarrow> fworld) \<Rightarrow> fh \<Rightarrow> nat \<Rightarrow> fworld \<Rightarrow> fworld option" where
  "wait_unused others f real w = do {
     src \<leftarrow> ldf (fw_ms w) f (source_of_file real);
     if src_use src = 0 then Some w else wait_unused others f real (others w)
   }"

declare wait_unused.simps [code]

definition mcachefs_file_may_reuse_source ::
  "fenv \<Rightarrow> fworld \<Rightarrow> fh \<Rightarrow> nat \<Rightarrow> nat \<Rightarrow> (fworld \<times> bool) option" where
  "mcachefs_file_may_reuse_source e w f real asked_wr = do {
     src \<leftarrow> ldf (fw_ms w) f (source_of_file real);
     if src_fd src \<noteq> -1 then
       if asked_wr \<le> src_wr src then do {
         w \<leftarrow> upd_source w f real (\<lambda>src. src\<lparr>src_use := src_use src + 1\<rparr>);
         Some (w, True)
       }
       else do {
         w \<leftarrow> wait_unused (fe_others e) f real w;
         src \<leftarrow> ldf (fw_ms w) f (source_of_file real);
         w \<leftarrow> upd_source (os_close w (src_fd src)) f real (\<lambda>src. src\<lparr>src_fd := -1\<rparr>);
         Some (w, False)
       }
     else Some (w, False)
   }"

definition mcachefs_file_do_open ::
  "fenv \<Rightarrow> fworld \<Rightarrow> fh \<Rightarrow> 32 word \<Rightarrow> 32 word \<Rightarrow> nat \<Rightarrow> string option \<Rightarrow> (fworld \<times> int) option" where
  "mcachefs_file_do_open e w f flags mode real prefix = do {
     let asked_wr = (if IS_WRITE flags then 1 else 0);
     (w, reuse) \<leftarrow> mcachefs_file_may_reuse_source e w f real asked_wr;
     if reuse then do {
       fd \<leftarrow> ldf (fw_ms w) f (\<lambda>m. src_fd (source_of_file real m));
       Some (w, fd)
     }
     else do {
       path \<leftarrow> ldf (fw_ms w) f mf_path;
       path \<leftarrow> path;
       prefix \<leftarrow> prefix;
       let (w, fd, errno) = os_open w (mcachefs_makepath path prefix) flags
             (if and flags O_CREAT \<noteq> 0 then mode else 0);
       w \<leftarrow> upd_source w f real (\<lambda>src. src\<lparr>src_fd := fd\<rparr>);
       if fd = -1 then Some (w, - errno)
       else do {
         w \<leftarrow> upd_source w f real (\<lambda>src. src\<lparr>src_use := src_use src + 1, src_wr := asked_wr\<rparr>);
         Some (w, fd)
       }
     }
   }"

definition mcachefs_file_getfd_mode ::
  "fenv \<Rightarrow> fworld \<Rightarrow> fh \<Rightarrow> nat \<Rightarrow> 32 word \<Rightarrow> 32 word \<Rightarrow> (fworld \<times> int) option" where
  "mcachefs_file_getfd_mode e w f real flags mode =
     (if real \<noteq> 0 then
        if cfg_read_state (fe_config e) = read_state_code StateHandsup then Bug
        else do {
          (w, fd) \<leftarrow> mcachefs_file_do_open e w f flags mode MCACHEFS_FILE_SOURCE_REAL (cfg_source (fe_config e));
          if fd < 0 then do {
            path \<leftarrow> ldf (fw_ms w) f mf_path;
            path \<leftarrow> path;
            renamed \<leftarrow> mcachefs_journal_was_renamed (fe_read_errno e) (fe_journal e) path;
            Some (w, if renamed then - EIO else fd)
          }
          else Some (w, fd)
        }
      else do {
        m \<leftarrow> ldf (fw_ms w) f (\<lambda>m. m);
        if mode = O_RDONLY \<and> mf_cache_status m = BackingNone then Some (w, - EIO)
        else if and mode O_CREAT \<noteq> 0 \<and> src_fd (mf_backing m) \<noteq> -1 then Some (w, - EIO)
        else mcachefs_file_do_open e w f flags mode MCACHEFS_FILE_SOURCE_BACKING (cfg_cache (fe_config e))
      })"

definition mcachefs_file_getfd :: "fenv \<Rightarrow> fworld \<Rightarrow> fh \<Rightarrow> nat \<Rightarrow> 32 word \<Rightarrow> (fworld \<times> int) option" where
  "mcachefs_file_getfd e w f real flags =
     (if and flags O_CREAT \<noteq> 0 then Some (w, - EPERM)
      else mcachefs_file_getfd_mode e w f real flags 0)"

text \<open>A count that is already zero is only logged.\<close>

definition mcachefs_file_source_putfd :: "fworld \<Rightarrow> fh \<Rightarrow> nat \<Rightarrow> fworld option" where
  "mcachefs_file_source_putfd w f real =
     upd_source w f real (\<lambda>src. if src_use src = 0 then src else src\<lparr>src_use := src_use src - 1\<rparr>)"

definition mcachefs_file_putfd :: "fworld \<Rightarrow> fh \<Rightarrow> int \<Rightarrow> fworld option" where
  "mcachefs_file_putfd w f real =
     (if real < 0 \<or> real > 1 then Bug else mcachefs_file_source_putfd w f (nat real))"

section \<open>Metadata of a file\<close>

definition mcachefs_file_get_metadata :: "fenv \<Rightarrow> fworld \<Rightarrow> fh \<Rightarrow> (fworld \<times> mid) option" where
  "mcachefs_file_get_metadata e w f = do {
     m \<leftarrow> ldf (fw_ms w) f (\<lambda>m. m);
     if mf_metadata_id m = 0 then
       (case mf_path m of
          None \<Rightarrow> Some (w, 0)
        | Some path \<Rightarrow> do {
            (s, mdata) \<leftarrow> mcachefs_metadata_find_locked (fe_env e) (fw_ms w) path;
            if mdata \<noteq> 0 then do {
              i \<leftarrow> ld s mdata md_id;
              s \<leftarrow> updf s f (\<lambda>m. m\<lparr>mf_metadata_id := i\<rparr>);
              Some (w\<lparr>fw_ms := s\<rparr>, mdata)
            }
            else Some (w\<lparr>fw_ms := s\<rparr>, 0)
          })
     else do {
       mdata \<leftarrow> do_get (fw_ms w) (mf_metadata_id m);
       Some (w, mdata)
     }
   }"

definition mcachefs_file_update_metadata :: "fenv \<Rightarrow> fworld \<Rightarrow> fh \<Rightarrow> int \<Rightarrow> bool \<Rightarrow> fworld option" where
  "mcachefs_file_update_metadata e w f sz modified = do {
     let now = env_now (fe_env e);
     (w, mdata) \<leftarrow> mcachefs_file_get_metadata e w f;
     if mdata = 0 then Some w
     else do {
       s \<leftarrow> upd (fw_ms w) mdata (\<lambda>m. if st_size (md_st m) < sz then m\<lparr>md_st := (md_st m)\<lparr>st_size := sz\<rparr>\<rparr> else m);
       s \<leftarrow> upd s mdata (\<lambda>m. m\<lparr>md_st := (md_st m)\<lparr>st_atime := now\<rparr>\<rparr>);
       s \<leftarrow> (if modified then upd s mdata (\<lambda>m. m\<lparr>md_st := (md_st m)\<lparr>st_mtime := now\<rparr>\<rparr>) else Some s);
       s \<leftarrow> mcachefs_metadata_notify_update s mdata;
       Some (w\<lparr>fw_ms := s\<rparr>)
     }
   }"

section \<open>The thread of the slices\<close>

definition cleanup_vops_file :: "fworld \<Rightarrow> fh \<Rightarrow> fworld option" where
  "cleanup_vops_file w f = map_option (\<lambda>s. w\<lparr>fw_ms := s\<rparr>) (updf (fw_ms w) f mcachefs_vops_cleanup_vops)"

text \<open>
  Every file of the slice as old as the time to live gives up its unused descriptors, every
  virtual file of the last slice its contents; once a turn the freed structures are released.
\<close>

definition mcachefs_file_timeslice_cleanup :: "fenv \<Rightarrow> fworld \<Rightarrow> fworld option" where
  "mcachefs_file_timeslice_cleanup e w = do {
     w \<leftarrow> mcachefs_file_timeslice_cleanup_list fw_ms w (mcachefs_config_get_file_ttl (fe_config e))
            mcachefs_file_cleanup_file;
     w \<leftarrow> mcachefs_file_timeslice_cleanup_list fw_ms w 1 cleanup_vops_file;
     if timeslice_current (fw_ms w) = 0
     then map_option (\<lambda>s. w\<lparr>fw_ms := s\<rparr>) (mcachefs_file_timeslice_cleanup_freed (fw_ms w))
     else Some w
   }"

text \<open>One round of the thread; it ends when the state is quitting.\<close>

definition mcachefs_file_thread :: "fenv \<Rightarrow> fworld \<Rightarrow> (fworld \<times> bool) option" where
  "mcachefs_file_thread e w =
     (if mcachefs_config_get_read_state (fe_config e) = read_state_code StateQuitting then Some (w, True)
      else do {
        w \<leftarrow> mcachefs_file_timeslice_cleanup e w;
        s \<leftarrow> mcachefs_file_timeslice_update (fw_ms w);
        Some (w\<lparr>fw_ms := s\<rparr>, False)
      })"

end
