(* ===== verification/File_Refine.thy ===== *)
theory File_Refine
  imports File Slices_Clock
begin

text \<open>
  Descriptors and lists of the open files: every descriptor of a source is open and belongs to
  one source only; the changes of a file that do not concern its list leave the lists as they
  are.
\<close>

section \<open>Free descriptors\<close>

lemma lowest_free_fresh: "lowest_free fds \<notin> set fds" "0 \<le> lowest_free fds"
proof -
  let ?c = "map int [0..<Suc (length fds)]"
  have "filter (\<lambda>n. n \<notin> set fds) ?c \<noteq> []"
  proof
    assume "filter (\<lambda>n. n \<notin> set fds) ?c = []"
    then have "set ?c \<subseteq> set fds" unfolding filter_empty_conv by blast
    then have "card (set ?c) \<le> length fds" by (meson card_length card_mono finite_set le_trans)
    moreover have "card (set ?c) = Suc (length fds)"
      by (subst distinct_card) (auto simp: distinct_map inj_on_def)
    ultimately show False by simp
  qed
  then have "lowest_free fds \<in> set (filter (\<lambda>n. n \<notin> set fds) ?c)"
    unfolding lowest_free_def by (rule hd_in_set)
  then have "lowest_free fds \<in> set ?c \<and> lowest_free fds \<notin> set fds" unfolding set_filter by blast
  moreover have "\<forall>n\<in>set ?c. 0 \<le> n" by (simp del: upt_Suc)
  ultimately show "lowest_free fds \<notin> set fds" "0 \<le> lowest_free fds" by blast+
qed

section \<open>Descriptors of the sources\<close>

definition fd_of :: "fworld \<Rightarrow> fh \<times> bool \<Rightarrow> int" where
  "fd_of w k = (case files (fw_ms w) (fst k) of
     None \<Rightarrow> -1
   | Some m \<Rightarrow> src_fd (source_of_file (if snd k then MCACHEFS_FILE_SOURCE_REAL else MCACHEFS_FILE_SOURCE_BACKING) m))"

definition fds_ok :: "fworld \<Rightarrow> bool" where
  "fds_ok w \<longleftrightarrow> distinct (fw_fds w) \<and> (\<forall>k. fd_of w k \<noteq> -1 \<longrightarrow> fd_of w k \<in> set (fw_fds w)) \<and>
     (\<forall>k k'. fd_of w k \<noteq> -1 \<longrightarrow> fd_of w k = fd_of w k' \<longrightarrow> k = k')"

lemma fds_ok_set:
  assumes ok: "fds_ok w" and fd: "fd_of w' = (fd_of w)(k := d)" and dist: "distinct (fw_fds w')"
    and keep: "set (fw_fds w) - {fd_of w k} \<subseteq> set (fw_fds w')"
    and new: "d \<noteq> -1 \<Longrightarrow> d \<in> set (fw_fds w') \<and> (d = fd_of w k \<or> d \<notin> set (fw_fds w))"
  shows "fds_ok w'"
  unfolding fds_ok_def
proof (intro conjI allI impI dist)
  fix k' assume k': "fd_of w' k' \<noteq> -1"
  show "fd_of w' k' \<in> set (fw_fds w')"
  proof (cases "k' = k")
    case True
    with k' new fd show ?thesis by simp
  next
    case False
    then have "fd_of w k' \<noteq> -1" "fd_of w' k' = fd_of w k'" using k' fd by simp_all
    moreover from this(1) have "fd_of w k' \<noteq> fd_of w k" using ok False unfolding fds_ok_def by metis
    ultimately show ?thesis using ok keep unfolding fds_ok_def by (metis Diff_iff singletonD subsetD)
  qed
next
  fix k1 k2 assume k12: "fd_of w' k1 \<noteq> -1" "fd_of w' k1 = fd_of w' k2"
  have other: "fd_of w j \<noteq> d" if "j \<noteq> k" "d \<noteq> -1" for j
  proof
    assume j: "fd_of w j = d"
    then have "d \<in> set (fw_fds w)" using ok that(2) unfolding fds_ok_def by metis
    then have "fd_of w k = fd_of w j" using new [OF that(2)] j by simp
    with ok j that show False unfolding fds_ok_def by metis
  qed
  show "k1 = k2"
    using k12 other [of k1] other [of k2] ok unfolding fds_ok_def fd fun_upd_apply
    by (metis (mono_tags))
qed

lemma upd_source_fd:
  assumes "upd_source w f real g = Some w'" "real = (if b then 1 else 0)"
  shows "\<exists>m. files (fw_ms w) f = Some m \<and> f \<noteq> 0 \<and> fw_fds w' = fw_fds w \<and>
    files (fw_ms w') = (files (fw_ms w))(f \<mapsto> with_source real g m) \<and>
    fd_of w' = (fd_of w)((f, b) := src_fd (g (source_of_file real m)))"
proof -
  obtain m where m: "f \<noteq> 0" "files (fw_ms w) f = Some m"
    "w' = w\<lparr>fw_ms := (fw_ms w)\<lparr>files := (files (fw_ms w))(f \<mapsto> with_source real g m)\<rparr>\<rparr>"
    using assms(1) by (auto simp: upd_source_def updf_def split: if_splits bind_splits)
  have "fd_of w' k = ((fd_of w)((f, b) := src_fd (g (source_of_file real m)))) k" for k
    using m(2,3) assms(2) by (cases k) (auto simp: fd_of_def with_source_def source_of_file_def)
  with m show ?thesis by auto
qed

lemma upd_source_keep_fd:
  assumes "upd_source w f real g = Some w'" "real = (if b then 1 else 0)" "\<And>s. src_fd (g s) = src_fd s" "fds_ok w"
  shows "fds_ok w'" "fd_of w' = fd_of w" "fw_fds w' = fw_fds w"
proof -
  obtain m where m: "files (fw_ms w) f = Some m" "fw_fds w' = fw_fds w"
    "fd_of w' = (fd_of w)((f, b) := src_fd (source_of_file real m))"
    using upd_source_fd [OF assms(1,2)] assms(3) by auto
  have "fd_of w (f, b) = src_fd (source_of_file real m)" using m(1) assms(2) by (simp add: fd_of_def)
  with m(3) show eq: "fd_of w' = fd_of w" by (simp add: fun_upd_idem)
  with m(2) assms(4) show "fds_ok w'" by (simp add: fds_ok_def)
  show "fw_fds w' = fw_fds w" by (rule m(2))
qed

lemma upd_source_close:
  assumes "upd_source (os_close w d) f real g = Some w'" "real = (if b then 1 else 0)"
    "\<And>s. src_fd (g s) = -1" "d = fd_of w (f, b)" "fds_ok w"
  shows "fds_ok w'" "fd_of w' = (fd_of w)((f, b) := -1)" "fw_fds w' = removeAll d (fw_fds w)"
proof -
  have same: "fd_of (os_close w d) = fd_of w" by (simp add: fun_eq_iff fd_of_def os_close_def)
  obtain m where m: "fw_fds w' = removeAll d (fw_fds w)" "fd_of w' = (fd_of w)((f, b) := -1)"
    using upd_source_fd [OF assms(1,2)] assms(3) same by (auto simp: os_close_def)
  show "fds_ok w'"
    by (rule fds_ok_set [OF assms(5) m(2)]) (use m(1) assms(4,5) in \<open>auto simp: fds_ok_def distinct_removeAll\<close>)
  show "fd_of w' = (fd_of w)((f, b) := -1)" "fw_fds w' = removeAll d (fw_fds w)" by (rule m)+
qed

section \<open>Opening\<close>

text \<open>What the other threads are relied on to keep, and what each of them keeps in turn.\<close>

definition fds_inv :: "fworld \<Rightarrow> bool" where
  "fds_inv w \<longleftrightarrow> fds_ok w \<and> host_errors_ok (fw_host w)"

lemma wait_unused_keeps:
  assumes "wait_unused others f real w = Some w'" "\<And>v. fds_inv v \<Longrightarrow> fds_inv (others v)" "fds_inv w"
  shows "fds_inv w'"
proof -
  let ?P = "\<lambda>others f real w w'. (\<forall>v. fds_inv v \<longrightarrow> fds_inv (others v)) \<longrightarrow> fds_inv w \<longrightarrow> fds_inv w'"
  have "?P others f real w w'"
    by (rule wait_unused.raw_induct [of ?P, OF _ assms(1)]) (auto split: if_splits bind_splits)
  with assms(2,3) show ?thesis by blast
qed

lemma ldf_someD: "ldf s f g = Some x \<Longrightarrow> \<exists>m. f \<noteq> 0 \<and> files s f = Some m \<and> x = g m"
  by (auto simp: ldf_def split: if_splits)

lemma upd_source_host: "upd_source w f real g = Some w' \<Longrightarrow> fw_host w' = fw_host w"
  by (auto simp: upd_source_def)

lemma may_reuse_ok:
  assumes run: "mcachefs_file_may_reuse_source e w f real asked = Some (w', r)" and real: "real = (if b then 1 else 0)"
    and inv: "fds_inv w" and others: "\<And>v. fds_inv v \<Longrightarrow> fds_inv (fe_others e v)"
  shows "fds_inv w' \<and> (if r then fd_of w' (f, b) \<noteq> -1 \<and> fw_fds w' = fw_fds w else fd_of w' (f, b) = -1)"
proof -
  have ok: "fds_ok w" and errs: "host_errors_ok (fw_host w)" using inv by (simp_all add: fds_inv_def)
  obtain src where src: "ldf (fw_ms w) f (source_of_file real) = Some src"
    using run by (auto simp: mcachefs_file_may_reuse_source_def split: bind_splits)
  then have fd: "fd_of w (f, b) = src_fd src" using real by (auto dest!: ldf_someD simp: fd_of_def)
  consider "src_fd src = -1" | "src_fd src \<noteq> -1" "asked \<le> src_wr src" | "src_fd src \<noteq> -1" "\<not> asked \<le> src_wr src"
    by blast
  then show ?thesis
  proof cases
    case 1
    with run src fd inv show ?thesis by (auto simp: mcachefs_file_may_reuse_source_def)
  next
    case 2
    then have "upd_source w f real (\<lambda>src. src\<lparr>src_use := src_use src + 1\<rparr>) = Some w'" "r"
      using run src by (auto simp: mcachefs_file_may_reuse_source_def split: bind_splits)
    with upd_source_keep_fd [OF this(1) real _ ok] fd 2(1) errs show ?thesis by (simp add: fds_inv_def upd_source_host)
  next
    case 3
    then obtain v src' where w: "wait_unused (fe_others e) f real w = Some v" and nr: "\<not> r"
      and src': "ldf (fw_ms v) f (source_of_file real) = Some src'"
      and u: "upd_source (os_close v (src_fd src')) f real (\<lambda>src. src\<lparr>src_fd := -1\<rparr>) = Some w'"
      using run src by (auto simp: mcachefs_file_may_reuse_source_def split: bind_splits)
    have v: "fds_ok v" "host_errors_ok (fw_host v)" using wait_unused_keeps [OF w others inv] by (simp_all add: fds_inv_def)
    have "src_fd src' = fd_of v (f, b)" using src' real by (auto dest!: ldf_someD simp: fd_of_def)
    with upd_source_close [OF u real _ _ v(1)] upd_source_host [OF u] v(2) nr show ?thesis
      by (simp add: fds_inv_def os_close_def)
  qed
qed

lemma do_open_ok:
  assumes run: "mcachefs_file_do_open e w f flags mode real prefix = Some (w', fd)" and real: "real = (if b then 1 else 0)"
    and inv: "fds_inv w" and others: "\<And>v. fds_inv v \<Longrightarrow> fds_inv (fe_others e v)"
  shows "fds_inv w' \<and> (fd \<ge> 0 \<or> fd < -1 \<or> fd = -1) \<and> (fd_of w' (f, b) \<noteq> -1 \<longrightarrow> fd = fd_of w' (f, b)) \<and>
    (fd_of w' (f, b) = -1 \<longrightarrow> fd < 0)"
proof -
  define asked :: nat where "asked = (if IS_WRITE flags then 1 else 0)"
  obtain w1 r where w1: "mcachefs_file_may_reuse_source e w f real asked = Some (w1, r)"
    using run by (auto simp: mcachefs_file_do_open_def asked_def Let_def split: bind_splits)
  note reuse = may_reuse_ok [OF w1 real inv others]
  show ?thesis
  proof (cases r)
    case True
    then have "w' = w1" "ldf (fw_ms w1) f (\<lambda>m. src_fd (source_of_file real m)) = Some fd"
      using run w1 by (auto simp: mcachefs_file_do_open_def asked_def Let_def split: bind_splits)
    with reuse True real show ?thesis by (auto dest!: ldf_someD simp: fd_of_def)
  next
    case False
    then obtain path prefix' w2 d errno w3 where
      op: "os_open w1 (mcachefs_makepath path prefix') flags (if and flags O_CREAT \<noteq> 0 then mode else 0) = (w2, d, errno)"
      and w3: "upd_source w2 f real (\<lambda>src. src\<lparr>src_fd := d\<rparr>) = Some w3"
      and rest: "if d = -1 then w' = w3 \<and> fd = - errno
        else upd_source w3 f real (\<lambda>src. src\<lparr>src_use := src_use src + 1, src_wr := asked\<rparr>) = Some w' \<and> fd = d"
      using run w1 by (auto simp: mcachefs_file_do_open_def asked_def Let_def split: bind_splits if_splits prod.splits)
    have free: "fd_of w1 (f, b) = -1" "fds_ok w1" and errs: "host_errors_ok (fw_host w1)"
      using reuse False by (simp_all add: fds_inv_def)
    have fd3: "fd_of w3 = (fd_of w2)((f, b) := d)" "fw_fds w3 = fw_fds w2"
      using upd_source_fd [OF w3 real] by auto
    have h3: "fw_host w3 = fw_host w2" by (rule upd_source_host [OF w3])
    show ?thesis
    proof (cases "host_open (fw_host w1) (mcachefs_makepath path prefix') flags (if and flags O_CREAT \<noteq> 0 then mode else 0)")
      case (Inl x)
      then have "w2 = w1" "d = -1" "errno = x" using op by (simp_all add: os_open_def)
      with fd3 free rest host_open_error [OF Inl errs] errs show ?thesis
        using fds_ok_set [OF free(2), of w3 "(f, b)" "-1"] by (auto simp: fds_inv_def fds_ok_def fun_upd_idem h3)
    next
      case (Inr i)
      then have w2: "w2 = w1\<lparr>fw_fds := d # fw_fds w1, fw_ino := (fw_ino w1)(d := i)\<rparr>" "d = lowest_free (fw_fds w1)"
        using op by (auto simp: os_open_def Let_def)
      note fresh = lowest_free_fresh [of "fw_fds w1", folded w2(2)]
      have "fd_of w2 = fd_of w1" by (simp add: w2(1) fun_eq_iff fd_of_def)
      then have ok3: "fds_ok w3"
        using fds_ok_set [OF free(2), of w3 "(f, b)" d] fd3 w2(1) fresh free by (auto simp: fds_ok_def)
      from fresh have "d \<noteq> -1" by simp
      then have u: "upd_source w3 f real (\<lambda>src. src\<lparr>src_use := src_use src + 1, src_wr := asked\<rparr>) = Some w'" "fd = d"
        using rest by simp_all
      have "fds_inv w'" using upd_source_keep_fd [OF u(1) real _ ok3] upd_source_host [OF u(1)] errs h3 w2(1)
        by (simp add: fds_inv_def)
      with upd_source_keep_fd [OF u(1) real _ ok3] fd3 u(2) \<open>d \<noteq> -1\<close> fresh show ?thesis by auto
    qed
  qed
qed

section \<open>Lists under other changes\<close>

definition links_of :: "mfile \<Rightarrow> fh \<times> fh \<times> int" where
  "links_of m = (mf_ts_previous m, mf_ts_next m, mf_timeslice m)"

definition same_links :: "mstate \<Rightarrow> mstate \<Rightarrow> bool" where
  "same_links s s' \<longleftrightarrow> timeslices s' = timeslices s \<and> timeslice_current s' = timeslice_current s \<and>
     (\<forall>f. map_option links_of (files s' f) = map_option links_of (files s f))"

lemma same_links_file:
  assumes "same_links s s'" "files s f = Some m"
  shows "\<exists>m'. files s' f = Some m' \<and> links_of m' = links_of m"
proof -
  have "map_option links_of (files s' f) = Some (links_of m)" using assms by (simp add: same_links_def)
  then show ?thesis by auto
qed

lemma same_links_sym: "same_links s s' \<Longrightarrow> same_links s' s"
  by (simp add: same_links_def)

lemma same_links_rep:
  assumes same: "same_links s s'" and rep: "slices_rep s L"
  shows "slices_rep s' L"
  unfolding slices_rep_def
proof (intro conjI allI impI)
  note r = slices_repD [OF rep]
  show "timeslice_current s' < timeslice_nb" using same rep by (simp add: same_links_def slices_rep_def)
  fix i assume i: "i < slice_count"
  show "timeslices s' i = hd_or 0 (L i)" "distinct (L i)" using same r(1,3) [OF i] by (simp_all add: same_links_def)
  show "seg s' 0 (L i) 0"
    by (rule seg_mono [OF _ r(2) [OF i]]) (use same_links_file [OF same] in \<open>fastforce simp: links_of_def\<close>)
  show "mf_timeslice m = int i" if "L i = f # fs" "files s' f = Some m" for f fs m
    using same_links_file [OF same_links_sym [OF same] that(2)] r(4) [OF i that(1)] by (auto simp: links_of_def)
next
  fix i j assume "i < slice_count" "j < slice_count" "i \<noteq> j"
  then show "set (L i) \<inter> set (L j) = {}" using slices_repD(5) [OF rep] by blast
qed

lemma same_links_detached: "same_links s s' \<Longrightarrow> detached s f \<Longrightarrow> detached s' f"
  using same_links_file [of s s' f] by (auto simp: detached_def links_of_def)

lemma same_links_trans: "same_links s s' \<Longrightarrow> same_links s' s'' \<Longrightarrow> same_links s s''"
  by (simp add: same_links_def)

lemma updf_same_links:
  "updf s f g = Some s' \<Longrightarrow> (\<And>m. links_of (g m) = links_of m) \<Longrightarrow> same_links s s'"
  by (auto simp: updf_def same_links_def split: if_splits bind_splits)

lemma upd_source_same_links:
  "upd_source w f r g = Some w' \<Longrightarrow> same_links (fw_ms w) (fw_ms w')"
  by (auto simp: upd_source_def with_source_def links_of_def intro!: updf_same_links split: option.splits)

section \<open>Releasing\<close>

definition same_meta :: "mstate \<Rightarrow> mstate \<Rightarrow> bool" where
  "same_meta s s' \<longleftrightarrow> entry s' = entry s \<and> alloced_nb s' = alloced_nb s"

lemma same_meta_trans: "same_meta s s' \<Longrightarrow> same_meta s' s'' \<Longrightarrow> same_meta s s''"
  by (simp add: same_meta_def)

lemma updf_same_meta: "updf s f g = Some s' \<Longrightarrow> same_meta s s'"
  by (auto simp: updf_def same_meta_def split: if_splits bind_splits)

lemma slice_set_same_meta: "slice_set s i f = Some s' \<Longrightarrow> same_meta s s'"
  by (auto simp: slice_set_def same_meta_def split: if_splits)

lemma insert_frame: "mcachefs_file_timeslice_insert_in_ts s f i = Some s' \<Longrightarrow> same_meta s s'"
  unfolding mcachefs_file_timeslice_insert_in_ts_def
  by (auto split: if_splits bind_splits dest!: updf_same_meta slice_set_same_meta simp: same_meta_def)

lemma remove_frame: "mcachefs_file_timeslice_remove s f = Some s' \<Longrightarrow> same_meta s s'"
  unfolding mcachefs_file_timeslice_remove_def
  by (auto split: if_splits bind_splits dest!: updf_same_meta slice_set_same_meta simp: same_meta_def Let_def)

lemma clean_fh_ok:
  assumes "valid s i"
  shows "\<exists>s'. mcachefs_metadata_clean_fh_locked s i = Some s' \<and> same_links s s' \<and> files s' = files s \<and>
    md_fh (entry s' i) = 0"
  using assms
  by (auto simp: mcachefs_metadata_clean_fh_locked_def run_simps same_links_def dest: valid_nz)

lemma file_remove_ok:
  assumes rep: "slices_rep s L" and i: "i < timeslice_nb + 1" and f: "f \<in> set (L i)" and m: "files s f = Some m"
    and use: "mf_use m = 0" and meta: "mf_metadata_id m = 0 \<or> valid s (mf_metadata_id m)"
    and path: "mf_path m \<noteq> Some mcachefs_file_path_deleted"
  shows "\<exists>s'. mcachefs_file_remove s f = Some s' \<and>
    slices_rep s' (L(i := remove1 f (L i), timeslice_freed := f # L timeslice_freed)) \<and>
    (mf_metadata_id m \<noteq> 0 \<longrightarrow> md_fh (entry s' (mf_metadata_id m)) = 0)"
proof -
  have ic: "i < slice_count" "i \<noteq> timeslice_freed" using i by (simp_all add: slice_count_def timeslice_freed_def)
  have fc: "timeslice_freed < slice_count" by (rule slice_bounds)
  have nz: "f \<noteq> 0" using slices_repD(2) [OF rep ic(1)] seg_nz f by metis
  let ?i = "mf_metadata_id m" and ?L = "L(i := remove1 f (L i))"
  obtain s1 where s1: "mcachefs_file_timeslice_remove s f = Some s1" "slices_rep s1 ?L" "detached s1 f"
      "files s1 f = Some (unlinked m)"
    using remove_ok [OF rep ic(1) f] m by auto
  have meta1: "?i = 0 \<or> valid s1 ?i" using meta remove_frame [OF s1(1)] by (simp add: same_meta_def valid_def)
  have "\<exists>s2. (if ?i \<noteq> 0 then mcachefs_metadata_clean_fh_locked s1 ?i else Some s1) = Some s2 \<and>
      same_links s1 s2 \<and> files s2 = files s1 \<and> (?i \<noteq> 0 \<longrightarrow> md_fh (entry s2 ?i) = 0)"
    using meta1 clean_fh_ok [of s1 ?i] by (cases "?i = 0") (auto simp: same_links_def)
  then obtain s2 where s2: "(if ?i \<noteq> 0 then mcachefs_metadata_clean_fh_locked s1 ?i else Some s1) = Some s2"
      "same_links s1 s2" "files s2 = files s1" "?i \<noteq> 0 \<Longrightarrow> md_fh (entry s2 ?i) = 0" by blast
  let ?g = "\<lambda>m. m\<lparr>mf_path := Some mcachefs_file_path_deleted\<rparr>"
  obtain s3 where s3: "updf s2 f ?g = Some s3" using s1(4) s2(3) nz by simp
  have "same_links s1 s3"
    using same_links_trans [OF s2(2)] updf_same_links [OF s3] by (simp add: links_of_def)
  then obtain s4 where s4: "mcachefs_file_timeslice_insert_in_ts s3 f timeslice_freed = Some s4"
      "slices_rep s4 (?L(timeslice_freed := f # ?L timeslice_freed))"
    using insert_in_ts_ok [OF same_links_rep [OF _ s1(2)] same_links_detached [OF _ s1(3)] fc] by blast
  have fields: "mf_metadata_id (unlinked m) = ?i" "mf_use (unlinked m) = 0" "mf_path (unlinked m) = mf_path m"
    using use by (simp_all add: unlinked_def)
  have "mcachefs_file_remove s f = Some s4"
    using s1(1,4) s2(1,3) s3 s4(1) nz fields path
    by (cases "?i = 0") (simp_all add: mcachefs_file_remove_def mcachefs_file_timeslice_insert_in_freed_def)
  moreover have "?i \<noteq> 0 \<Longrightarrow> md_fh (entry s4 ?i) = 0"
    using s2(4) updf_same_meta [OF s3] insert_frame [OF s4(1)] by (simp add: same_meta_def)
  ultimately show ?thesis using s4(2) ic(2) by auto
qed

text \<open>What the cleanup of a file leaves.\<close>

definition same_file :: "mfile \<Rightarrow> mfile \<Rightarrow> bool" where
  "same_file m m' \<longleftrightarrow> mf_use m' = mf_use m \<and> mf_type m' = mf_type m \<and> mf_metadata_id m' = mf_metadata_id m \<and>
     mf_path m' = mf_path m \<and> mf_cache_status m' = mf_cache_status m"

lemma cleanup_source_ok:
  assumes "files (fw_ms w) f = Some m" "f \<noteq> 0"
  shows "\<exists>w' m'. mcachefs_file_cleanup_file_source w f r = Some w' \<and> same_links (fw_ms w) (fw_ms w') \<and>
    same_meta (fw_ms w) (fw_ms w') \<and> files (fw_ms w') f = Some m' \<and> same_file m m' \<and>
    set (fw_fds w) - {src_fd (source_of_file r m)} \<subseteq> set (fw_fds w') \<and>
    (r = MCACHEFS_FILE_SOURCE_REAL \<longrightarrow> mf_backing m' = mf_backing m)"
proof (cases "src_use (source_of_file r m) = 0 \<and> src_fd (source_of_file r m) \<noteq> -1")
  case True
  let ?w = "os_close w (src_fd (source_of_file r m))" and ?g = "\<lambda>src. src\<lparr>src_fd := -1\<rparr>"
  obtain w' where w': "upd_source ?w f r ?g = Some w'"
      "files (fw_ms w') = (files (fw_ms w))(f \<mapsto> with_source r ?g m)" "fw_fds w' = fw_fds ?w"
      "same_meta (fw_ms w) (fw_ms w')"
    using assms by (auto simp: upd_source_def os_close_def same_meta_def)
  moreover have "same_links (fw_ms w) (fw_ms w')" using upd_source_same_links [OF w'(1)] by (simp add: os_close_def)
  moreover have "mcachefs_file_cleanup_file_source w f r = Some w'"
    using assms True w'(1) by (simp add: mcachefs_file_cleanup_file_source_def)
  ultimately show ?thesis
    by (auto simp: with_source_def same_file_def os_close_def)
next
  case False
  then have "mcachefs_file_cleanup_file_source w f r = Some w"
    using assms by (auto simp: mcachefs_file_cleanup_file_source_def)
  then show ?thesis using assms by (auto simp: same_links_def same_meta_def same_file_def)
qed

lemma cleanup_file_ok:
  assumes "files (fw_ms w) f = Some m" "f \<noteq> 0"
  shows "\<exists>w' m'. mcachefs_file_cleanup_file w f = Some w' \<and> same_links (fw_ms w) (fw_ms w') \<and>
    same_meta (fw_ms w) (fw_ms w') \<and> files (fw_ms w') f = Some m' \<and> same_file m m' \<and>
    (mf_cache_status m \<noteq> BackingDone \<longrightarrow>
       set (fw_fds w) - {src_fd (mf_real m)} \<subseteq> set (fw_fds w') \<and> mf_backing m' = mf_backing m)"
proof (cases "mf_type m = FileType")
  case False
  then have "mcachefs_file_cleanup_file w f = Some w"
    using assms by (simp add: mcachefs_file_cleanup_file_def)
  then show ?thesis using assms by (auto simp: same_links_def same_meta_def same_file_def)
next
  case True
  obtain w1 m1 where w1: "mcachefs_file_cleanup_file_source w f MCACHEFS_FILE_SOURCE_REAL = Some w1"
      "same_links (fw_ms w) (fw_ms w1)" "same_meta (fw_ms w) (fw_ms w1)" "files (fw_ms w1) f = Some m1" "same_file m m1"
      "set (fw_fds w) - {src_fd (mf_real m)} \<subseteq> set (fw_fds w1)" "mf_backing m1 = mf_backing m"
    using cleanup_source_ok [OF assms, of MCACHEFS_FILE_SOURCE_REAL] by (auto simp: source_of_file_def)
  obtain w2 m2 where w2: "mcachefs_file_cleanup_file_source w1 f MCACHEFS_FILE_SOURCE_BACKING = Some w2"
      "same_links (fw_ms w1) (fw_ms w2)" "same_meta (fw_ms w1) (fw_ms w2)" "files (fw_ms w2) f = Some m2" "same_file m1 m2"
    using cleanup_source_ok [OF w1(4) assms(2)] by blast
  have run: "mcachefs_file_cleanup_file w f = (if mf_cache_status m = BackingDone then Some w2 else Some w1)"
    using assms True w1(1) w2(1) by (simp add: mcachefs_file_cleanup_file_def)
  show ?thesis
  proof (cases "mf_cache_status m = BackingDone")
    case True
    with run w1 w2 show ?thesis
      by (auto intro: same_links_trans same_meta_trans simp: same_file_def)
  next
    case False
    with run w1 show ?thesis by auto
  qed
qed

lemma release_last_ok:
  assumes rep: "slices_rep (fw_ms w) L" and i: "i < timeslice_nb + 1" and f: "f \<in> set (L i)"
    and m: "files (fw_ms w) f = Some m" and use: "mf_use m = 1" and type: "mf_type m = FileType \<or> mf_type m = DirType"
    and meta: "mf_metadata_id m = 0 \<or> valid (fw_ms w) (mf_metadata_id m)"
    and path: "mf_path m \<noteq> Some mcachefs_file_path_deleted"
  shows "\<exists>w'. mcachefs_file_release w f = Some w' \<and>
    slices_rep (fw_ms w') (L(i := remove1 f (L i), timeslice_freed := f # L timeslice_freed)) \<and>
    (mf_metadata_id m \<noteq> 0 \<longrightarrow> md_fh (entry (fw_ms w') (mf_metadata_id m)) = 0) \<and>
    (mf_cache_status m \<noteq> BackingDone \<longrightarrow> set (fw_fds w) - {src_fd (mf_real m)} \<subseteq> set (fw_fds w'))"
proof -
  have nz: "f \<noteq> 0" using slices_repD(2) [OF rep] seg_nz f i by (metis slice_count_def add.commute add_2_eq_Suc less_Suc_eq Suc_eq_plus1_left)
  let ?m = "m\<lparr>mf_use := 0\<rparr>"
  let ?w = "w\<lparr>fw_ms := (fw_ms w)\<lparr>files := (files (fw_ms w))(f \<mapsto> ?m)\<rparr>\<rparr>"
  have u: "updf (fw_ms w) f (\<lambda>m. m\<lparr>mf_use := mf_use m - 1\<rparr>) = Some (fw_ms ?w)"
    using m nz use by simp
  have l0: "same_links (fw_ms w) (fw_ms ?w)" by (rule updf_same_links [OF u]) (simp add: links_of_def)
  have v0: "valid (fw_ms ?w) (mf_metadata_id m) = valid (fw_ms w) (mf_metadata_id m)" by (simp add: valid_def)
  obtain w1 m1 where w1: "(if mf_type m = FileType then mcachefs_file_cleanup_file ?w f else Some ?w) = Some w1"
      "same_links (fw_ms ?w) (fw_ms w1)" "same_meta (fw_ms ?w) (fw_ms w1)" "files (fw_ms w1) f = Some m1" "same_file ?m m1"
      "mf_cache_status m \<noteq> BackingDone \<longrightarrow> set (fw_fds w) - {src_fd (mf_real m)} \<subseteq> set (fw_fds w1)"
  proof (cases "mf_type m = FileType")
    case True
    then show ?thesis using cleanup_file_ok [of ?w f ?m] nz that by auto
  next
    case False
    then show ?thesis using that [of ?w ?m] by (auto simp: same_links_def same_meta_def same_file_def)
  qed
  have r1: "slices_rep (fw_ms w1) L" by (rule same_links_rep [OF same_links_trans [OF l0 w1(2)] rep])
  have v1: "mf_metadata_id m1 = 0 \<or> valid (fw_ms w1) (mf_metadata_id m1)"
    using meta v0 w1(3,5) by (simp add: same_meta_def same_file_def valid_def)
  obtain s2 where s2: "mcachefs_file_remove (fw_ms w1) f = Some s2"
      "slices_rep s2 (L(i := remove1 f (L i), timeslice_freed := f # L timeslice_freed))"
      "mf_metadata_id m1 \<noteq> 0 \<longrightarrow> md_fh (entry s2 (mf_metadata_id m1)) = 0"
    using file_remove_ok [OF r1 i f w1(4) _ v1] w1(5) path by (auto simp: same_file_def)
  have "mcachefs_file_release w f = Some (w1\<lparr>fw_ms := s2\<rparr>)"
    using m nz use u w1(1) s2(1) type by (auto simp: mcachefs_file_release_def Let_def)
  with s2 w1(5,6) show ?thesis by (auto simp: same_file_def)
qed

end
