(* ===== verification/Props_File.thy ===== *)
theory Props_File
  imports File_Refine
begin

text \<open>
  The properties of the open files: their descriptors, and what the last release does.
\<close>

section \<open>A sample\<close>

text \<open>One open file, used once, whose failed transfer left the descriptor 4 of the cache open.\<close>

definition sample_file :: mfile where
  "sample_file = zero_mfile\<lparr>mf_path := Some ''/a'', mf_type := FileType, mf_use := 1,
     mf_backing := (mcachefs_file_source_init zero_source)\<lparr>src_fd := 4, src_wr := 1\<rparr>,
     mf_real := (mcachefs_file_source_init zero_source)\<lparr>src_fd := 3\<rparr>,
     mf_cache_status := BackingError, mf_timeslice := 0\<rparr>"

text \<open>The source and the cache hold a file each.\<close>

definition sample_host :: host where
  "sample_host = \<lparr>h_nodes = [''/src'' \<mapsto> HDir, ''/src/a'' \<mapsto> HReg 1, ''/cache'' \<mapsto> HDir, ''/cache/a'' \<mapsto> HReg 2],
     h_data = (\<lambda>_. [])(1 := ''abc''), h_mtime = (\<lambda>_. 0), h_now = 5, h_other_stat = (\<lambda>p. (0, 4096)), h_refuse = (\<lambda>c p. None),
     h_read_max = (\<lambda>i at n. int n), h_write_max = (\<lambda>i at n. int n),
     h_listing = (\<lambda>nodes p. [''.'', ''..''] @ filter (\<lambda>n. nodes (p @ ''/'' @ n) \<noteq> None) [''d'', ''a''])\<rparr>"

definition sample_world :: fworld where
  "sample_world = \<lparr>fw_ms = \<lparr>entry = (\<lambda>_. zero_metadata), alloced_nb = 0, first_free = 0, hash_root = 0,
     files = [7 \<mapsto> sample_file], timeslices = (\<lambda>_. 0)(0 := 7), timeslice_current = 0\<rparr>, fw_fds = [4, 3],
     fw_ino = (\<lambda>_. 0)(3 := 1, 4 := 2), fw_host = sample_host\<rparr>"

definition sample_env :: fenv where
  "sample_env = \<lparr>fe_env = \<lparr>env_readdir = (\<lambda>_. None), env_read_state = StateNormal, env_uid = 0, env_gid = 0,
     env_getuid = 0, env_getgid = 0, env_now = 5, env_mountpoint = ''/m''\<rparr>,
   fe_config = initial_config\<lparr>cfg_source := Some ''/src'', cfg_cache := Some ''/cache''\<rparr>,
   fe_journal = \<lparr>j_file = None, j_fsync_file = None, j_action = ActionNone, j_fsync = no_fsync\<rparr>,
   fe_read_errno = 0, fe_malloc = (\<lambda>s. 8), fe_others = (\<lambda>s. s)\<rparr>"

lemmas sample_file_defs = sample_world_def sample_host_def sample_file_def sample_env_def zero_mfile_def zero_source_def
  mcachefs_file_source_init_def

lemma sample_world_rep: "slices_rep (fw_ms sample_world) ((\<lambda>_. [])(0 := [7]))"
  by (auto simp: slices_rep_def sample_file_defs timeslice_nb_def split: if_splits)

lemma sample_world_fds: "fds_ok sample_world"
  by (auto simp: fds_ok_def fd_of_def sample_file_defs source_of_file_def split: if_splits)

section \<open>Descriptors\<close>

text \<open>C22: Asking for a descriptor of a file keeps the invariant of the descriptors (each one a source
  holds is open, and no two sources hold the same); and when it answers a descriptor, it is open and
  is the one the source holds.  While it waits for a descriptor to be unused, the other threads may
  close and reopen any descriptors and change the files of the host, as long as they keep the same
  invariant and the error numbers of the host stay positive.\<close>

theorem getfd_keeps_descriptors:
  assumes "fds_inv w" "mcachefs_file_getfd e w f real flags = Some (w', fd)" "real < 2"
    "\<And>v. fds_inv v \<Longrightarrow> fds_inv (fe_others e v)"
  shows "fds_inv w' \<and> (0 \<le> fd \<longrightarrow> fd \<in> set (fw_fds w') \<and> fd_of w' (f, real = 1) = fd)"
proof -
  note opened = do_open_ok [where b = "real = 1", OF _ _ assms(1,4), of f _ _ real]
  have ok: "fds_inv w' \<and> (0 \<le> fd \<longrightarrow> fd = fd_of w' (f, real = 1) \<and> fd \<noteq> -1)"
  proof (cases "mcachefs_file_getfd e w f real flags = Some (w, fd) \<and> w' = w \<and> fd < 0")
    case True
    then show ?thesis using assms(1) by simp
  next
    case False
    then obtain fd1 prefix where "mcachefs_file_do_open e w f flags 0 real prefix = Some (w', fd1)"
      and "fd = fd1 \<or> fd1 < 0 \<and> fd < 0"
      using assms(2,3)
      by (auto simp: mcachefs_file_getfd_def mcachefs_file_getfd_mode_def errno_defs less_2_cases_iff
          split: if_splits bind_splits)
    moreover have "real = (if real = 1 then 1 else 0)" using assms(3) by auto
    ultimately show ?thesis
      using opened by (metis linorder_not_less)
  qed
  then show ?thesis unfolding fds_inv_def fds_ok_def by metis
qed

lemma sample_world_inv: "fds_inv sample_world"
  using sample_world_fds by (simp add: fds_inv_def host_errors_ok_def sample_world_def sample_host_def)

text \<open>A world in which the source is open for reading and used, and the other threads close it for good.\<close>

definition reading_file :: mfile where
  "reading_file = sample_file\<lparr>mf_real := (mf_real sample_file)\<lparr>src_use := 1\<rparr>\<rparr>"

definition closed_file :: mfile where
  "closed_file = sample_file\<lparr>mf_real := (mf_real sample_file)\<lparr>src_fd := -1\<rparr>,
     mf_backing := (mf_backing sample_file)\<lparr>src_fd := -1\<rparr>\<rparr>"

definition world_with :: "mfile \<Rightarrow> int list \<Rightarrow> fworld" where
  "world_with m fds = sample_world\<lparr>fw_ms := (fw_ms sample_world)\<lparr>files := [7 \<mapsto> m]\<rparr>, fw_fds := fds\<rparr>"

definition closing_env :: fenv where
  "closing_env = sample_env\<lparr>fe_others := (\<lambda>w. world_with closed_file [])\<rparr>"

lemma world_with_file [simp]: "ldf (fw_ms (world_with m fds)) 7 g = Some (g m)" "fw_fds (world_with m fds) = fds"
  "fw_host (world_with m fds) = sample_host" "fd_of (world_with m fds) (7, b) = src_fd (if b then mf_real m else mf_backing m)"
  by (simp_all add: world_with_def ldf_def sample_world_def fd_of_def source_of_file_def)

lemma upd_world_with [simp]: "upd_source (world_with m fds) 7 real g = Some (world_with (with_source real g m) fds)"
  by (simp add: world_with_def upd_source_def updf_def sample_world_def)

lemma close_world_with [simp]: "os_close (world_with m fds) fd = world_with m (removeAll fd fds)"
  by (simp add: world_with_def os_close_def)

lemma upd_opened [simp]: "upd_source ((world_with m fds)\<lparr>fw_fds := l, fw_ino := i\<rparr>) 7 real g =
    Some ((world_with (with_source real g m) fds)\<lparr>fw_fds := l, fw_ino := i\<rparr>)"
  by (simp add: world_with_def upd_source_def updf_def sample_world_def)

lemma ldf_opened [simp]: "ldf (fw_ms ((world_with m fds)\<lparr>fw_fds := l, fw_ino := i\<rparr>)) 7 g = Some (g m)"
  by (simp add: world_with_def ldf_def sample_world_def)

lemma world_with_fd: "fd_of (world_with m fds) k = (if fst k = 7 then src_fd (if snd k then mf_real m else mf_backing m) else -1)"
  by (simp add: world_with_def fd_of_def source_of_file_def sample_world_def)

lemma world_with_inv:
  assumes "src_fd (mf_real m) \<noteq> src_fd (mf_backing m) \<or> src_fd (mf_real m) = -1" "distinct fds"
    "set fds = {src_fd (mf_real m), src_fd (mf_backing m)} - {-1}"
  shows "fds_inv (world_with m fds)"
proof -
  let ?r = "src_fd (mf_real m)" and ?b = "src_fd (mf_backing m)"
  have fd: "fd_of (world_with m fds) (f, r) = (if f = 7 then if r then ?r else ?b else -1)" for f r
    by (simp add: world_with_fd)
  have "fds_ok (world_with m fds)"
    unfolding fds_ok_def split_paired_All
  proof (intro conjI allI impI)
    show "distinct (fw_fds (world_with m fds))" using assms(2) by simp
    show "fd_of (world_with m fds) (f, r) \<in> set (fw_fds (world_with m fds))" if "fd_of (world_with m fds) (f, r) \<noteq> -1" for f r
      using that assms(3) by (simp add: fd split: if_splits)
    show "(f, r) = (g, q)" if "fd_of (world_with m fds) (f, r) \<noteq> -1"
      "fd_of (world_with m fds) (f, r) = fd_of (world_with m fds) (g, q)" for f r g q
      using that assms(1) by (cases r; cases q) (simp_all add: fd split: if_splits)
  qed
  moreover have "host_errors_ok sample_host" by (simp add: host_errors_ok_def sample_host_def)
  ultimately show ?thesis by (simp add: fds_inv_def)
qed

lemma samples_sel:
  "mf_real reading_file = (mcachefs_file_source_init zero_source)\<lparr>src_fd := 3, src_use := 1\<rparr>"
  "mf_backing reading_file = (mcachefs_file_source_init zero_source)\<lparr>src_fd := 4, src_wr := 1\<rparr>"
  "src_fd (mf_real closed_file) = -1" "src_fd (mf_backing closed_file) = -1" "src_use (mf_real closed_file) = 0"
  "mf_path closed_file = Some ''/a''"
  by (simp_all add: reading_file_def closed_file_def sample_file_def mcachefs_file_source_init_def zero_source_def)

lemma init_sel: "src_fd (mcachefs_file_source_init z) = -1" "src_wr (mcachefs_file_source_init z) = 0"
  by (simp_all add: mcachefs_file_source_init_def)

lemma reading_world_waits:
  "wait_unused (fe_others closing_env) 7 (Suc 0) (world_with reading_file fds) = Some (world_with closed_file [])"
proof -
  have "wait_unused (fe_others closing_env) 7 (Suc 0) (world_with closed_file []) = Some (world_with closed_file [])"
    by (simp add: wait_unused.simps [of _ _ _ "world_with closed_file []"] source_of_file_def samples_sel)
  then show ?thesis
    by (simp add: wait_unused.simps [of _ _ _ "world_with reading_file fds"] source_of_file_def closing_env_def samples_sel)
qed

lemma getfd_keeps_descriptors_witness:
  "\<exists>w' fd. mcachefs_file_getfd closing_env (world_with reading_file [4, 3]) 7 1 O_RDWR = Some (w', fd) \<and> fds_inv w' \<and>
    fd \<in> set (fw_fds w') \<and> fd_of w' (7, True) = fd"
proof -
  have c: "fe_config closing_env = fe_config sample_env" by (simp add: closing_env_def)
  have f: "src_fd (source_of_file (Suc 0) reading_file) = 3" "src_wr (source_of_file (Suc 0) reading_file) = 0"
      "src_fd (source_of_file (Suc 0) closed_file) = -1" "mf_path (with_source (Suc 0) g closed_file) = Some ''/a''" for g
    by (simp_all add: source_of_file_def with_source_def samples_sel init_sel)
  have "\<exists>w'. mcachefs_file_getfd closing_env (world_with reading_file [4, 3]) 7 1 O_RDWR = Some (w', 0)"
    by (simp add: mcachefs_file_getfd_def mcachefs_file_getfd_mode_def mcachefs_file_do_open_def
        mcachefs_file_may_reuse_source_def reading_world_waits f c IS_WRITE_def O_RDWR_def O_WRONLY_def O_CREAT_def
        os_open_def host_open_def sample_host_def mcachefs_makepath_def lowest_free_def sample_env_def initial_config_def
        Let_def cong: bind_weak_cong)
  then obtain w' where w': "mcachefs_file_getfd closing_env (world_with reading_file [4, 3]) 7 1 O_RDWR = Some (w', 0)" by blast
  have "fds_inv (world_with reading_file [4, 3])" "fds_inv (world_with closed_file [])"
    by (rule world_with_inv; simp add: samples_sel init_sel insert_commute)+
  then show ?thesis using getfd_keeps_descriptors [OF _ w'] w' by (auto simp: closing_env_def)
qed

section \<open>The last release\<close>

text \<open>C23: Releasing a regular file or a directory for the last time never faults: the file leaves its
  slice for the freed list, and its entry no longer refers to it.\<close>

theorem last_release_frees:
  assumes "slices_rep (fw_ms w) L" "i < timeslice_nb + 1" "f \<in> set (L i)" "files (fw_ms w) f = Some m"
    "mf_use m = 1" "mf_type m = FileType \<or> mf_type m = DirType"
    "mf_metadata_id m = 0 \<or> valid (fw_ms w) (mf_metadata_id m)" "mf_path m \<noteq> Some mcachefs_file_path_deleted"
  shows "\<exists>w'. mcachefs_file_release w f = Some w' \<and>
    slices_rep (fw_ms w') (L(i := remove1 f (L i), timeslice_freed := f # L timeslice_freed)) \<and>
    (mf_metadata_id m \<noteq> 0 \<longrightarrow> md_fh (entry (fw_ms w') (mf_metadata_id m)) = 0)"
  using release_last_ok [OF assms] by blast

lemma last_release_frees_witness:
  "\<exists>w'. mcachefs_file_release sample_world 7 = Some w' \<and>
    slices_rep (fw_ms w') (((\<lambda>_. [])(0 := [7]))(0 := remove1 7 [7], timeslice_freed := [7])) \<and>
    (mf_metadata_id sample_file \<noteq> 0 \<longrightarrow> md_fh (entry (fw_ms w') (mf_metadata_id sample_file)) = 0)"
  using last_release_frees [OF sample_world_rep, of 0 7 sample_file]
  by (simp add: sample_file_defs mcachefs_file_path_deleted_def timeslice_nb_def timeslice_freed_def)

text \<open>If its backup did not complete, the last release of a file leaves the descriptor of the cache
  open although its structure goes to the freed list, where nothing closes it.\<close>

theorem last_release_leaks_descriptor:
  assumes "slices_rep (fw_ms w) L" "i < timeslice_nb + 1" "f \<in> set (L i)" "files (fw_ms w) f = Some m"
    "mf_use m = 1" "mf_type m = FileType"
    "mf_metadata_id m = 0 \<or> valid (fw_ms w) (mf_metadata_id m)" "mf_path m \<noteq> Some mcachefs_file_path_deleted"
    "fds_ok w" "mf_cache_status m \<noteq> BackingDone" "src_fd (mf_backing m) \<noteq> -1"
  shows "\<exists>w' L'. mcachefs_file_release w f = Some w' \<and> src_fd (mf_backing m) \<in> set (fw_fds w') \<and>
    slices_rep (fw_ms w') L' \<and> f \<in> set (L' timeslice_freed)"
proof -
  have fd: "fd_of w (f, False) = src_fd (mf_backing m)" "fd_of w (f, True) = src_fd (mf_real m)"
    using assms(4) by (simp_all add: fd_of_def source_of_file_def)
  have "src_fd (mf_backing m) \<in> set (fw_fds w)" "src_fd (mf_backing m) \<noteq> src_fd (mf_real m)"
    using assms(9,11) fd unfolding fds_ok_def by (metis, metis prod.inject)
  moreover obtain w' where "mcachefs_file_release w f = Some w'"
      "slices_rep (fw_ms w') (L(i := remove1 f (L i), timeslice_freed := f # L timeslice_freed))"
      "set (fw_fds w) - {src_fd (mf_real m)} \<subseteq> set (fw_fds w')"
    using release_last_ok [OF assms(1-5) _ assms(7,8)] assms(6,10) by blast
  ultimately show ?thesis
    by (intro exI [of _ w'] exI [of _ "L(i := remove1 f (L i), timeslice_freed := f # L timeslice_freed)"]) auto
qed

lemma last_release_leaks_descriptor_witness:
  "\<exists>w' L'. mcachefs_file_release sample_world 7 = Some w' \<and> 4 \<in> set (fw_fds w') \<and>
    slices_rep (fw_ms w') L' \<and> 7 \<in> set (L' timeslice_freed)"
  using last_release_leaks_descriptor [OF sample_world_rep _ _ _ _ _ _ _ sample_world_fds, of 0 7 sample_file]
  by (simp add: sample_file_defs mcachefs_file_path_deleted_def timeslice_nb_def)

end
