(* ===== verification/Transfer_Queue.thy ===== *)
theory Transfer_Queue
  imports Config
begin

text \<open>
  The queue of the transfers of src/src/mcachefs-transfer.c: a singly linked list with a head
  and a tail, to which each transfer is appended, and from which a thread takes the first
  transfer of its type.  The interface \<open>typed_queue\<close> says what the queue promises; it is
  interpreted on the pointers of the code.
\<close>

section \<open>The code\<close>

abbreviation (input) TRANSFER_TYPE_BACKUP :: nat where "TRANSFER_TYPE_BACKUP \<equiv> 0"
abbreviation (input) TRANSFER_TYPE_WRITEBACK :: nat where "TRANSFER_TYPE_WRITEBACK \<equiv> 1"
abbreviation (input) TRANSFER_TYPE_METADATA :: nat where "TRANSFER_TYPE_METADATA \<equiv> 2"

record transfer_node =
  tn_type :: nat
  tn_mfile :: fh
  tn_next :: nat

text \<open>The nodes by address (0 is NULL), the two ends, and the semaphore of each type.\<close>

record transfer_queue =
  tq_nodes :: "nat \<Rightarrow> transfer_node option"
  tq_head :: nat
  tq_tail :: nat
  tq_sem :: "nat \<Rightarrow> nat"

definition ldq :: "transfer_queue \<Rightarrow> nat \<Rightarrow> transfer_node option" where
  "ldq q p = (if p = 0 then Bug else tq_nodes q p)"

definition updq :: "transfer_queue \<Rightarrow> nat \<Rightarrow> (transfer_node \<Rightarrow> transfer_node) \<Rightarrow> transfer_queue option" where
  "updq q p g = map_option (\<lambda>n. q\<lparr>tq_nodes := (tq_nodes q)(p \<mapsto> g n)\<rparr>) (ldq q p)"

partial_function (option) queued_transfer :: "transfer_queue \<Rightarrow> fh \<Rightarrow> nat \<Rightarrow> nat option" where
  "queued_transfer q mfile transfer =
     (if transfer = 0 then Some 0
      else do {
        n \<leftarrow> ldq q transfer;
        if tn_mfile n = mfile then Some transfer else queued_transfer q mfile (tn_next n)
      })"

declare queued_transfer.simps [code]

text \<open>\<open>transfer\<close> is what \<open>malloc\<close> returns.\<close>

definition transfer_append :: "nat \<Rightarrow> transfer_queue \<Rightarrow> fh \<Rightarrow> nat \<Rightarrow> transfer_queue option" where
  "transfer_append transfer q mfile type =
     (if transfer = 0 then Bug
      else let q = q\<lparr>tq_nodes := (tq_nodes q)(transfer \<mapsto> \<lparr>tn_type = type, tn_mfile = mfile, tn_next = 0\<rparr>)\<rparr>
      in if tq_tail q \<noteq> 0 then do {
           q \<leftarrow> updq q (tq_tail q) (\<lambda>n. n\<lparr>tn_next := transfer\<rparr>);
           Some (q\<lparr>tq_tail := transfer\<rparr>)
         }
         else Some (q\<lparr>tq_head := transfer, tq_tail := transfer\<rparr>))"

text \<open>What is done under the lock; then the semaphore of the type is posted.\<close>

definition transfer_queue_locked :: "nat \<Rightarrow> transfer_queue \<Rightarrow> fh \<Rightarrow> nat \<Rightarrow> (transfer_queue \<times> int) option" where
  "transfer_queue_locked new q mfile type = do {
     transfer \<leftarrow> queued_transfer q mfile (tq_head q);
     if transfer \<noteq> 0 then Some (q, - EEXIST)
     else do {
       q \<leftarrow> transfer_append new q mfile type;
       Some (q, 0)
     }
   }"

definition transfer_sem_post :: "transfer_queue \<Rightarrow> nat \<Rightarrow> transfer_queue option" where
  "transfer_sem_post q type =
     (if type < MCACHEFS_TRANSFER_TYPES
      then Some (q\<lparr>tq_sem := (tq_sem q)(type := tq_sem q type + 1)\<rparr>) else Bug)"

definition mcachefs_transfer_queue_file ::
  "nat \<Rightarrow> transfer_queue \<Rightarrow> fh \<Rightarrow> nat \<Rightarrow> (transfer_queue \<times> int) option" where
  "mcachefs_transfer_queue_file new q mfile type = do {
     (q, res) \<leftarrow> transfer_queue_locked new q mfile type;
     if res \<noteq> 0 then Some (q, res)
     else do {
       q \<leftarrow> transfer_sem_post q type;
       Some (q, 0)
     }
   }"

text \<open>The first node of the type, or NULL, and the node before it.\<close>

partial_function (option) first_of_type :: "transfer_queue \<Rightarrow> nat \<Rightarrow> nat \<Rightarrow> nat \<Rightarrow> (nat \<times> nat) option" where
  "first_of_type q type transfer last_transfer =
     (if transfer = 0 then Some (0, last_transfer)
      else do {
        n \<leftarrow> ldq q transfer;
        if tn_type n = type then Some (transfer, last_transfer)
        else first_of_type q type (tn_next n) transfer
      })"

declare first_of_type.simps [code]

definition transfer_unlink :: "transfer_queue \<Rightarrow> nat \<Rightarrow> nat \<Rightarrow> transfer_queue option" where
  "transfer_unlink q transfer last_transfer = do {
     n \<leftarrow> ldq q transfer;
     if last_transfer \<noteq> 0 then do {
       q \<leftarrow> updq q last_transfer (\<lambda>l. l\<lparr>tn_next := tn_next n\<rparr>);
       if tn_next n = 0
       then if tq_tail q \<noteq> transfer then Bug else Some (q\<lparr>tq_tail := last_transfer\<rparr>)
       else Some q
     }
     else let q = q\<lparr>tq_head := tn_next n\<rparr> in
       if tn_next n = 0
       then if tq_tail q \<noteq> transfer then Bug else Some (q\<lparr>tq_tail := 0\<rparr>)
       else Some q
   }"

definition mcachefs_transfer_get_next_file_to_back_locked ::
  "transfer_queue \<Rightarrow> nat \<Rightarrow> (transfer_queue \<times> fh) option" where
  "mcachefs_transfer_get_next_file_to_back_locked q type =
     (if tq_head q = 0 then Bug
      else do {
        (transfer, last_transfer) \<leftarrow> first_of_type q type (tq_head q) 0;
        if transfer = 0 then Bug
        else do {
          n \<leftarrow> ldq q transfer;
          q \<leftarrow> transfer_unlink q transfer last_transfer;
          Some (q\<lparr>tq_nodes := (tq_nodes q)(transfer := None)\<rparr>, tn_mfile n)
        }
      })"

definition no_transfers :: transfer_queue where
  "no_transfers = \<lparr>tq_nodes = (\<lambda>_. None), tq_head = 0, tq_tail = 0, tq_sem = (\<lambda>_. 0)\<rparr>"

section \<open>The list it holds\<close>

text \<open>The nodes from \<open>p\<close> to \<open>e\<close>: address, type and file of each.\<close>

fun tseg :: "(nat \<Rightarrow> transfer_node option) \<Rightarrow> nat \<Rightarrow> (nat \<times> nat \<times> fh) list \<Rightarrow> nat \<Rightarrow> bool" where
  "tseg h p [] e \<longleftrightarrow> p = e"
| "tseg h p ((a, t, f) # xs) e \<longleftrightarrow> p = a \<and> a \<noteq> 0 \<and>
     (\<exists>n. h a = Some \<lparr>tn_type = t, tn_mfile = f, tn_next = n\<rparr> \<and> tseg h n xs e)"

definition tnodes_rep :: "transfer_queue \<Rightarrow> (nat \<times> nat \<times> fh) list \<Rightarrow> bool" where
  "tnodes_rep q xs \<longleftrightarrow> tseg (tq_nodes q) (tq_head q) xs 0 \<and> distinct (map fst xs) \<and>
     tq_tail q = (if xs = [] then 0 else fst (last xs)) \<and> dom (tq_nodes q) = set (map fst xs)"

text \<open>The queue holds these transfers, each a type and a file, and nothing else is allocated.\<close>

definition transfers_rep :: "transfer_queue \<Rightarrow> (nat \<times> fh) list \<Rightarrow> bool" where
  "transfers_rep q ts \<longleftrightarrow> (\<exists>xs. tnodes_rep q xs \<and> ts = map snd xs)"

lemma tseg_append: "tseg h p (xs @ ys) e \<longleftrightarrow> (\<exists>m. tseg h p xs m \<and> tseg h m ys e)"
  by (induction h p xs e rule: tseg.induct) (simp_all, blast)

lemma tseg_cong:
  "tseg h p xs e \<Longrightarrow> (\<And>a. a \<in> set (map fst xs) \<Longrightarrow> h' a = h a) \<Longrightarrow> tseg h' p xs e"
  by (induction xs arbitrary: p) auto

lemma tseg_nz: "tseg h p xs e \<Longrightarrow> a \<in> set (map fst xs) \<Longrightarrow> a \<noteq> 0"
  by (induction h p xs e rule: tseg.induct) (simp, fastforce)

lemma tseg_start: "tseg h p xs 0 \<Longrightarrow> p = (case xs of [] \<Rightarrow> 0 | x # _ \<Rightarrow> fst x)"
  by (cases xs) auto

text \<open>What a list leaves of the search for a transfer.\<close>

lemma queued_transfer_seg:
  "tseg (tq_nodes q) p xs 0 \<Longrightarrow>
   \<exists>a. queued_transfer q f p = Some a \<and> (a \<noteq> 0 \<longleftrightarrow> f \<in> snd ` snd ` set xs)"
proof (induction xs arbitrary: p)
  case Nil
  then show ?case by (simp add: queued_transfer.simps)
next
  case (Cons x xs)
  obtain a t g where [simp]: "x = (a, t, g)" by (cases x)
  from Cons.prems obtain n where n: "p = a" "a \<noteq> 0" "tseg (tq_nodes q) n xs 0"
    "tq_nodes q a = Some \<lparr>tn_type = t, tn_mfile = g, tn_next = n\<rparr>" by auto
  from Cons.IH [OF n(3)] n show ?case
    by (subst queued_transfer.simps) (auto simp: ldq_def)
qed

lemma first_of_type_seg:
  "tseg (tq_nodes q) p xs 0 \<Longrightarrow>
   first_of_type q t p l = Some (case List.extract (\<lambda>x. fst (snd x) = t) xs of
     None \<Rightarrow> (0, if xs = [] then l else fst (last xs))
   | Some (ys, x, zs) \<Rightarrow> (fst x, if ys = [] then l else fst (last ys)))"
proof (induction xs arbitrary: p l)
  case Nil
  then show ?case by (simp add: first_of_type.simps List.extract_def)
next
  case (Cons x xs)
  obtain a u g where [simp]: "x = (a, u, g)" by (cases x)
  from Cons.prems obtain n where n: "p = a" "a \<noteq> 0" "tseg (tq_nodes q) n xs 0"
    "tq_nodes q a = Some \<lparr>tn_type = u, tn_mfile = g, tn_next = n\<rparr>" by auto
  from Cons.IH [OF n(3), of a] n show ?case
    by (subst first_of_type.simps)
      (auto simp: ldq_def extract_Cons_code split: option.splits prod.splits)
qed

section \<open>Appending and taking\<close>

lemma tnodes_rep_last:
  assumes "tnodes_rep q (xs @ [(a, t, f)])"
  shows "tseg (tq_nodes q) (tq_head q) xs a" "tq_nodes q a = Some \<lparr>tn_type = t, tn_mfile = f, tn_next = 0\<rparr>"
    "a \<noteq> 0" "tq_tail q = a" "a \<notin> set (map fst xs)"
  using assms by (auto simp: tnodes_rep_def tseg_append)

lemma transfer_append_ok:
  assumes rep: "tnodes_rep q xs" and new: "new \<noteq> 0" "tq_nodes q new = None"
  shows "\<exists>q'. transfer_append new q f t = Some q' \<and> tnodes_rep q' (xs @ [(new, t, f)]) \<and> tq_sem q' = tq_sem q"
proof -
  let ?n = "\<lparr>tn_type = t, tn_mfile = f, tn_next = 0\<rparr>"
  have fresh: "new \<notin> set (map fst xs)" using rep new(2) by (auto simp: tnodes_rep_def)
  show ?thesis
  proof (cases xs rule: rev_cases)
    case Nil
    with rep new show ?thesis by (auto simp: tnodes_rep_def transfer_append_def)
  next
    case (snoc ys x)
    obtain a u g where x: "x = (a, u, g)" by (cases x)
    note r = tnodes_rep_last [OF rep [unfolded snoc x]]
    let ?q = "q\<lparr>tq_nodes := (tq_nodes q)(new \<mapsto> ?n, a \<mapsto> \<lparr>tn_type = u, tn_mfile = g, tn_next = new\<rparr>), tq_tail := new\<rparr>"
    have run: "transfer_append new q f t = Some ?q"
      using r new fresh x snoc by (simp add: transfer_append_def updq_def ldq_def)
    have "tseg (tq_nodes ?q) (tq_head q) ys a"
      by (rule tseg_cong [OF r(1)]) (use r(5) fresh snoc in fastforce)
    then have "tseg (tq_nodes ?q) (tq_head q) (xs @ [(new, t, f)]) 0"
      using r new fresh x snoc by (auto simp: tseg_append)
    moreover have "dom (tq_nodes ?q) = set (map fst (xs @ [(new, t, f)]))"
      using rep x snoc by (auto simp: tnodes_rep_def)
    ultimately have "tnodes_rep ?q (xs @ [(new, t, f)])"
      using rep fresh by (simp add: tnodes_rep_def)
    with run show ?thesis by (intro exI [of _ ?q]) simp
  qed
qed

lemma transfer_unlink_ok:
  assumes rep: "tnodes_rep q (ys @ (a, t, f) # zs)"
  shows "\<exists>q'. transfer_unlink q a (if ys = [] then 0 else fst (last ys)) = Some q' \<and>
    tnodes_rep (q'\<lparr>tq_nodes := (tq_nodes q')(a := None)\<rparr>) (ys @ zs) \<and> tq_sem q' = tq_sem q"
proof -
  have dist: "distinct (map fst (ys @ (a, t, f) # zs))"
    and dom: "dom (tq_nodes q) = set (map fst (ys @ (a, t, f) # zs))"
    and tail: "tq_tail q = fst (last ((a, t, f) # zs))"
    using rep by (auto simp: tnodes_rep_def)
  obtain n where seg: "tseg (tq_nodes q) (tq_head q) ys a" "tseg (tq_nodes q) n zs 0" and anz: "a \<noteq> 0"
    and a: "tq_nodes q a = Some \<lparr>tn_type = t, tn_mfile = f, tn_next = n\<rparr>"
    using rep by (auto simp: tnodes_rep_def tseg_append)
  have n: "n = 0 \<longleftrightarrow> zs = []" using tseg_start [OF seg(2)] tseg_nz [OF seg(2)] by (cases zs) auto
  have tail': "n = 0 \<Longrightarrow> tq_tail q = a" "n \<noteq> 0 \<Longrightarrow> tq_tail q = fst (last zs)" using tail n by auto
  show ?thesis
  proof (cases ys rule: rev_cases)
    case Nil
    let ?q = "q\<lparr>tq_head := n, tq_tail := (if n = 0 then 0 else tq_tail q)\<rparr>"
    have "transfer_unlink q a 0 = Some ?q" using a anz tail'(1) by (auto simp: transfer_unlink_def ldq_def)
    moreover have "tseg ((tq_nodes q)(a := None)) n zs 0"
      by (rule tseg_cong [OF seg(2)]) (use dist in auto)
    ultimately show ?thesis using Nil n dist dom tail'
      by (intro exI [of _ ?q]) (auto simp: tnodes_rep_def)
  next
    case (snoc us x)
    obtain b u g where x: "x = (b, u, g)" by (cases x)
    have b: "tseg (tq_nodes q) (tq_head q) us b" "b \<noteq> 0" "tq_nodes q b = Some \<lparr>tn_type = u, tn_mfile = g, tn_next = a\<rparr>"
      "b \<noteq> a" "b \<notin> set (map fst us)" "b \<notin> set (map fst zs)"
      using seg(1) dist snoc x by (auto simp: tseg_append)
    let ?h = "(tq_nodes q)(b \<mapsto> \<lparr>tn_type = u, tn_mfile = g, tn_next = n\<rparr>)"
    let ?q = "q\<lparr>tq_nodes := ?h, tq_tail := (if n = 0 then b else tq_tail q)\<rparr>"
    have run: "transfer_unlink q a b = Some ?q" using a anz b tail'(1) by (auto simp: transfer_unlink_def ldq_def updq_def)
    have s: "tseg (?h(a := None)) (tq_head q) us b" "tseg (?h(a := None)) n zs 0"
      by (rule tseg_cong [OF b(1)], use b dist snoc in auto) (rule tseg_cong [OF seg(2)], use b dist in auto)
    have "tseg (?h(a := None)) (tq_head q) ((us @ [(b, u, g)]) @ zs) 0"
      using s b by (auto simp: tseg_append)
    then show ?thesis using run snoc x n dist dom tail' b
      by (intro exI [of _ ?q]) (auto simp: tnodes_rep_def)
  qed
qed

section \<open>The interface\<close>

text \<open>The first transfer of a type, with those before and behind it.\<close>

abbreviation first_typed :: "nat \<Rightarrow> (nat \<times> 'f) list \<Rightarrow> ((nat \<times> 'f) list \<times> (nat \<times> 'f) \<times> (nat \<times> 'f) list) option" where
  "first_typed t ts \<equiv> List.extract (\<lambda>x. fst x = t) ts"

text \<open>Taking from the queue \<open>n\<close> times.\<close>

fun take_times :: "('q \<Rightarrow> nat \<Rightarrow> ('q \<times> 'f) option) \<Rightarrow> nat \<Rightarrow> 'q \<Rightarrow> nat \<Rightarrow> ('q \<times> 'f list) option" where
  "take_times deq 0 q t = Some (q, [])"
| "take_times deq (Suc n) q t = do {
     (q, f) \<leftarrow> deq q t;
     (q, fs) \<leftarrow> take_times deq n q t;
     Some (q, f # fs)
   }"

locale typed_queue =
  fixes rep :: "'q \<Rightarrow> (nat \<times> 'f) list \<Rightarrow> bool" and fresh :: "'q \<Rightarrow> 'a \<Rightarrow> bool"
    and enq :: "'a \<Rightarrow> 'q \<Rightarrow> 'f \<Rightarrow> nat \<Rightarrow> ('q \<times> int) option" and deq :: "'q \<Rightarrow> nat \<Rightarrow> ('q \<times> 'f) option"
  assumes enq_new: "rep q ts \<Longrightarrow> f \<notin> snd ` set ts \<Longrightarrow> fresh q a \<Longrightarrow>
      \<exists>q'. enq a q f t = Some (q', 0) \<and> rep q' (ts @ [(t, f)])"
    and enq_dup: "rep q ts \<Longrightarrow> f \<in> snd ` set ts \<Longrightarrow> enq a q f t = Some (q, - EEXIST)"
    and deq_first: "rep q ts \<Longrightarrow> first_typed t ts = Some (ys, x, zs) \<Longrightarrow>
      \<exists>q'. deq q t = Some (q', snd x) \<and> rep q' (ys @ zs)"
    and deq_none: "rep q ts \<Longrightarrow> first_typed t ts = None \<Longrightarrow> deq q t = None"
begin

lemma deq_ready: "rep q ts \<Longrightarrow> deq q t \<noteq> None \<longleftrightarrow> t \<in> fst ` set ts"
  using deq_first [of q ts t] deq_none [of q ts t]
  by (cases "first_typed t ts") (force simp: extract_None_iff extract_Some_iff)+

lemma enq_result:
  "rep q ts \<Longrightarrow> fresh q a \<Longrightarrow> \<exists>q' ts'. enq a q f t = Some (q', if f \<in> snd ` set ts then - EEXIST else 0) \<and>
     rep q' ts' \<and> f \<in> snd ` set ts' \<and> (distinct (map snd ts) \<longrightarrow> distinct (map snd ts'))"
  using enq_new [of q ts f a t] enq_dup [of q ts f a t] by (cases "f \<in> snd ` set ts") force+

text \<open>The files of a type come out in the order they went in; the transfers of the other types stay.\<close>

lemma take_in_order:
  "rep q ts \<Longrightarrow> n \<le> length (filter (\<lambda>x. fst x = t) ts) \<Longrightarrow>
   \<exists>q' ts'. take_times deq n q t = Some (q', take n (map snd (filter (\<lambda>x. fst x = t) ts))) \<and> rep q' ts' \<and>
     filter (\<lambda>x. fst x \<noteq> t) ts' = filter (\<lambda>x. fst x \<noteq> t) ts \<and>
     filter (\<lambda>x. fst x = t) ts' = drop n (filter (\<lambda>x. fst x = t) ts)"
proof (induction n arbitrary: q ts)
  case (Suc n)
  then obtain ys x zs where ext: "first_typed t ts = Some (ys, x, zs)"
    by (cases "first_typed t ts") (auto simp: extract_None_iff filter_empty_conv)
  then have ts: "ts = ys @ x # zs" "fst x = t" "\<forall>y\<in>set ys. fst y \<noteq> t"
    by (auto simp: extract_Some_iff)
  then have [simp]: "filter (\<lambda>x. fst x = t) ys = []" by (simp add: filter_empty_conv)
  obtain q' where q': "deq q t = Some (q', snd x)" "rep q' (ys @ zs)"
    using deq_first [OF Suc.prems(1) ext] by blast
  moreover have "n \<le> length (filter (\<lambda>x. fst x = t) (ys @ zs))" using Suc.prems(2) ts by simp
  ultimately show ?case using Suc.IH [OF q'(2)] ts by auto
qed auto

end

definition transfer_fresh :: "transfer_queue \<Rightarrow> nat \<Rightarrow> bool" where
  "transfer_fresh q a \<longleftrightarrow> a \<noteq> 0 \<and> tq_nodes q a = None"

lemma queued_transfer_ok:
  "tnodes_rep q xs \<Longrightarrow> \<exists>a. queued_transfer q f (tq_head q) = Some a \<and> (a \<noteq> 0 \<longleftrightarrow> f \<in> snd ` set (map snd xs))"
  using queued_transfer_seg [of q "tq_head q" xs f] by (simp add: tnodes_rep_def image_image)

lemma queue_locked_new:
  assumes "tnodes_rep q xs" "f \<notin> snd ` set (map snd xs)" "transfer_fresh q a"
  shows "\<exists>q'. transfer_queue_locked a q f t = Some (q', 0) \<and> tnodes_rep q' (xs @ [(a, t, f)]) \<and> tq_sem q' = tq_sem q"
  using queued_transfer_ok [OF assms(1), of f] transfer_append_ok [OF assms(1), of a f t] assms(2,3)
  by (auto simp: transfer_queue_locked_def transfer_fresh_def)

lemma get_next_ok:
  assumes rep: "tnodes_rep q (ys @ (a, t, f) # zs)" and ys: "\<forall>y\<in>set ys. fst (snd y) \<noteq> t"
  shows "\<exists>q'. mcachefs_transfer_get_next_file_to_back_locked q t = Some (q', f) \<and> tnodes_rep q' (ys @ zs) \<and>
    tq_sem q' = tq_sem q"
proof -
  let ?xs = "ys @ (a, t, f) # zs"
  have seg: "tseg (tq_nodes q) (tq_head q) ?xs 0" using rep by (simp add: tnodes_rep_def)
  have "List.extract (\<lambda>x. fst (snd x) = t) ?xs = Some (ys, (a, t, f), zs)"
    using ys by (simp add: extract_Some_iff)
  then have "first_of_type q t (tq_head q) 0 = Some (a, if ys = [] then 0 else fst (last ys))"
    using first_of_type_seg [OF seg, of t 0] by simp
  moreover have "a \<noteq> 0" "ldq q a = Some \<lparr>tn_type = t, tn_mfile = f, tn_next = tn_next (the (tq_nodes q a))\<rparr>"
    using seg by (auto simp: tseg_append ldq_def)
  moreover have "tq_head q \<noteq> 0" using tseg_start [OF seg] tseg_nz [OF seg] by (cases ys) auto
  ultimately show ?thesis
    using transfer_unlink_ok [OF rep] by (auto simp: mcachefs_transfer_get_next_file_to_back_locked_def)
qed

lemma get_next_none:
  assumes "tnodes_rep q xs" "t \<notin> fst ` set (map snd xs)"
  shows "mcachefs_transfer_get_next_file_to_back_locked q t = Bug"
proof -
  have "List.extract (\<lambda>x. fst (snd x) = t) xs = None" using assms(2) by (auto simp: extract_None_iff)
  then have "first_of_type q t (tq_head q) 0 = Some (0, if xs = [] then 0 else fst (last xs))"
    using first_of_type_seg [of q "tq_head q" xs t 0] assms(1) by (simp add: tnodes_rep_def)
  then show ?thesis by (simp add: mcachefs_transfer_get_next_file_to_back_locked_def)
qed

interpretation tq: typed_queue transfers_rep transfer_fresh transfer_queue_locked
  mcachefs_transfer_get_next_file_to_back_locked
proof
  fix q ts f a t assume "transfers_rep q ts" "f \<notin> snd ` set ts" "transfer_fresh q a"
  then show "\<exists>q'. transfer_queue_locked a q f t = Some (q', 0) \<and> transfers_rep q' (ts @ [(t, f)])"
    using queue_locked_new [of q _ f a t] by (fastforce simp: transfers_rep_def)
next
  fix q ts f a t assume "transfers_rep q ts" and f: "f \<in> snd ` set ts"
  then obtain xs where "tnodes_rep q xs" "ts = map snd xs" by (auto simp: transfers_rep_def)
  with f show "transfer_queue_locked a q f t = Some (q, - EEXIST)"
    using queued_transfer_ok [of q xs f] by (auto simp: transfer_queue_locked_def)
next
  fix q ts t ys x zs assume rep: "transfers_rep q ts" and ext: "first_typed t ts = Some (ys, x, zs)"
  then have ts: "ts = ys @ x # zs" "fst x = t" "\<forall>y\<in>set ys. fst y \<noteq> t" by (auto simp: extract_Some_iff)
  obtain xs where xs: "tnodes_rep q xs" "map snd xs = ys @ x # zs" using rep ts(1) by (auto simp: transfers_rep_def)
  obtain us vs where us: "xs = us @ vs" "map snd us = ys" "map snd vs = x # zs"
    using xs(2) by (auto simp: map_eq_append_conv)
  obtain a ws where "vs = (a, x) # ws" "map snd ws = zs" using us(3) by (cases vs) auto
  with xs us ts(2) have us: "tnodes_rep q (us @ (a, t, snd x) # ws)" "map snd us = ys" "map snd ws = zs" by auto
  moreover have "\<forall>y\<in>set us. fst (snd y) \<noteq> t" using ts(3) unfolding us(2) [symmetric] by simp
  ultimately show "\<exists>q'. mcachefs_transfer_get_next_file_to_back_locked q t = Some (q', snd x) \<and>
      transfers_rep q' (ys @ zs)"
    using get_next_ok [of q us a t "snd x" ws] unfolding transfers_rep_def by (metis map_append)
next
  fix q ts t assume "transfers_rep q ts" "first_typed t ts = None"
  then show "mcachefs_transfer_get_next_file_to_back_locked q t = None"
    using get_next_none by (fastforce simp: transfers_rep_def extract_None_iff)
qed

end
