(* ===== verification/Transfer_Threads.thy ===== *)
theory Transfer_Threads
  imports Transfer_Queue
begin

text \<open>
  The threads of src/src/mcachefs-transfer.c as a state machine: each waits for the semaphore of
  its type, takes the first transfer of that type, runs it, and waits again, until the state of
  the program is quitting.  One step is what a thread does between two points where another can
  run; the callers of \<open>mcachefs_transfer_queue_file\<close> post the semaphore after they left the lock,
  which is a step of its own.
\<close>

section \<open>Steps\<close>

text \<open>In \<open>sem_wait\<close>; woken; about to take the lock and a transfer; running it; returned.\<close>

datatype thread_point = Waiting | Woken | Taking | Transferring | Ended

record transfer_thread =
  th_type :: nat
  th_currentfile :: fh
  th_point :: thread_point

text \<open>\<open>sys_posts\<close> are the posts that are still to be made, \<open>sys_stopping\<close> that the threads were stopped.\<close>

record transfer_system =
  sys_queue :: transfer_queue
  sys_threads :: "transfer_thread list"
  sys_posts :: "nat \<Rightarrow> nat"
  sys_read_state :: int
  sys_stopping :: bool

definition mcachefs_transfer_start_threads :: "config \<Rightarrow> transfer_thread list" where
  "mcachefs_transfer_start_threads c =
     concat (map (\<lambda>type. replicate (nat (cfg_threads_nb c ! type))
       \<lparr>th_type = type, th_currentfile = 0, th_point = Waiting\<rparr>) [0..<MCACHEFS_TRANSFER_TYPES])"

text \<open>Stopping posts the semaphore of each thread; it is a bug unless the state is quitting.\<close>

definition mcachefs_transfer_stop_threads :: "transfer_system \<Rightarrow> transfer_system option" where
  "mcachefs_transfer_stop_threads s =
     (if sys_read_state s \<noteq> read_state_code StateQuitting then Bug
      else Some (s\<lparr>sys_stopping := True, sys_posts := (\<lambda>type. sys_posts s type +
        length (filter (\<lambda>th. th_type th = type) (sys_threads s)))\<rparr>))"

definition transfer_sem_wait :: "transfer_queue \<Rightarrow> nat \<Rightarrow> transfer_queue option" where
  "transfer_sem_wait q type =
     (if tq_sem q type = 0 then None else Some (q\<lparr>tq_sem := (tq_sem q)(type := tq_sem q type - 1)\<rparr>))"

text \<open>What thread \<open>th\<close> does next: \<open>None\<close> while it has to wait, and \<open>Some None\<close> for a fault.\<close>

definition mcachefs_transfer_thread ::
  "transfer_queue \<Rightarrow> int \<Rightarrow> transfer_thread \<Rightarrow> (transfer_queue \<times> transfer_thread) option option" where
  "mcachefs_transfer_thread q rdstate th =
     (case th_point th of
        Waiting \<Rightarrow> (case transfer_sem_wait q (th_type th) of
            None \<Rightarrow> None
          | Some q \<Rightarrow> Some (Some (q, th\<lparr>th_point := Woken\<rparr>)))
      | Woken \<Rightarrow> Some (Some (q, th\<lparr>th_point :=
            if rdstate = read_state_code StateQuitting then Ended else Taking\<rparr>))
      | Taking \<Rightarrow> Some (case mcachefs_transfer_get_next_file_to_back_locked q (th_type th) of
            None \<Rightarrow> Bug
          | Some (q, mfile) \<Rightarrow> Some (q, th\<lparr>th_currentfile := mfile, th_point := Transferring\<rparr>))
      | Transferring \<Rightarrow> Some (Some (q, th\<lparr>th_currentfile := 0, th_point := Waiting\<rparr>))
      | Ended \<Rightarrow> None)"

datatype transfer_event = Ask nat fh | Post nat | Move nat | SetState int | Stop

inductive transfer_step :: "transfer_event \<Rightarrow> transfer_system \<Rightarrow> transfer_system \<Rightarrow> bool" where
  ask: "transfer_fresh (sys_queue s) a \<Longrightarrow> t < MCACHEFS_TRANSFER_TYPES \<Longrightarrow>
    transfer_queue_locked a (sys_queue s) f t = Some (q, res) \<Longrightarrow>
    transfer_step (Ask t f) s (s\<lparr>sys_queue := q,
      sys_posts := (if res = 0 then (sys_posts s)(t := sys_posts s t + 1) else sys_posts s)\<rparr>)"
| post: "0 < sys_posts s t \<Longrightarrow> transfer_sem_post (sys_queue s) t = Some q \<Longrightarrow>
    transfer_step (Post t) s (s\<lparr>sys_queue := q, sys_posts := (sys_posts s)(t := sys_posts s t - 1)\<rparr>)"
| move: "i < length (sys_threads s) \<Longrightarrow>
    mcachefs_transfer_thread (sys_queue s) (sys_read_state s) (sys_threads s ! i) = Some (Some (q, th)) \<Longrightarrow>
    transfer_step (Move i) s (s\<lparr>sys_queue := q, sys_threads := (sys_threads s)[i := th]\<rparr>)"
| set_state: "\<not> sys_stopping s \<Longrightarrow> transfer_step (SetState n) s (s\<lparr>sys_read_state := n\<rparr>)"
| stop: "\<not> sys_stopping s \<Longrightarrow> mcachefs_transfer_stop_threads s = Some s' \<Longrightarrow> transfer_step Stop s s'"

inductive_cases ask_stepE: "transfer_step (Ask t f) s s'"
inductive_cases post_stepE: "transfer_step (Post t) s s'"
inductive_cases move_stepE: "transfer_step (Move i) s s'"
inductive_cases set_state_stepE: "transfer_step (SetState n) s s'"
inductive_cases stop_stepE: "transfer_step Stop s s'"

lemmas transfer_stepEs = ask_stepE post_stepE move_stepE set_state_stepE stop_stepE

text \<open>The program once its threads are started.\<close>

definition initial_system :: "config \<Rightarrow> transfer_system" where
  "initial_system c = \<lparr>sys_queue = no_transfers, sys_threads = mcachefs_transfer_start_threads c,
     sys_posts = (\<lambda>_. 0), sys_read_state = cfg_read_state c, sys_stopping = False\<rparr>"

inductive transfer_reachable :: "config \<Rightarrow> transfer_system \<Rightarrow> bool" for c where
  init: "transfer_reachable c (initial_system c)"
| step: "transfer_reachable c s \<Longrightarrow> transfer_step ev s s' \<Longrightarrow> transfer_reachable c s'"

section \<open>The invariant\<close>

definition at_point :: "thread_point \<Rightarrow> nat \<Rightarrow> transfer_thread list \<Rightarrow> nat" where
  "at_point p t ths = length (filter (\<lambda>th. th_type th = t \<and> th_point th = p) ths)"

definition asked :: "nat \<Rightarrow> (nat \<times> fh) list \<Rightarrow> nat" where
  "asked t ts = length (filter (\<lambda>x. fst x = t) ts)"

text \<open>
  Every permission to take a transfer (a semaphore, a post to come, a thread woken or about to
  take) stands for a transfer of the queue; once the threads are stopped only those about to take
  count, and every thread that is to come back finds its semaphore.
\<close>

definition typed_inv :: "transfer_system \<Rightarrow> (nat \<times> fh) list \<Rightarrow> nat \<Rightarrow> bool" where
  "typed_inv s ts t \<longleftrightarrow> at_point Taking t (sys_threads s) \<le> asked t ts \<and>
     (\<not> sys_stopping s \<longrightarrow> tq_sem (sys_queue s) t + sys_posts s t + at_point Woken t (sys_threads s) +
        at_point Taking t (sys_threads s) \<le> asked t ts) \<and>
     (sys_stopping s \<longrightarrow> sys_read_state s = read_state_code StateQuitting \<and>
        at_point Waiting t (sys_threads s) + at_point Taking t (sys_threads s) +
          at_point Transferring t (sys_threads s) \<le> tq_sem (sys_queue s) t + sys_posts s t)"

definition transfer_inv :: "transfer_system \<Rightarrow> bool" where
  "transfer_inv s \<longleftrightarrow> (\<forall>th\<in>set (sys_threads s). th_type th < MCACHEFS_TRANSFER_TYPES) \<and>
   (\<exists>ts. transfers_rep (sys_queue s) ts \<and> distinct (map snd ts) \<and> (\<forall>t. typed_inv s ts t))"

lemma transfers_rep_sem [simp]: "transfers_rep (q\<lparr>tq_sem := x\<rparr>) ts = transfers_rep q ts"
  by (simp add: transfers_rep_def tnodes_rep_def)

lemma queue_locked_cases:
  assumes "transfers_rep q ts" "transfer_fresh q a" "transfer_queue_locked a q f t = Some (q', res)"
  shows "tq_sem q' = tq_sem q \<and> (if f \<in> snd ` set ts then res = - EEXIST \<and> q' = q
    else res = 0 \<and> transfers_rep q' (ts @ [(t, f)]))"
proof (cases "f \<in> snd ` set ts")
  case True
  then show ?thesis using tq.enq_dup [OF assms(1) True, of a t] assms(3) by simp
next
  case False
  obtain xs where xs: "tnodes_rep q xs" "ts = map snd xs" using assms(1) by (auto simp: transfers_rep_def)
  with False queue_locked_new [OF xs(1) _ assms(2), of f t] assms(3) show ?thesis
    by (auto simp: transfers_rep_def)
qed

lemma get_next_cases:
  assumes rep: "transfers_rep q ts" and t: "0 < asked t ts"
  shows "\<exists>q' f ts'. mcachefs_transfer_get_next_file_to_back_locked q t = Some (q', f) \<and> tq_sem q' = tq_sem q \<and>
    transfers_rep q' ts' \<and> (distinct (map snd ts) \<longrightarrow> distinct (map snd ts')) \<and>
    (\<forall>u. asked u ts' + of_bool (u = t) = asked u ts)"
proof -
  obtain xs where xs: "tnodes_rep q xs" "ts = map snd xs" using rep by (auto simp: transfers_rep_def)
  have "\<exists>x\<in>set xs. fst (snd x) = t" using t xs(2) by (auto simp: asked_def filter_empty_conv)
  then obtain ys y zs where split: "xs = ys @ y # zs" "fst (snd y) = t" "\<forall>x\<in>set ys. fst (snd x) \<noteq> t"
    using split_list_first_prop [of xs "\<lambda>x. fst (snd x) = t"] by blast
  moreover obtain a f where "y = (a, t, f)" using split(2) by (cases y) auto
  ultimately obtain q' where "mcachefs_transfer_get_next_file_to_back_locked q t = Some (q', f)"
      "tnodes_rep q' (ys @ zs)" "tq_sem q' = tq_sem q" using get_next_ok [of q ys a t f zs] xs(1) by auto
  moreover have "asked u (map snd (ys @ zs)) + of_bool (u = t) = asked u ts" for u
    using xs(2) split(1) \<open>y = (a, t, f)\<close> by (auto simp: asked_def)
  moreover have "distinct (map snd ts) \<longrightarrow> distinct (map snd (map snd (ys @ zs)))"
    using xs(2) split(1) by auto
  ultimately show ?thesis unfolding transfers_rep_def by blast
qed

lemma nth_split:
  assumes "i < length xs" obtains us x vs where "xs = us @ x # vs" "i = length us"
  by (rule that [of "take i xs" "xs ! i" "drop (Suc i) xs"]) (use assms id_take_nth_drop in auto)

lemma at_point_update:
  "i < length ths \<Longrightarrow> at_point p t (ths[i := th]) + of_bool (th_type (ths ! i) = t \<and> th_point (ths ! i) = p)
     = at_point p t ths + of_bool (th_type th = t \<and> th_point th = p)"
  by (rule nth_split [of i ths]) (auto simp: at_point_def nth_append)

lemma at_point_le: "at_point p t ths \<le> length (filter (\<lambda>th. th_type th = t) ths)"
  unfolding at_point_def by (induction ths) auto

lemma at_points_le:
  "at_point Waiting t ths + at_point Taking t ths + at_point Transferring t ths
     \<le> length (filter (\<lambda>th. th_type th = t) ths)"
  unfolding at_point_def by (induction ths) auto

lemma asked_append [simp]: "asked t (ts @ us) = asked t ts + asked t us"
  by (simp add: asked_def)

lemma asked_single [simp]: "asked t [(u, f)] = of_bool (t = u)"
  by (simp add: asked_def)

lemma initial_system_inv: "transfer_inv (initial_system c)"
proof -
  have "transfers_rep no_transfers []" by (simp add: transfers_rep_def tnodes_rep_def no_transfers_def)
  moreover have "at_point p t (mcachefs_transfer_start_threads c) = 0" if "p \<noteq> Waiting" for p t
    using that by (auto simp: at_point_def mcachefs_transfer_start_threads_def filter_empty_conv)
  ultimately show ?thesis
    by (auto simp: transfer_inv_def typed_inv_def initial_system_def asked_def no_transfers_def mcachefs_transfer_start_threads_def
        intro!: exI [of _ "[]"])
qed

lemma thread_typed:
  assumes rep: "transfers_rep q ts" and run: "mcachefs_transfer_thread q rdstate th = Some (Some (q', th'))"
    and taking: "th_point th = Taking \<Longrightarrow> 0 < asked (th_type th) ts"
  shows "th_type th' = th_type th \<and> (\<exists>ts'. transfers_rep q' ts' \<and> (distinct (map snd ts) \<longrightarrow> distinct (map snd ts')) \<and>
    (\<forall>u. asked u ts' + of_bool (th_point th = Taking \<and> u = th_type th) = asked u ts)) \<and>
    (\<forall>u. tq_sem q' u + of_bool (th_point th = Waiting \<and> u = th_type th) = tq_sem q u) \<and>
    th_point th' = (case th_point th of Waiting \<Rightarrow> Woken
      | Woken \<Rightarrow> if rdstate = read_state_code StateQuitting then Ended else Taking
      | Taking \<Rightarrow> Transferring | Transferring \<Rightarrow> Waiting | Ended \<Rightarrow> Ended)"
proof (cases "th_point th = Taking")
  case True
  obtain q1 f ts1 where taken: "mcachefs_transfer_get_next_file_to_back_locked q (th_type th) = Some (q1, f)"
      "tq_sem q1 = tq_sem q" and ts1: "transfers_rep q1 ts1" "distinct (map snd ts) \<longrightarrow> distinct (map snd ts1)"
      "\<forall>u. asked u ts1 + of_bool (u = th_type th) = asked u ts"
    using get_next_cases [OF rep taking [OF True]] by blast
  from taken run True have "q' = q1" "th' = th\<lparr>th_currentfile := f, th_point := Transferring\<rparr>"
    by (auto simp: mcachefs_transfer_thread_def)
  then show ?thesis using taken(2) ts1 True by (intro conjI exI [of _ ts1]) auto
next
  case False
  with run rep show ?thesis
    by (auto simp: mcachefs_transfer_thread_def transfer_sem_wait_def split: thread_point.splits option.splits if_splits)
qed

lemma at_point_nth: "i < length ths \<Longrightarrow> 0 < at_point (th_point (ths ! i)) (th_type (ths ! i)) ths"
  by (auto simp: at_point_def filter_empty_conv intro!: bexI [of _ "ths ! i"])

lemma move_inv:
  assumes inv: "transfer_inv s" and i: "i < length (sys_threads s)"
    and run: "mcachefs_transfer_thread (sys_queue s) (sys_read_state s) (sys_threads s ! i) = Some (Some (q, th))"
  shows "transfer_inv (s\<lparr>sys_queue := q, sys_threads := (sys_threads s)[i := th]\<rparr>)" (is "transfer_inv ?s")
proof -
  let ?th = "sys_threads s ! i"
  obtain ts where ts: "transfers_rep (sys_queue s) ts" "distinct (map snd ts)" "\<And>t. typed_inv s ts t"
    and types: "\<forall>th\<in>set (sys_threads s). th_type th < MCACHEFS_TRANSFER_TYPES"
    using inv by (auto simp: transfer_inv_def)
  have "0 < asked (th_type ?th) ts" if "th_point ?th = Taking"
    using ts(3) [of "th_type ?th"] at_point_nth [OF i] that by (simp add: typed_inv_def)
  from thread_typed [OF ts(1) run this] obtain ts' where
    th: "th_type th = th_type ?th" and ts': "transfers_rep q ts'" "distinct (map snd ts')"
    and cnt: "\<And>u. asked u ts' + of_bool (th_point ?th = Taking \<and> u = th_type ?th) = asked u ts"
    and sem: "\<And>u. tq_sem q u + of_bool (th_point ?th = Waiting \<and> u = th_type ?th) = tq_sem (sys_queue s) u"
    and pt: "th_point th = (case th_point ?th of Waiting \<Rightarrow> Woken
      | Woken \<Rightarrow> if sys_read_state s = read_state_code StateQuitting then Ended else Taking
      | Taking \<Rightarrow> Transferring | Transferring \<Rightarrow> Waiting | Ended \<Rightarrow> Ended)"
    using ts(2) by auto
  have "typed_inv ?s ts' t" for t
  proof -
    have upd: "at_point p t (sys_threads ?s) + of_bool (th_type ?th = t \<and> th_point ?th = p)
      = at_point p t (sys_threads s) + of_bool (th_type ?th = t \<and> th_point th = p)" for p
      using at_point_update [OF i, of p t th] th by simp
    show ?thesis
      using ts(3) [of t] upd [of Waiting] upd [of Woken] upd [of Taking] upd [of Transferring] cnt [of t] sem [of t] pt
      unfolding typed_inv_def
      by (cases "th_type ?th = t"; cases "th_point ?th"; cases "sys_stopping s") (auto split: if_splits)
  qed
  moreover have "\<forall>th\<in>set (sys_threads ?s). th_type th < MCACHEFS_TRANSFER_TYPES"
    using types th i by (auto dest!: set_update_subset_insert [THEN subsetD])
  ultimately show ?thesis using ts' by (auto simp: transfer_inv_def)
qed

lemma ask_inv:
  assumes inv: "transfer_inv s" and fresh: "transfer_fresh (sys_queue s) a"
    and run: "transfer_queue_locked a (sys_queue s) f t = Some (q, res)"
  shows "transfer_inv (s\<lparr>sys_queue := q,
      sys_posts := (if res = 0 then (sys_posts s)(t := sys_posts s t + 1) else sys_posts s)\<rparr>)" (is "transfer_inv ?s")
proof -
  obtain ts where ts: "transfers_rep (sys_queue s) ts" "distinct (map snd ts)" "\<And>t. typed_inv s ts t"
    and types: "\<forall>th\<in>set (sys_threads s). th_type th < MCACHEFS_TRANSFER_TYPES"
    using inv by (auto simp: transfer_inv_def)
  note q = queue_locked_cases [OF ts(1) fresh run]
  show ?thesis
  proof (cases "f \<in> snd ` set ts")
    case True
    with q have "?s = s" by (simp add: EEXIST_def)
    with inv show ?thesis by simp
  next
    case False
    have "typed_inv ?s (ts @ [(t, f)]) u" for u
      using ts(3) [of u] q False by (auto simp: typed_inv_def)
    with q False ts(2) types show ?thesis by (auto simp: transfer_inv_def intro!: exI [of _ "ts @ [(t, f)]"])
  qed
qed

lemma transfer_step_inv: "transfer_step ev s s' \<Longrightarrow> transfer_inv s \<Longrightarrow> transfer_inv s'"
proof (induction rule: transfer_step.induct)
  case (ask s a t f q res)
  then show ?case using ask_inv by blast
next
  case (post s t q)
  then have "q = (sys_queue s)\<lparr>tq_sem := (tq_sem (sys_queue s))(t := tq_sem (sys_queue s) t + 1)\<rparr>"
    by (simp add: transfer_sem_post_def split: if_splits)
  moreover obtain ts where "transfers_rep (sys_queue s) ts" "distinct (map snd ts)" "\<And>t. typed_inv s ts t"
      "\<forall>th\<in>set (sys_threads s). th_type th < MCACHEFS_TRANSFER_TYPES"
    using post.prems by (auto simp: transfer_inv_def)
  moreover from this(3) [of t] post.hyps(1) calculation(1)
  have "typed_inv (s\<lparr>sys_queue := q, sys_posts := (sys_posts s)(t := sys_posts s t - 1)\<rparr>) ts u" for u
    using \<open>typed_inv s ts u\<close> by (auto simp: typed_inv_def)
  ultimately show ?case by (auto simp: transfer_inv_def)
next
  case (move i s q th)
  then show ?case using move_inv by blast
next
  case (set_state s n)
  then show ?case by (auto simp: transfer_inv_def typed_inv_def)
next
  case (stop s s')
  then have s': "sys_read_state s = read_state_code StateQuitting" "s' = s\<lparr>sys_stopping := True,
      sys_posts := (\<lambda>type. sys_posts s type + length (filter (\<lambda>th. th_type th = type) (sys_threads s)))\<rparr>"
    by (auto simp: mcachefs_transfer_stop_threads_def split: if_splits)
  have "typed_inv s ts t \<Longrightarrow> typed_inv s' ts t" for ts t
    using s' at_points_le [of t "sys_threads s"] by (auto simp: typed_inv_def)
  with stop.prems s'(2) show ?case by (auto simp: transfer_inv_def)
qed

lemma transfer_reachable_inv: "transfer_reachable c s \<Longrightarrow> transfer_inv s"
  by (induction rule: transfer_reachable.induct) (auto intro: initial_system_inv transfer_step_inv)

section \<open>Ending\<close>

fun point_rank :: "thread_point \<Rightarrow> nat" where
  "point_rank Ended = 0"
| "point_rank Woken = 1"
| "point_rank Waiting = 2"
| "point_rank Transferring = 3"
| "point_rank Taking = 4"

text \<open>The steps that remain once the threads are stopped.\<close>

definition remaining_work :: "transfer_system \<Rightarrow> nat" where
  "remaining_work s = sum_list (map (point_rank \<circ> th_point) (sys_threads s)) +
     sum (sys_posts s) {..<MCACHEFS_TRANSFER_TYPES}"

lemma thread_no_fault:
  assumes "transfer_inv s" "i < length (sys_threads s)"
  shows "mcachefs_transfer_thread (sys_queue s) (sys_read_state s) (sys_threads s ! i) \<noteq> Some Bug"
proof (cases "th_point (sys_threads s ! i) = Taking")
  case True
  obtain ts where ts: "transfers_rep (sys_queue s) ts" "typed_inv s ts (th_type (sys_threads s ! i))"
    using assms(1) by (auto simp: transfer_inv_def)
  have "0 < asked (th_type (sys_threads s ! i)) ts"
    using ts(2) at_point_nth [OF assms(2)] True by (simp add: typed_inv_def)
  from get_next_cases [OF ts(1) this] True show ?thesis by (auto simp: mcachefs_transfer_thread_def)
next
  case False
  then show ?thesis
    by (auto simp: mcachefs_transfer_thread_def split: thread_point.splits option.splits)
qed

lemma sum_list_map_update:
  "i < length xs \<Longrightarrow> sum_list (map g (xs[i := x])) + g (xs ! i) = sum_list (map g xs) + (g x :: nat)"
  by (rule nth_split [of i xs]) (auto simp: nth_append)

lemma stopping_step_decreases:
  assumes step: "transfer_step ev s s'" and inv: "transfer_inv s" and stop: "sys_stopping s" and ev: "\<forall>t f. ev \<noteq> Ask t f"
  shows "remaining_work s' < remaining_work s"
  using step
proof cases
  case (post t q)
  have t: "t < MCACHEFS_TRANSFER_TYPES" using post(4) by (simp add: transfer_sem_post_def split: if_splits)
  have "sum ((sys_posts s)(t := sys_posts s t - 1)) {..<MCACHEFS_TRANSFER_TYPES} < sum (sys_posts s) {..<MCACHEFS_TRANSFER_TYPES}"
    by (rule sum_strict_mono_ex1) (use t post(3) in \<open>auto intro!: bexI [of _ t]\<close>)
  with post(2) show ?thesis by (simp add: remaining_work_def)
next
  case (move i q th)
  let ?th = "sys_threads s ! i"
  have quit: "sys_read_state s = read_state_code StateQuitting"
    using inv stop by (auto simp: transfer_inv_def typed_inv_def)
  have "point_rank (th_point th) < point_rank (th_point ?th)"
    using move(4) quit
    by (auto simp: mcachefs_transfer_thread_def split: thread_point.splits option.splits)
  with sum_list_map_update [OF move(3), of "point_rank \<circ> th_point" th] move(2) show ?thesis
    by (simp add: remaining_work_def)
qed (use stop ev in auto)

lemma stopping_step_exists:
  assumes inv: "transfer_inv s" and stop: "sys_stopping s" and th: "th \<in> set (sys_threads s)" "th_point th \<noteq> Ended"
  shows "\<exists>ev s'. transfer_step ev s s' \<and> (\<forall>t f. ev \<noteq> Ask t f)"
proof -
  obtain i where i: "i < length (sys_threads s)" "sys_threads s ! i = th" using th(1) by (auto simp: in_set_conv_nth)
  show ?thesis
  proof (cases "mcachefs_transfer_thread (sys_queue s) (sys_read_state s) th")
    case (Some r)
    with thread_no_fault [OF inv i(1)] i(2) obtain q th' where "r = Some (q, th')" by (cases r) auto
    with transfer_step.move [of i s q th'] i Some show ?thesis by blast
  next
    case None
    then have w: "th_point th = Waiting" "tq_sem (sys_queue s) (th_type th) = 0"
      using th(2) by (auto simp: mcachefs_transfer_thread_def transfer_sem_wait_def
          split: thread_point.splits option.splits if_splits)
    have "0 < at_point Waiting (th_type th) (sys_threads s)" using at_point_nth [OF i(1)] i(2) w(1) by simp
    moreover obtain ts where "typed_inv s ts (th_type th)" and "th_type th < MCACHEFS_TRANSFER_TYPES"
      using inv th(1) by (auto simp: transfer_inv_def)
    ultimately have "0 < sys_posts s (th_type th)" "th_type th < MCACHEFS_TRANSFER_TYPES"
      using stop w(2) by (simp_all add: typed_inv_def)
    then show ?thesis
      using transfer_step.post [of s "th_type th"] by (auto simp: transfer_sem_post_def)
  qed
qed

end
