(* ===== verification/Cache_Path.thy ===== *)
theory Cache_Path
  imports Host Config
begin

text \<open>
  The files of the cache, in src/src/mcachefs-util.c: whether a path is there, the creation of the
  directories that lead to it, and of an empty file.
\<close>

section \<open>The code\<close>

definition mcachefs_makepath_cache :: "config \<Rightarrow> string \<Rightarrow> string option" where
  "mcachefs_makepath_cache c path = do { prefix \<leftarrow> cfg_cache c; Some (mcachefs_makepath path prefix) }"

definition mcachefs_makepath_source :: "config \<Rightarrow> string \<Rightarrow> string option" where
  "mcachefs_makepath_source c path = do { prefix \<leftarrow> cfg_source c; Some (mcachefs_makepath path prefix) }"

definition mcachefs_fileincache :: "config \<Rightarrow> host \<Rightarrow> string \<Rightarrow> bool option" where
  "mcachefs_fileincache c h path = do {
     cachepath \<leftarrow> mcachefs_makepath_cache c path;
     Some (host_lstat h cachepath \<noteq> None)
   }"

text \<open>The C library's \<open>dirname\<close>.\<close>

definition strip_slashes :: "string \<Rightarrow> string" where
  "strip_slashes p = rev (dropWhile (\<lambda>c. c = CHR ''/'') (rev p))"

definition posix_dirname :: "string \<Rightarrow> string" where
  "posix_dirname p =
     (let q = strip_slashes p
      in if CHR ''/'' \<notin> set q then if q = [] \<and> p \<noteq> [] then ''/'' else ''.''
      else let d = strip_slashes (dir_of q) in if d = [] then ''/'' else d)"

text \<open>A path relative to the directory that is open at \<open>prefix\<close>.\<close>

definition at_path :: "string \<Rightarrow> string \<Rightarrow> string" where
  "at_path prefix_path rel = (if rel = ''.'' then prefix_path else prefix_path @ ''/'' @ rel)"

partial_function (option) mcachefs_createpath :: "string \<Rightarrow> string \<Rightarrow> bool \<Rightarrow> host \<Rightarrow> (host \<times> int) option" where
  "mcachefs_createpath prefix_path cpath lastIsDir h =
     (let cpath = (if take 1 cpath = ''/'' then tl cpath else cpath)
      in if cpath = [] then Some (h, 0)
      else let path = (if lastIsDir then cpath else posix_dirname cpath)
      in if path = ''/'' then Some (h, 0)
      else case host_open h prefix_path O_RDONLY 0 of
        Inl errno \<Rightarrow> Some (h, - errno)
      | Inr _ \<Rightarrow>
          if host_stat h (at_path prefix_path path) \<noteq> None then Some (h, 0)
          else let cname = path_basename path; parentname = posix_dirname path
          in do {
            (h, res) \<leftarrow> mcachefs_createpath prefix_path parentname True h;
            if res \<noteq> 0 then Some (h, res)
            else case host_open h (at_path prefix_path parentname) O_RDONLY 0 of
              Inl _ \<Rightarrow> Some (h, -1)
            | Inr _ \<Rightarrow>
                let (h, errno) = host_mkdir h (at_path (at_path prefix_path parentname) cname)
                in Some (h, if errno \<noteq> 0 then -1 else 0)
          })"

declare mcachefs_createpath.simps [code]

definition mcachefs_createpath_cache :: "config \<Rightarrow> string \<Rightarrow> bool \<Rightarrow> host \<Rightarrow> (host \<times> int) option" where
  "mcachefs_createpath_cache c path lastIsDir h = do {
     prefix \<leftarrow> cfg_cache c;
     mcachefs_createpath prefix path lastIsDir h
   }"

text \<open>\<open>i\<close> is the inode of a file that is created; the mode is not part of the host.\<close>

definition mcachefs_createfile_cache :: "config \<Rightarrow> nat \<Rightarrow> string \<Rightarrow> host \<Rightarrow> (host \<times> int) option" where
  "mcachefs_createfile_cache c i path h = do {
     (h, res) \<leftarrow> mcachefs_createpath_cache c path False h;
     if res \<noteq> 0 then Some (h, res)
     else do {
       backing_path \<leftarrow> mcachefs_makepath_cache c path;
       case host_lstat h backing_path of
         Some (HReg _) \<Rightarrow>
           let (h, errno) = host_truncate h backing_path 0
           in Some (h, if errno \<noteq> 0 then - errno else res)
       | _ \<Rightarrow>
           let (h, errno) = host_mknod h i backing_path
           in Some (h, if errno \<noteq> 0 then -1 else 0)
     }
   }"

end
