(* ===== verification/Transfer_Copy.thy ===== *)
theory Transfer_Copy
  imports Host File_Types Config "HOL-Library.Signed_Division"
begin

text \<open>
  The copy loop of \<open>mcachefs_transfer_file\<close> in src/src/mcachefs-transfer.c: rounds of reading and
  writing through a window whose size follows the rate, with the state of the program looked at
  three times a round.  The clock and that state are sequences of observations, as other threads
  and the host make them; times are in microseconds.
\<close>

section \<open>The code\<close>

definition transfer_window_size_min :: int where "transfer_window_size_min = 4 * 2 ^ 10"
definition transfer_window_size_max :: int where "transfer_window_size_max = 128 * 2 ^ 10"

text \<open>
  The state and the time at each observation, the maximum rate, whether \<open>realloc\<close> gives a window
  of a size; the inodes of the two descriptors and the time of the start.
\<close>

record copy_env =
  ce_read_state :: "nat \<Rightarrow> int"
  ce_clock :: "nat \<Rightarrow> int"
  ce_max_rate :: int
  ce_realloc :: "int \<Rightarrow> bool"
  ce_source :: nat
  ce_target :: nat
  ce_begin_copy :: int

record copying =
  cp_host :: host
  cp_offset :: int
  cp_remains :: int
  cp_window_size :: int
  cp_window_size_alloced :: int
  cp_last :: int
  cp_checks :: nat
  cp_times :: nat
  cp_penalty :: "int list"
  cp_transfer :: file_transfer

datatype copy_result = CopyMore | CopyEnd | CopyErr

definition check_state :: "copy_env \<Rightarrow> copying \<Rightarrow> copying \<times> bool" where
  "check_state ce cp = (cp\<lparr>cp_checks := cp_checks cp + 1\<rparr>,
     ce_read_state ce (cp_checks cp) = read_state_code StateQuitting)"

definition gettimeofday :: "copy_env \<Rightarrow> copying \<Rightarrow> copying \<times> int" where
  "gettimeofday ce cp = (cp\<lparr>cp_times := cp_times cp + 1\<rparr>, ce_clock ce (cp_times cp))"

text \<open>C's division, which faults on zero.\<close>

definition c_div :: "int \<Rightarrow> int \<Rightarrow> int option" where
  "c_div a b = (if b = 0 then Bug else Some (a sdiv b))"

text \<open>The nanoseconds to sleep when the rate is above the maximum.\<close>

definition transfer_penalty :: "int \<Rightarrow> int \<Rightarrow> int \<Rightarrow> int option" where
  "transfer_penalty window_size max_rate copy_interval = do {
     p \<leftarrow> c_div (window_size * 2 ^ 20) max_rate;
     let p = (if p > copy_interval * 2 ^ 10 then p - copy_interval * 2 ^ 10 else p);
     Some (if p > 900000000 then 900000000 else p)
   }"

definition adjust_window :: "copy_env \<Rightarrow> int \<Rightarrow> copying \<Rightarrow> copying \<times> bool" where
  "adjust_window ce global_rate cp =
     (if global_rate < 10 \<and> cp_window_size cp > 2 ^ 12
      then (cp\<lparr>cp_window_size := cp_window_size cp sdiv 2\<rparr>, True)
      else if global_rate > 100 \<and> cp_window_size cp < transfer_window_size_max
      then let cp = cp\<lparr>cp_window_size := cp_window_size cp * 2\<rparr>
        in if cp_window_size_alloced cp < cp_window_size cp
           then if ce_realloc ce (cp_window_size cp)
             then (cp\<lparr>cp_window_size_alloced := cp_window_size cp\<rparr>, True) else (cp, False)
           else (cp, True)
      else (cp, True))"

text \<open>What is read into the window has to fit there.\<close>

definition copy_window :: "copy_env \<Rightarrow> copying \<Rightarrow> int \<Rightarrow> (copying \<times> bool) option" where
  "copy_window ce cp tocopy =
     (if tocopy > cp_window_size_alloced cp then Bug
      else let (copied, window) = host_pread (cp_host cp) (ce_source ce) (nat tocopy) (cp_offset cp)
      in if tocopy \<noteq> copied then Some (cp, False)
      else let (cp, quitting) = check_state ce cp
      in if quitting then Some (cp, False)
      else let (h, copied) = host_pwrite (cp_host cp) (ce_target ce) window (cp_offset cp)
      in Some (cp\<lparr>cp_host := h\<rparr>, tocopy = copied))"

definition after_window :: "copy_env \<Rightarrow> copying \<Rightarrow> int \<Rightarrow> int \<Rightarrow> (copying \<times> copy_result) option" where
  "after_window ce cp before copied = do {
     let (cp, now) = gettimeofday ce cp;
     let interval = now - cp_last cp;
     let global_interval = now - ce_begin_copy ce;
     let cp = cp\<lparr>cp_last := now\<rparr>;
     rate \<leftarrow> c_div (copied * 1000) interval;
     global_rate \<leftarrow> c_div (cp_offset cp * 1000) global_interval;
     let adjusted_rate = (global_rate + rate) sdiv 2;
     cp \<leftarrow> (if ce_max_rate ce \<noteq> 0 \<and> adjusted_rate \<ge> ce_max_rate ce then do {
             p \<leftarrow> transfer_penalty (cp_window_size cp) (ce_max_rate ce) (now - before);
             Some (cp\<lparr>cp_penalty := p # cp_penalty cp\<rparr>)
           } else Some cp);
     let (cp, ok) = adjust_window ce global_rate cp;
     if \<not> ok then Some (cp, CopyErr)
     else Some (cp\<lparr>cp_transfer := (cp_transfer cp)\<lparr>tr_transfered_size := cp_offset cp,
       tr_rate := adjusted_rate, tr_total_time := global_interval\<rparr>\<rparr>, CopyMore)
   }"

text \<open>\<open>tocopy\<close>.\<close>

definition copy_size :: "copying \<Rightarrow> int" where
  "copy_size cp = (if cp_remains cp > cp_window_size cp then cp_window_size cp else cp_remains cp)"

definition copy_round :: "copy_env \<Rightarrow> copying \<Rightarrow> (copying \<times> copy_result) option" where
  "copy_round ce cp =
     (let (cp, quitting) = check_state ce cp
      in if quitting then Some (cp, CopyErr)
      else let (cp, before) = gettimeofday ce cp;
             tocopy = copy_size cp
      in do {
        (cp, ok) \<leftarrow> copy_window ce cp tocopy;
        if \<not> ok then Some (cp, CopyErr)
        else let (cp, quitting) = check_state ce cp
        in if quitting then Some (cp, CopyErr)
        else let cp = cp\<lparr>cp_offset := cp_offset cp + tocopy, cp_remains := cp_remains cp - tocopy\<rparr>
        in if cp_remains cp = 0 then Some (cp, CopyEnd) else after_window ce cp before tocopy
      })"

partial_function (option) copy_loop :: "copy_env \<Rightarrow> copying \<Rightarrow> (copying \<times> bool) option" where
  "copy_loop ce cp = do {
     (cp, res) \<leftarrow> copy_round ce cp;
     case res of
       CopyMore \<Rightarrow> copy_loop ce cp
     | CopyEnd \<Rightarrow> Some (cp, True)
     | CopyErr \<Rightarrow> Some (cp, False)
   }"

declare copy_loop.simps [code]

text \<open>The state at the start, where the time was looked at once.\<close>

definition copy_start :: "host \<Rightarrow> int \<Rightarrow> file_transfer \<Rightarrow> int \<Rightarrow> copying" where
  "copy_start h sz tr begin_copy = \<lparr>cp_host = h, cp_offset = 0, cp_remains = sz,
     cp_window_size = transfer_window_size_min, cp_window_size_alloced = transfer_window_size_min,
     cp_last = begin_copy, cp_checks = 0, cp_times = 1, cp_penalty = [], cp_transfer = tr\<rparr>"

end
