(* ===== verification/Transfer_Ops.thy ===== *)
theory Transfer_Ops
  imports File Cache_Path Transfer_Queue Transfer_Copy Journal_Apply
begin

text \<open>
  The transfers of src/src/mcachefs-transfer.c, over the open files, the queue, the journal and the
  host's files: asking for a copy into the cache or for a write-back, and what a thread does with
  the transfer it took, from the copy itself to the state of the file and the notification of the
  journal.  The filling of directories, which the same threads do, is that of
  src/src/mcachefs-metadata.c.
\<close>

section \<open>State and environment\<close>

record tworld =
  tw_file :: fworld
  tw_queue :: transfer_queue
  tw_journal :: journal

text \<open>
  The addresses of new queue nodes, the inodes of new files; what the copies observe of the state and
  of the clock, and the memory they get.
\<close>

record tenv =
  te_file :: fenv
  te_node :: "transfer_queue \<Rightarrow> nat"
  te_ino :: "host \<Rightarrow> nat"
  te_read_state :: "nat \<Rightarrow> int"
  te_clock :: "nat \<Rightarrow> int"
  te_realloc :: "int \<Rightarrow> bool"

abbreviation te_config :: "tenv \<Rightarrow> config" where
  "te_config e \<equiv> fe_config (te_file e)"

abbreviation tw_ms :: "tworld \<Rightarrow> mstate" where
  "tw_ms w \<equiv> fw_ms (tw_file w)"

abbreviation tw_host :: "tworld \<Rightarrow> host" where
  "tw_host w \<equiv> fw_host (tw_file w)"

definition with_host :: "tworld \<Rightarrow> host \<Rightarrow> tworld" where
  "with_host w h = w\<lparr>tw_file := (tw_file w)\<lparr>fw_host := h\<rparr>\<rparr>"

definition with_ms :: "tworld \<Rightarrow> mstate \<Rightarrow> tworld" where
  "with_ms w s = w\<lparr>tw_file := (tw_file w)\<lparr>fw_ms := s\<rparr>\<rparr>"

text \<open>The environment of the open files, with the journal as it is now.\<close>

definition file_env :: "tenv \<Rightarrow> tworld \<Rightarrow> fenv" where
  "file_env e w = (te_file e)\<lparr>fe_journal := tw_journal w\<rparr>"

definition upd_mfile :: "tworld \<Rightarrow> fh \<Rightarrow> (mfile \<Rightarrow> mfile) \<Rightarrow> tworld option" where
  "upd_mfile w f g = map_option (with_ms w) (updf (tw_ms w) f g)"

definition in_file :: "tworld \<Rightarrow> (fworld \<times> 'a) option \<Rightarrow> (tworld \<times> 'a) option" where
  "in_file w r = map_option (\<lambda>(v, x). (w\<lparr>tw_file := v\<rparr>, x)) r"

definition in_file_only :: "tworld \<Rightarrow> fworld option \<Rightarrow> tworld option" where
  "in_file_only w r = map_option (\<lambda>v. w\<lparr>tw_file := v\<rparr>) r"

text \<open>The path of a file as a string.\<close>

definition file_path :: "tworld \<Rightarrow> fh \<Rightarrow> string option" where
  "file_path w f = do { p \<leftarrow> ldf (tw_ms w) f mf_path; p }"

section \<open>Asking\<close>

definition transfer_queue_file :: "tenv \<Rightarrow> tworld \<Rightarrow> fh \<Rightarrow> nat \<Rightarrow> (tworld \<times> int) option" where
  "transfer_queue_file e w f type =
     map_option (\<lambda>(q, res). (w\<lparr>tw_queue := q\<rparr>, res))
       (mcachefs_transfer_queue_file (te_node e (tw_queue w)) (tw_queue w) f type)"

definition mcachefs_transfer_backfile :: "tenv \<Rightarrow> tworld \<Rightarrow> fh \<Rightarrow> (tworld \<times> int) option" where
  "mcachefs_transfer_backfile e w f = do {
     st \<leftarrow> ldf (tw_ms w) f mf_cache_status;
     if st = BackingAsked \<or> st = BackingInProgress \<or> st = BackingDone then Some (w, 0)
     else do {
       path \<leftarrow> file_path w f;
       cached \<leftarrow> mcachefs_fileincache (te_config e) (tw_host w) path;
       if cached then do {
         w \<leftarrow> upd_mfile w f (\<lambda>m. m\<lparr>mf_cache_status := BackingDone\<rparr>);
         Some (w, 0)
       }
       else do {
         w \<leftarrow> upd_mfile w f (\<lambda>m. m\<lparr>mf_cache_status := BackingAsked, mf_use := mf_use m + 1\<rparr>);
         (w, res) \<leftarrow> transfer_queue_file e w f TRANSFER_TYPE_BACKUP;
         Some (w, 0)
       }
     }
   }"

text \<open>The status is set before it is tested.\<close>

definition mcachefs_transfer_writeback :: "tenv \<Rightarrow> tworld \<Rightarrow> string \<Rightarrow> (tworld \<times> int) option" where
  "mcachefs_transfer_writeback e w path = do {
     cached \<leftarrow> mcachefs_fileincache (te_config e) (tw_host w) path;
     if \<not> cached then Some (w, - EIO)
     else do {
       (s, mdata) \<leftarrow> mcachefs_metadata_find_locked (fe_env (te_file e)) (tw_ms w) path;
       let w = with_ms w s;
       if mdata = 0 then Some (w, - ENOENT)
       else do {
         (s, f) \<leftarrow> mcachefs_fileid_get (te_file e) (tw_ms w) mdata (Some path) FileType;
         let w = with_ms w s;
         w \<leftarrow> upd_mfile w f (\<lambda>m. m\<lparr>mf_cache_status := BackingDone\<rparr>);
         transfer_queue_file e w f TRANSFER_TYPE_WRITEBACK
       }
     }
   }"

section \<open>Copying\<close>

definition transfer_copy_env :: "tenv \<Rightarrow> tworld \<Rightarrow> int \<Rightarrow> int \<Rightarrow> copy_env" where
  "transfer_copy_env e w source_fd target_fd = \<lparr>ce_read_state = te_read_state e, ce_clock = te_clock e,
     ce_max_rate = mcachefs_config_get_transfer_max_rate (te_config e), ce_realloc = te_realloc e,
     ce_source = fw_ino (tw_file w) source_fd, ce_target = fw_ino (tw_file w) target_fd,
     ce_begin_copy = te_clock e 0\<rparr>"

text \<open>After a copy that succeeded: the file is in the cache, the unused source is closed.\<close>

definition transfer_done :: "tworld \<Rightarrow> fh \<Rightarrow> bool \<Rightarrow> tworld option" where
  "transfer_done w f tobacking = do {
     w \<leftarrow> (if tobacking then upd_mfile w f (\<lambda>m. m\<lparr>mf_cache_status := BackingDone\<rparr>) else Some w);
     src \<leftarrow> ldf (tw_ms w) f mf_real;
     if src_use src = 0
     then in_file_only w (upd_source (os_close (tw_file w) (src_fd src)) f MCACHEFS_FILE_SOURCE_REAL
       (\<lambda>src. src\<lparr>src_fd := -1\<rparr>))
     else Some w
   }"

text \<open>With both descriptors open: the copy, and giving them back.\<close>

definition transfer_between ::
  "tenv \<Rightarrow> tworld \<Rightarrow> fh \<Rightarrow> bool \<Rightarrow> file_transfer \<Rightarrow> int \<Rightarrow> int \<Rightarrow> (tworld \<times> int) option" where
  "transfer_between e w f tobacking tr source_fd target_fd = do {
     let ce = transfer_copy_env e w source_fd target_fd;
     let sz = min (tr_total_size tr) (int (length (h_data (tw_host w) (ce_source ce))));
     (cp, ok) \<leftarrow> copy_loop ce (copy_start (tw_host w) sz tr (ce_begin_copy ce));
     w \<leftarrow> upd_mfile (with_host w (cp_host cp)) f (\<lambda>m. m\<lparr>mf_transfer := cp_transfer cp\<rparr>);
     w \<leftarrow> in_file_only w (mcachefs_file_putfd (tw_file w) f 1);
     w \<leftarrow> in_file_only w (mcachefs_file_putfd (tw_file w) f 0);
     if ok then do { w \<leftarrow> transfer_done w f tobacking; Some (w, 0) } else Some (w, - EIO)
   }"

definition mcachefs_transfer_file :: "tenv \<Rightarrow> tworld \<Rightarrow> fh \<Rightarrow> bool \<Rightarrow> (tworld \<times> int) option" where
  "mcachefs_transfer_file e w f tobacking = do {
     tr \<leftarrow> ldf (tw_ms w) f mf_transfer;
     let (source, target) = (if tobacking then (1, 0) else (0, 1));
     (w, source_fd) \<leftarrow> in_file w (mcachefs_file_getfd (file_env e w) (tw_file w) f source O_RDONLY);
     if source_fd < 0 then Some (w, - EIO)
     else do {
       (w, target_fd) \<leftarrow> in_file w (mcachefs_file_getfd (file_env e w) (tw_file w) f target O_RDWR);
       if target_fd < 0 then do {
         w \<leftarrow> in_file_only w (mcachefs_file_putfd (tw_file w) f (int source));
         Some (w, - EIO)
       }
       else transfer_between e w f tobacking tr source_fd target_fd
     }
   }"

section \<open>The two directions\<close>

definition mcachefs_transfer_do_backing :: "tenv \<Rightarrow> tworld \<Rightarrow> fh \<Rightarrow> tworld option" where
  "mcachefs_transfer_do_backing e w f = do {
     path \<leftarrow> file_path w f;
     cached \<leftarrow> mcachefs_fileincache (te_config e) (tw_host w) path;
     if cached then Some w
     else do {
       (h, res) \<leftarrow> mcachefs_createfile_cache (te_config e) (te_ino e (tw_host w)) path (tw_host w);
       let w = with_host w h;
       if res \<noteq> 0 then Some w
       else do {
         (w, res) \<leftarrow> mcachefs_transfer_file e w f True;
         if res = 0 then Some w
         else do {
           w \<leftarrow> upd_mfile w f (\<lambda>m. m\<lparr>mf_cache_status := BackingError,
                 mf_transfer := (mf_transfer m)\<lparr>tr_transfered_size := 0\<rparr>\<rparr>);
           path \<leftarrow> file_path w f;
           backingpath \<leftarrow> mcachefs_makepath_cache (te_config e) path;
           Some (with_host w (fst (host_unlink (tw_host w) backingpath)))
         }
       }
     }
   }"

text \<open>The real path is freed when the source seems fresher with the same size, and used afterwards.\<close>

definition mcachefs_transfer_do_writeback :: "tenv \<Rightarrow> tworld \<Rightarrow> fh \<Rightarrow> int \<times> int \<Rightarrow> tworld option" where
  "mcachefs_transfer_do_writeback e w f timbuf = do {
     path \<leftarrow> file_path w f;
     total_size \<leftarrow> ldf (tw_ms w) f (\<lambda>m. tr_total_size (mf_transfer m));
     realpath \<leftarrow> mcachefs_makepath_source (te_config e) path;
     let freed = (case host_stat (tw_host w) realpath of
           None \<Rightarrow> False
         | Some n \<Rightarrow> let (mtime, sz) = stat_times_size (tw_host w) realpath n
             in mtime \<ge> snd timbuf \<and> sz = total_size);
     (w, res) \<leftarrow> mcachefs_transfer_file e w f False;
     if freed then Bug
     else if res = 0 then do {
       let (h, errno) = host_utime (tw_host w) realpath (fst timbuf) (snd timbuf);
       let w = with_host w h;
       j \<leftarrow> mcachefs_notify_sync_end (tw_journal w) (errno = 0);
       Some (w\<lparr>tw_journal := j\<rparr>)
     }
     else do {
       j \<leftarrow> mcachefs_notify_sync_end (tw_journal w) False;
       Some (w\<lparr>tw_journal := j\<rparr>)
     }
   }"

section \<open>Filling a directory\<close>

definition mcachefs_metadata_schedule_fill_entry :: "tenv \<Rightarrow> tworld \<Rightarrow> mid \<Rightarrow> tworld option" where
  "mcachefs_metadata_schedule_fill_entry e w metadata = do {
     (s, f) \<leftarrow> mcachefs_fileid_get (te_file e) (tw_ms w) metadata None DirType;
     (w, res) \<leftarrow> transfer_queue_file e (with_ms w s) f TRANSFER_TYPE_METADATA;
     Some w
   }"

partial_function (option) schedule_children :: "tenv \<Rightarrow> mid \<Rightarrow> tworld \<Rightarrow> mid \<Rightarrow> tworld option" where
  "schedule_children e parent w child =
     (if child = 0 then Some w
      else do {
        m \<leftarrow> ld (tw_ms w) child (\<lambda>m. m);
        w \<leftarrow> (if S_ISDIR (md_mode m) \<and> \<not> (parent = id_root \<and> md_d_name m = VOPS_NAME)
              then mcachefs_metadata_schedule_fill_entry e w child else Some w);
        next_child \<leftarrow> ld (tw_ms w) child md_next;
        c \<leftarrow> do_get (tw_ms w) next_child;
        schedule_children e parent w c
      })"

declare schedule_children.simps [code]

definition mcachefs_metadata_schedule_fill_child_entries :: "tenv \<Rightarrow> tworld \<Rightarrow> mid \<Rightarrow> tworld option" where
  "mcachefs_metadata_schedule_fill_child_entries e w mdata = do {
     parent \<leftarrow> ld (tw_ms w) mdata md_id;
     (s, c) \<leftarrow> mcachefs_metadata_get_child (fe_env (te_file e)) (tw_ms w) mdata;
     schedule_children e parent (with_ms w s) c
   }"

partial_function (option) find_child :: "mstate \<Rightarrow> mid \<Rightarrow> string \<Rightarrow> mid option" where
  "find_child s child d_name =
     (if child = 0 then Some 0
      else do {
        m \<leftarrow> ld s child (\<lambda>m. m);
        if md_d_name m = d_name then Some child
        else do { c \<leftarrow> do_get s (md_next m); find_child s c d_name }
      })"

declare find_child.simps [code]

definition mcachefs_metadata_dir_get_child :: "mstate \<Rightarrow> mid \<Rightarrow> string \<Rightarrow> mid option" where
  "mcachefs_metadata_dir_get_child s father d_name = do {
     c \<leftarrow> ld s father md_child;
     if c = 0 \<or> c = id_EMPTY then Some 0
     else do { c \<leftarrow> do_get s c; find_child s c d_name }
   }"

text \<open>
  The entries that \<open>browse_dir\<close> gives, without the two for the directory and its father; the stat of
  each has to succeed.
\<close>

fun browse_entries :: "(string \<times> stat option) list \<Rightarrow> (string \<times> stat) list option" where
  "browse_entries [] = Some []"
| "browse_entries ((name, st) # des) =
     (if name = ''.'' \<or> name = ''..'' then browse_entries des
      else do { st \<leftarrow> st; rest \<leftarrow> browse_entries des; Some ((name, st) # rest) })"

text \<open>The comparison with an entry that exists only logs.\<close>

fun fill_loop :: "mstate \<Rightarrow> mid \<Rightarrow> bool \<Rightarrow> (string \<times> stat) list \<Rightarrow> mstate option" where
  "fill_loop s metaid virgindir [] = Some s"
| "fill_loop s metaid virgindir ((name, st) # des) = do {
     mdata \<leftarrow> do_get s metaid;
     existing \<leftarrow> (if virgindir then Some 0 else mcachefs_metadata_dir_get_child s mdata name);
     if existing \<noteq> 0 then fill_loop s metaid virgindir des
     else do {
       (s, newid) \<leftarrow> mcachefs_metadata_allocate s;
       newmeta \<leftarrow> do_get s newid;
       if length name > NAME_MAX then Bug
       else do {
         s \<leftarrow> upd s newmeta (\<lambda>m. m\<lparr>md_d_name := name, md_st := st\<rparr>);
         s \<leftarrow> mcachefs_metadata_add_child_ids s metaid newid;
         fill_loop s metaid virgindir des
       }
     }
   }"

definition mcachefs_metadata_fill_entry :: "tenv \<Rightarrow> tworld \<Rightarrow> fh \<Rightarrow> tworld option" where
  "mcachefs_metadata_fill_entry e w f = do {
     metaid \<leftarrow> ldf (tw_ms w) f mf_metadata_id;
     mdata \<leftarrow> do_get (tw_ms w) metaid;
     virgindir \<leftarrow> ld (tw_ms w) mdata (\<lambda>m. md_child m = 0);
     names \<leftarrow> mcachefs_metadata_recurse_open (tw_ms w) mdata;
     case env_readdir (fe_env (te_file e)) names of
       None \<Rightarrow> Some w
     | Some des \<Rightarrow> do {
         entries \<leftarrow> browse_entries des;
         s \<leftarrow> fill_loop (tw_ms w) metaid virgindir entries;
         mdata \<leftarrow> do_get s metaid;
         mcachefs_metadata_schedule_fill_child_entries e (with_ms w s) mdata
       }
   }"

text \<open>The line of a virtual file, or the prefix of the configuration, names the directory to fill.\<close>

definition mcachefs_metadata_fill :: "tenv \<Rightarrow> tworld \<Rightarrow> string \<Rightarrow> tworld option" where
  "mcachefs_metadata_fill e w path = do {
     metadata \<leftarrow> mcachefs_metadata_find_entry (fe_env (te_file e)) (tw_ms w) path;
     if metadata \<noteq> 0 then mcachefs_metadata_schedule_fill_entry e w metadata else Some w
   }"

definition mcachefs_metadata_fill_meta :: "tenv \<Rightarrow> tworld \<Rightarrow> tworld option" where
  "mcachefs_metadata_fill_meta e w =
     (case cfg_cache_prefix (te_config e) of
        Some prefix \<Rightarrow> mcachefs_metadata_fill e w prefix
      | None \<Rightarrow> Some w)"

section \<open>What a thread does with a transfer\<close>

definition mcachefs_transfer_do_transfer :: "tenv \<Rightarrow> tworld \<Rightarrow> fh \<Rightarrow> nat \<Rightarrow> tworld option" where
  "mcachefs_transfer_do_transfer e w f type =
     (if mcachefs_config_get_read_state (te_config e) = read_state_code StateHandsup then Some w
      else do {
        t \<leftarrow> ldf (tw_ms w) f mf_type;
        if t = DirType then mcachefs_metadata_fill_entry e w f
        else do {
          (w, mdata) \<leftarrow> in_file w (mcachefs_file_get_metadata (file_env e w) (tw_file w) f);
          if mdata = 0 then Some w
          else do {
            st \<leftarrow> ld (tw_ms w) mdata md_st;
            w \<leftarrow> upd_mfile w f (\<lambda>m. m\<lparr>mf_transfer := \<lparr>tr_tobacking = of_bool (type = TRANSFER_TYPE_BACKUP),
                  tr_total_size = st_size st, tr_transfered_size = 0, tr_rate = 0, tr_total_time = 0\<rparr>\<rparr>);
            if type = TRANSFER_TYPE_BACKUP then mcachefs_transfer_do_backing e w f
            else if type = TRANSFER_TYPE_WRITEBACK
            then mcachefs_transfer_do_writeback e w f (st_atime st, st_mtime st)
            else Some w
          }
        }
      })"

text \<open>Between taking the transfer from the queue and waiting again.\<close>

definition transfer_run :: "tenv \<Rightarrow> tworld \<Rightarrow> fh \<Rightarrow> nat \<Rightarrow> tworld option" where
  "transfer_run e w f type = do {
     w \<leftarrow> upd_mfile w f (\<lambda>m. if mf_cache_status m = BackingAsked then m\<lparr>mf_cache_status := BackingInProgress\<rparr> else m);
     w \<leftarrow> mcachefs_transfer_do_transfer e w f type;
     in_file_only w (mcachefs_file_release (tw_file w) f)
   }"

end
