(* ===== verification/Copy_Refine.thy ===== *)
theory Copy_Refine
  imports Transfer_Copy
begin

text \<open>
  What the copy loop does: it always ends without a fault when the clock advances between two
  looks at it, the target then starts with a part of the source, and with all that was asked when
  the loop reports success.
\<close>

section \<open>Writing a prefix\<close>

lemma write_at_start [simp]: "write_at old 0 bs = bs @ drop (length bs) old"
  by (simp add: write_at_def)

lemma write_at_prefix:
  assumes "a \<le> length src"
  shows "write_at (write_at old 0 (take a src)) a (take m (drop a src)) = write_at old 0 (take (a + m) src)"
  using assms by (simp add: write_at_def take_add min_def)

section \<open>The invariant\<close>

text \<open>The clock advances between two looks at it; the two descriptors are of different files.\<close>

definition copy_files_ok :: "copy_env \<Rightarrow> bool" where
  "copy_files_ok ce \<longleftrightarrow> ce_source ce \<noteq> 0 \<and> ce_target ce \<noteq> 0 \<and> ce_source ce \<noteq> ce_target ce"

definition copy_env_ok :: "copy_env \<Rightarrow> bool" where
  "copy_env_ok ce \<longleftrightarrow> strict_mono (ce_clock ce) \<and> ce_begin_copy ce = ce_clock ce 0 \<and> copy_files_ok ce"

text \<open>\<open>h\<close> is \<open>h0\<close> with the first \<open>k\<close> bytes of the source put into the target.\<close>

definition copied_prefix :: "copy_env \<Rightarrow> host \<Rightarrow> nat \<Rightarrow> host \<Rightarrow> bool" where
  "copied_prefix ce h0 k h \<longleftrightarrow> h_nodes h = h_nodes h0 \<and> h_refuse h = h_refuse h0 \<and>
     h_read_max h = h_read_max h0 \<and> h_write_max h = h_write_max h0 \<and>
     (\<forall>i. i \<noteq> ce_target ce \<longrightarrow> h_data h i = h_data h0 i \<and> h_mtime h i = h_mtime h0 i) \<and>
     h_data h (ce_target ce) = write_at (h_data h0 (ce_target ce)) 0 (take k (h_data h0 (ce_source ce)))"

definition window_ok :: "copying \<Rightarrow> bool" where
  "window_ok cp \<longleftrightarrow> (\<exists>k\<le>5. cp_window_size cp = 2 ^ 12 * 2 ^ k) \<and> cp_window_size cp \<le> cp_window_size_alloced cp"

text \<open>The times looked at are of this run of the loop.\<close>

definition times_ok :: "copy_env \<Rightarrow> copying \<Rightarrow> bool" where
  "times_ok ce cp \<longleftrightarrow> 0 < cp_times cp \<and> cp_last cp \<le> ce_clock ce (cp_times cp - 1)"

text \<open>Nothing fails: the host transfers all it is asked, memory is there and the program goes on.\<close>

definition smooth :: "copy_env \<Rightarrow> host \<Rightarrow> bool" where
  "smooth ce h \<longleftrightarrow> (\<forall>n. ce_read_state ce n \<noteq> read_state_code StateQuitting) \<and> (\<forall>n. ce_realloc ce n) \<and>
     (\<forall>i at n. int n \<le> h_read_max h i at n) \<and> (\<forall>i at n. int n \<le> h_write_max h i at n)"

definition copy_inv :: "copy_env \<Rightarrow> host \<Rightarrow> int \<Rightarrow> copying \<Rightarrow> bool" where
  "copy_inv ce h0 sz cp \<longleftrightarrow> 0 \<le> cp_offset cp \<and> 0 \<le> cp_remains cp \<and> cp_offset cp + cp_remains cp = sz \<and>
     sz \<le> int (length (h_data h0 (ce_source ce))) \<and> copied_prefix ce h0 (nat (cp_offset cp)) (cp_host cp) \<and>
     window_ok cp"

lemma window_bounds: "window_ok cp \<Longrightarrow> 2 ^ 12 \<le> cp_window_size cp \<and> cp_window_size cp \<le> transfer_window_size_max"
  by (auto simp: window_ok_def transfer_window_size_max_def power_increasing [of _ 5 "2::int", simplified])

lemma copied_prefix_id: "copied_prefix ce h 0 h"
  by (simp add: copied_prefix_def)

lemma pwrite_prefix:
  assumes pre: "copied_prefix ce h0 k h" and k: "k \<le> length (h_data h0 (ce_source ce))"
    and run: "host_pwrite h (ce_target ce) (take m (drop k (h_data h0 (ce_source ce)))) (int k) = (h', c)"
  shows "\<exists>j\<le>m. copied_prefix ce h0 (k + j) h' \<and> (c = int m \<longrightarrow> j = m) \<and>
    (smooth ce h0 \<and> ce_target ce \<noteq> 0 \<and> k + m \<le> length (h_data h0 (ce_source ce)) \<longrightarrow> c = int m)"
proof -
  let ?src = "h_data h0 (ce_source ce)" and ?bs = "take m (drop k (h_data h0 (ce_source ce)))"
  let ?max = "h_write_max h (ce_target ce) (int k) (length ?bs)"
  have wmax: "h_write_max h = h_write_max h0" using pre by (simp add: copied_prefix_def)
  consider "c < 0" "h' = h" "ce_target ce = 0 \<or> ?max < 0" | "0 \<le> ?max" "ce_target ce \<noteq> 0" using run
    by (cases "ce_target ce = 0"; cases "?max < 0") (auto simp: host_pwrite_def EBADF_def)
  then show ?thesis
  proof cases
    case 1
    moreover have "0 \<le> ?max" if "smooth ce h0" using that wmax by (auto simp: smooth_def intro: order_trans [of _ "int (length ?bs)"])
    ultimately show ?thesis using pre by (intro exI [of _ 0]) auto
  next
    case 2
    define j where "j = min (nat ?max) (length ?bs)"
    have j: "j \<le> m" "j \<le> length ?src - k" unfolding j_def by auto
    have "take (nat ?max) ?bs = take j ?bs" unfolding j_def by (simp add: min_def)
    then have bs: "take (nat ?max) ?bs = take j (drop k ?src)" using j(1) by (simp add: min_def)
    have len: "length (take j (drop k ?src)) = j" using j(2) by simp
    have h': "h' = (if j = 0 then h else h\<lparr>h_data := (h_data h)(ce_target ce := write_at (h_data h (ce_target ce)) k (take j (drop k ?src))),
        h_mtime := (h_mtime h)(ce_target ce := h_now h)\<rparr>)" and c: "c = int j"
      using run 2 bs len j(2) by (auto simp: host_pwrite_def Let_def split: if_splits)
    have "h_data h (ce_target ce) = write_at (h_data h0 (ce_target ce)) 0 (take k ?src)"
      using pre by (simp add: copied_prefix_def)
    then have "h_data h' (ce_target ce) = write_at (h_data h0 (ce_target ce)) 0 (take (k + j) ?src)"
      using h' write_at_prefix [OF k, of "h_data h0 (ce_target ce)" j] by (simp del: write_at_start)
    then have "copied_prefix ce h0 (k + j) h'" using pre h' by (simp add: copied_prefix_def)
    moreover have "j = m" if "smooth ce h0" "k + m \<le> length ?src"
    proof -
      have "int (length ?bs) \<le> ?max" using that(1) wmax by (simp add: smooth_def)
      with that(2) show ?thesis unfolding j_def by (auto simp: nat_le_iff le_nat_iff min_def)
    qed
    ultimately show ?thesis using j c by auto
  qed
qed

section \<open>One round\<close>

lemma check_state_sel [simp]:
  "cp_host (fst (check_state ce cp)) = cp_host cp" "cp_offset (fst (check_state ce cp)) = cp_offset cp"
  "cp_remains (fst (check_state ce cp)) = cp_remains cp"
  by (simp_all add: check_state_def)

text \<open>What is the same but for the host and the number of looks at the state.\<close>

definition same_copying :: "copying \<Rightarrow> copying \<Rightarrow> bool" where
  "same_copying cp cp' \<longleftrightarrow> cp_offset cp' = cp_offset cp \<and> cp_remains cp' = cp_remains cp \<and>
     cp_window_size cp' = cp_window_size cp \<and> cp_window_size_alloced cp' = cp_window_size_alloced cp \<and>
     cp_last cp' = cp_last cp \<and> cp_times cp' = cp_times cp \<and> cp_transfer cp' = cp_transfer cp \<and>
     cp_penalty cp' = cp_penalty cp"

lemma pread_full:
  assumes "copied_prefix ce h0 k h" "ce_source ce \<noteq> ce_target ce"
    "host_pread h (ce_source ce) m (int k) = (int m, bs)" 
  shows "bs = take m (drop k (h_data h0 (ce_source ce)))"
proof -
  have src: "h_data h (ce_source ce) = h_data h0 (ce_source ce)" using assms(1,2) by (simp add: copied_prefix_def)
  show ?thesis using assms(3) unfolding host_pread_def src
    by (auto simp: Let_def EISDIR_def split: if_splits)
qed

lemma pread_smooth:
  assumes "copied_prefix ce h0 k h" "copy_files_ok ce" "smooth ce h0" "k + m \<le> length (h_data h0 (ce_source ce))"
  shows "fst (host_pread h (ce_source ce) m (int k)) = int m"
proof -
  have "h_data h (ce_source ce) = h_data h0 (ce_source ce)" "h_read_max h = h_read_max h0"
    using assms(1,2) by (auto simp: copied_prefix_def copy_files_ok_def)
  moreover have "int m \<le> h_read_max h0 (ce_source ce) (int k) m" using assms(3) by (simp add: smooth_def)
  ultimately show ?thesis using assms(2,4) by (auto simp: host_pread_def copy_files_ok_def Let_def)
qed

lemma copy_window_ok:
  assumes env: "copy_files_ok ce" and inv: "copy_inv ce h0 sz cp" and m: "0 \<le> m" "m \<le> cp_remains cp" "m \<le> cp_window_size cp"
  shows "\<exists>cp' ok k. copy_window ce cp m = Some (cp', ok) \<and> same_copying cp cp' \<and> k \<le> nat sz \<and>
    copied_prefix ce h0 k (cp_host cp') \<and> (ok \<longrightarrow> k = nat (cp_offset cp + m)) \<and> (smooth ce h0 \<longrightarrow> ok)"
proof -
  let ?src = "h_data h0 (ce_source ce)"
  define o1 where "o1 = nat (cp_offset cp)"
  have inv': "copied_prefix ce h0 o1 (cp_host cp)" "int o1 = cp_offset cp" "o1 \<le> nat sz" "o1 \<le> length ?src"
    "o1 + nat m \<le> length ?src" "o1 + nat m \<le> nat sz" "m \<le> cp_window_size_alloced cp"
    using inv m by (auto simp: copy_inv_def window_ok_def o1_def)
  obtain c bs where rd: "host_pread (cp_host cp) (ce_source ce) (nat m) (cp_offset cp) = (c, bs)" by fastforce
  obtain h' c' where wr: "host_pwrite (cp_host cp) (ce_target ce) bs (cp_offset cp) = (h', c')" by fastforce
  let ?cp = "cp\<lparr>cp_checks := cp_checks cp + 1\<rparr>"
  have sm: "m = c" "ce_read_state ce (cp_checks cp) \<noteq> read_state_code StateQuitting" if "smooth ce h0"
    using pread_smooth [OF inv'(1) env that inv'(5)] that rd inv'(2) m(1) by (auto simp: smooth_def)
  consider "m \<noteq> c" | "m = c" "ce_read_state ce (cp_checks cp) = read_state_code StateQuitting"
    | "m = c" "ce_read_state ce (cp_checks cp) \<noteq> read_state_code StateQuitting" by blast
  then show ?thesis
  proof cases
    case 1
    then have "copy_window ce cp m = Some (cp, False)" using inv'(7) rd by (simp add: copy_window_def)
    with 1 sm inv' show ?thesis by (intro exI [of _ cp] exI [of _ False] exI [of _ o1]) (auto simp: same_copying_def)
  next
    case 2
    then have "copy_window ce cp m = Some (?cp, False)" using inv'(7) rd by (simp add: copy_window_def check_state_def)
    with 2 sm inv' show ?thesis by (intro exI [of _ ?cp] exI [of _ False] exI [of _ o1]) (auto simp: same_copying_def)
  next
    case 3
    have "bs = take (nat m) (drop o1 ?src)"
      using pread_full [OF inv'(1)] env rd 3(1) m(1) inv'(2) by (simp add: copy_files_ok_def)
    then obtain j where j: "j \<le> nat m" "copied_prefix ce h0 (o1 + j) h'" "c' = m \<longrightarrow> j = nat m" "smooth ce h0 \<Longrightarrow> c' = m"
      using pwrite_prefix [OF inv'(1,4), of "nat m" h' c'] wr inv'(2,5) m(1) env by (auto simp: copy_files_ok_def)
    have "copy_window ce cp m = Some (?cp\<lparr>cp_host := h'\<rparr>, m = c')"
      using inv'(7) rd wr 3 by (simp add: copy_window_def check_state_def)
    moreover have "m = c' \<longrightarrow> o1 + j = nat (cp_offset cp + m)" using j(3) inv'(2) m(1) by auto
    ultimately show ?thesis using j inv' 
      by (intro exI [of _ "?cp\<lparr>cp_host := h'\<rparr>"] exI [of _ "m = c'"] exI [of _ "o1 + j"]) (auto simp: same_copying_def)
  qed
qed

lemma adjust_window_ok:
  assumes "window_ok cp"
  shows "\<exists>cp' ok. adjust_window ce rate cp = (cp', ok) \<and> (ok \<longrightarrow> window_ok cp') \<and> ((\<forall>n. ce_realloc ce n) \<longrightarrow> ok) \<and> cp_host cp' = cp_host cp \<and>
    cp_offset cp' = cp_offset cp \<and> cp_remains cp' = cp_remains cp \<and> cp_last cp' = cp_last cp \<and> cp_times cp' = cp_times cp"
proof -
  obtain k where k: "k \<le> 5" "cp_window_size cp = 2 ^ 12 * 2 ^ k" "cp_window_size cp \<le> cp_window_size_alloced cp"
    using assms by (auto simp: window_ok_def)
  have down: "\<exists>j\<le>5. cp_window_size cp sdiv 2 = 2 ^ 12 * 2 ^ j" "cp_window_size cp sdiv 2 \<le> cp_window_size_alloced cp"
    if "cp_window_size cp > 2 ^ 12"
  proof -
    have "k \<noteq> 0" using that k(2) by (intro notI) simp
    then obtain j where "k = Suc j" using not0_implies_Suc by blast
    then have "cp_window_size cp sdiv 2 = 2 ^ 12 * 2 ^ j" using k(2) by (simp add: signed_divide_int_def sgn_mult)
    with k \<open>k = Suc j\<close> show "\<exists>j\<le>5. cp_window_size cp sdiv 2 = 2 ^ 12 * 2 ^ j" "cp_window_size cp sdiv 2 \<le> cp_window_size_alloced cp"
      by (auto intro!: exI [of _ j] intro: order_trans [of _ "8192 * 2 ^ j"])
  qed
  have up: "\<exists>j\<le>5. cp_window_size cp * 2 = 2 ^ 12 * 2 ^ j" if "cp_window_size cp < transfer_window_size_max"
  proof -
    have "k \<noteq> 5" using that k(2) by (intro notI) (simp add: transfer_window_size_max_def)
    with k show ?thesis by (intro exI [of _ "Suc k"]) auto
  qed
  from down up assms show ?thesis
    by (auto simp: adjust_window_def window_ok_def Let_def)
qed

lemma times_ok_now:
  assumes "copy_env_ok ce" "times_ok ce cp"
  shows "cp_last cp < ce_clock ce (cp_times cp)" "ce_begin_copy ce < ce_clock ce (cp_times cp)"
proof -
  have "ce_clock ce (cp_times cp - 1) < ce_clock ce (cp_times cp)" "ce_clock ce 0 < ce_clock ce (cp_times cp)"
    using assms by (auto simp: copy_env_ok_def times_ok_def strict_mono_def)
  with assms show "cp_last cp < ce_clock ce (cp_times cp)" "ce_begin_copy ce < ce_clock ce (cp_times cp)"
    by (auto simp: copy_env_ok_def times_ok_def)
qed

lemma penalty_some: "r \<noteq> 0 \<Longrightarrow> \<exists>p. transfer_penalty w r c = Some p"
  by (auto simp: transfer_penalty_def c_div_def Let_def)

lemma after_window_ok:
  assumes env: "copy_env_ok ce" and win: "window_ok cp" and times: "times_ok ce cp"
  shows "\<exists>cp' r. after_window ce cp before n = Some (cp', r) \<and> r \<noteq> CopyEnd \<and> cp_host cp' = cp_host cp \<and>
    cp_offset cp' = cp_offset cp \<and> cp_remains cp' = cp_remains cp \<and> (r = CopyMore \<longrightarrow> window_ok cp' \<and> times_ok ce cp') \<and> (smooth ce h0 \<longrightarrow> r = CopyMore)"
proof -
  define now where "now = ce_clock ce (cp_times cp)"
  let ?cp = "cp\<lparr>cp_times := cp_times cp + 1, cp_last := now\<rparr>"
  define rate where "rate = n * 1000 sdiv (now - cp_last cp)"
  define global where "global = cp_offset cp * 1000 sdiv (now - ce_begin_copy ce)"
  let ?adj = "(global + rate) sdiv 2"
  have nz: "now - cp_last cp \<noteq> 0" "now - ce_begin_copy ce \<noteq> 0"
    using times_ok_now [OF env times] by (simp_all add: now_def)
  obtain p where p: "ce_max_rate ce \<noteq> 0 \<Longrightarrow> transfer_penalty (cp_window_size cp) (ce_max_rate ce) (now - before) = Some p"
    using penalty_some by blast
  define cp1 where "cp1 = (if ce_max_rate ce \<noteq> 0 \<and> ?adj \<ge> ce_max_rate ce then ?cp\<lparr>cp_penalty := p # cp_penalty cp\<rparr> else ?cp)"
  have cp1: "window_ok cp1" "cp_host cp1 = cp_host cp" "cp_offset cp1 = cp_offset cp" "cp_remains cp1 = cp_remains cp"
    "cp_last cp1 = now" "cp_times cp1 = cp_times cp + 1"
    using win by (auto simp: cp1_def window_ok_def)
  obtain cp2 ok where cp2: "adjust_window ce global cp1 = (cp2, ok)" "(\<forall>n. ce_realloc ce n) \<longrightarrow> ok" "ok \<longrightarrow> window_ok cp2" "cp_host cp2 = cp_host cp1"
    "cp_offset cp2 = cp_offset cp1" "cp_remains cp2 = cp_remains cp1" "cp_last cp2 = cp_last cp1" "cp_times cp2 = cp_times cp1"
    using adjust_window_ok [OF cp1(1), of ce global] by metis
  let ?cp3 = "cp2\<lparr>cp_transfer := (cp_transfer cp2)\<lparr>tr_transfered_size := cp_offset cp2,
       tr_rate := ?adj, tr_total_time := now - ce_begin_copy ce\<rparr>\<rparr>"
  have run: "after_window ce cp before n = (if ok then Some (?cp3, CopyMore) else Some (cp2, CopyErr))"
  proof (cases "ce_max_rate ce \<noteq> 0 \<and> ?adj \<ge> ce_max_rate ce")
    case True
    with nz p cp2(1) show ?thesis
      by (simp add: after_window_def gettimeofday_def c_div_def Let_def cp1_def flip: now_def rate_def global_def)
  next
    case False
    then have "cp1 = ?cp" by (simp add: cp1_def)
    with nz cp2(1) False show ?thesis
      by (auto simp: after_window_def gettimeofday_def c_div_def Let_def simp flip: now_def rate_def global_def)
  qed
  from cp1 cp2 show ?thesis unfolding run
    by (cases ok) (auto simp: window_ok_def times_ok_def now_def smooth_def)
qed

lemma copy_round_ok:
  assumes env: "copy_env_ok ce" and inv: "copy_inv ce h0 sz cp" and times: "times_ok ce cp"
  shows "\<exists>cp' r k. copy_round ce cp = Some (cp', r) \<and> k \<le> nat sz \<and> copied_prefix ce h0 k (cp_host cp') \<and>
    (r = CopyEnd \<longrightarrow> k = nat sz) \<and> (r = CopyMore \<longrightarrow> copy_inv ce h0 sz cp' \<and> times_ok ce cp' \<and> cp_remains cp' < cp_remains cp) \<and>
    (smooth ce h0 \<longrightarrow> r \<noteq> CopyErr)"
proof (cases "ce_read_state ce (cp_checks cp) = read_state_code StateQuitting")
  case True
  with inv have "copy_round ce cp = Some (cp\<lparr>cp_checks := cp_checks cp + 1\<rparr>, CopyErr)" "\<not> smooth ce h0"
    by (auto simp: copy_round_def check_state_def smooth_def)
  with inv show ?thesis by (auto simp: copy_inv_def intro!: exI [of _ "nat (cp_offset cp)"])
next
  case False
  define m where "m = copy_size cp"
  let ?cp0 = "cp\<lparr>cp_checks := cp_checks cp + 1, cp_times := cp_times cp + 1\<rparr>"
  have m0: "copy_size ?cp0 = m" by (simp add: m_def copy_size_def)
  have win: "window_ok cp" and pos: "0 \<le> cp_remains cp" using inv by (simp_all add: copy_inv_def)
  have m: "0 \<le> m" "m \<le> cp_remains cp" "m \<le> cp_window_size cp" "cp_remains cp \<noteq> 0 \<Longrightarrow> 0 < m"
    using pos window_bounds [OF win] by (auto simp: m_def copy_size_def)
  have inv0: "copy_inv ce h0 sz ?cp0"
    using inv by (simp add: copy_inv_def window_ok_def)
  obtain cp1 ok k where cp1: "copy_window ce ?cp0 m = Some (cp1, ok)" "same_copying ?cp0 cp1" "k \<le> nat sz"
      "copied_prefix ce h0 k (cp_host cp1)" "ok \<longrightarrow> k = nat (cp_offset cp + m)" "smooth ce h0 \<longrightarrow> ok"
    using copy_window_ok [OF _ inv0, of m] m env by (auto simp: copy_env_ok_def)
  let ?cp2 = "cp1\<lparr>cp_checks := cp_checks cp1 + 1\<rparr>"
  let ?cp3 = "?cp2\<lparr>cp_offset := cp_offset cp1 + m, cp_remains := cp_remains cp1 - m\<rparr>"
  have run: "copy_round ce cp = (if \<not> ok then Some (cp1, CopyErr)
      else if ce_read_state ce (cp_checks cp1) = read_state_code StateQuitting then Some (?cp2, CopyErr)
      else if cp_remains cp1 - m = 0 then Some (?cp3, CopyEnd)
      else after_window ce ?cp3 (ce_clock ce (cp_times cp)) m)"
    using cp1(1) False m0 by (simp add: copy_round_def check_state_def gettimeofday_def Let_def)
  have win3: "window_ok ?cp3" "times_ok ce ?cp3"
    using inv0 cp1(2) times times_ok_now [OF env times]
    by (simp_all add: copy_inv_def window_ok_def times_ok_def same_copying_def)
  obtain cp4 r where cp4: "after_window ce ?cp3 (ce_clock ce (cp_times cp)) m = Some (cp4, r)" "r \<noteq> CopyEnd"
      "cp_host cp4 = cp_host cp1" "cp_offset cp4 = cp_offset cp1 + m" "cp_remains cp4 = cp_remains cp1 - m"
      "r = CopyMore \<longrightarrow> window_ok cp4 \<and> times_ok ce cp4" "smooth ce h0 \<longrightarrow> r = CopyMore"
    using after_window_ok [OF env win3, of "ce_clock ce (cp_times cp)" m h0] by auto
  have same: "cp_offset cp1 = cp_offset cp" "cp_remains cp1 = cp_remains cp" using cp1(2) by (simp_all add: same_copying_def)
  consider "\<not> ok" | "ok" "ce_read_state ce (cp_checks cp1) = read_state_code StateQuitting"
    | "ok" "ce_read_state ce (cp_checks cp1) \<noteq> read_state_code StateQuitting" "cp_remains cp1 - m = 0"
    | "ok" "ce_read_state ce (cp_checks cp1) \<noteq> read_state_code StateQuitting" "cp_remains cp1 - m \<noteq> 0" by blast
  then show ?thesis
  proof cases
    case 1
    with cp1 run show ?thesis by auto
  next
    case 2
    then have "\<not> smooth ce h0" by (auto simp: smooth_def)
    with 2 cp1 run show ?thesis by auto
  next
    case 3
    with inv same have "nat (cp_offset cp + m) = nat sz" by (auto simp: copy_inv_def)
    with 3 cp1 run show ?thesis by auto
  next
    case 4
    then have rem: "cp_remains cp \<noteq> 0" using m same by auto
    with 4 m same inv cp1 cp4 have "r = CopyMore \<Longrightarrow> copy_inv ce h0 sz cp4"
      by (auto simp: copy_inv_def)
    with 4 cp1 cp4 run m(4) [OF rem] same show ?thesis by auto
  qed
qed

section \<open>The loop\<close>

lemma copy_loop_inv:
  "copy_env_ok ce \<Longrightarrow> copy_inv ce h0 sz cp \<Longrightarrow> times_ok ce cp \<Longrightarrow>
   \<exists>cp' ok k. copy_loop ce cp = Some (cp', ok) \<and> k \<le> nat sz \<and> copied_prefix ce h0 k (cp_host cp') \<and>
     (ok \<longrightarrow> k = nat sz) \<and> (smooth ce h0 \<longrightarrow> ok)"
proof (induction "nat (cp_remains cp)" arbitrary: cp rule: less_induct)
  case less
  obtain cp1 r k where cp1: "copy_round ce cp = Some (cp1, r)" "k \<le> nat sz" "copied_prefix ce h0 k (cp_host cp1)"
      "r = CopyEnd \<longrightarrow> k = nat sz" "r = CopyMore \<longrightarrow> copy_inv ce h0 sz cp1 \<and> times_ok ce cp1 \<and> cp_remains cp1 < cp_remains cp"
      "smooth ce h0 \<longrightarrow> r \<noteq> CopyErr"
    using copy_round_ok [OF less.prems] by blast
  show ?case
  proof (cases r)
    case CopyMore
    then have "copy_inv ce h0 sz cp1" "times_ok ce cp1" "nat (cp_remains cp1) < nat (cp_remains cp)"
      using cp1(5) less.prems(2) by (auto simp: copy_inv_def)
    from less.hyps [OF this(3) less.prems(1) this(1,2)] cp1(1) CopyMore show ?thesis
      by (subst copy_loop.simps) simp
  qed (use cp1 in \<open>auto simp: copy_loop.simps [of ce cp]\<close>)
qed

text \<open>
  The loop ends without a fault; the target then starts with the first \<open>k\<close> bytes of the source and
  keeps what it had behind them; success means all, and nothing but a failure prevents it.
\<close>

lemma copy_loop_ok:
  assumes "copy_env_ok ce" "0 \<le> sz" "sz \<le> int (length (h_data h (ce_source ce)))"
  shows "\<exists>cp ok k. copy_loop ce (copy_start h sz tr (ce_begin_copy ce)) = Some (cp, ok) \<and> k \<le> nat sz \<and>
    copied_prefix ce h k (cp_host cp) \<and> (ok \<longrightarrow> k = nat sz) \<and> (smooth ce h \<longrightarrow> ok)"
proof (rule copy_loop_inv [OF assms(1)])
  show "copy_inv ce h sz (copy_start h sz tr (ce_begin_copy ce))" "times_ok ce (copy_start h sz tr (ce_begin_copy ce))"
    using assms copied_prefix_id
    by (auto simp: copy_inv_def copy_start_def window_ok_def times_ok_def copy_env_ok_def transfer_window_size_min_def)
qed

text \<open>
  When the clock still shows the time of the start after the first window, a copy of more than that
  window divides by zero.
\<close>

lemma copy_stopped_clock:
  assumes "copy_files_ok ce" "smooth ce h" "ce_clock ce 2 = ce_begin_copy ce" "transfer_window_size_min < sz"
    "sz \<le> int (length (h_data h (ce_source ce)))"
  shows "copy_loop ce (copy_start h sz tr (ce_begin_copy ce)) = Bug"
proof -
  let ?start = "copy_start h sz tr (ce_begin_copy ce)" and ?m = "transfer_window_size_min"
  let ?go = "?start\<lparr>cp_checks := 1, cp_times := 2\<rparr>"
  have inv: "copy_inv ce h sz ?go"
    using assms copied_prefix_id by (auto simp: copy_inv_def copy_start_def window_ok_def transfer_window_size_min_def)
  then obtain cp1 where cp1: "copy_window ce ?go ?m = Some (cp1, True)" "same_copying ?go cp1"
    using copy_window_ok [OF assms(1) inv, of ?m] assms(2,4)
    by (auto simp: copy_start_def transfer_window_size_min_def)
  have "copy_size ?go = ?m" using assms(4) by (simp add: copy_size_def copy_start_def)
  moreover have "cp_remains cp1 \<noteq> ?m" using cp1(2) assms(4) by (simp add: same_copying_def copy_start_def)
  moreover have "cp_times cp1 = 2" using cp1(2) by (simp add: same_copying_def copy_start_def)
  moreover have "cp_last cp1 = ce_begin_copy ce" using cp1(2) by (simp add: same_copying_def copy_start_def)
  moreover have "cp_checks ?start = 0" "cp_times ?start = 1" by (simp_all add: copy_start_def)
  ultimately have "copy_round ce ?start = Bug"
    using cp1(1) assms(2,3)
    by (simp add: copy_round_def check_state_def gettimeofday_def Let_def smooth_def after_window_def c_div_def
        numeral_2_eq_2)
  then show ?thesis by (subst copy_loop.simps) simp
qed

end
