(* ===== verification/Cache_Refine.thy ===== *)
theory Cache_Refine
  imports Cache_Path
begin

text \<open>
  The creation of the directories of the cache: on a host that refuses nothing, the directories on
  the way to a file are there afterwards, what existed is as before, and the file is empty.
\<close>

section \<open>Paths as lists of names\<close>

definition name_ok :: "string \<Rightarrow> bool" where
  "name_ok n \<longleftrightarrow> n \<noteq> [] \<and> CHR ''/'' \<notin> set n \<and> n \<noteq> ''.''"

fun joined :: "string list \<Rightarrow> string" where
  "joined [] = []"
| "joined [n] = n"
| "joined (n # ns) = n @ CHR ''/'' # joined ns"

lemma joined_snoc: "joined (ns @ [n]) = (if ns = [] then n else joined ns @ CHR ''/'' # n)"
  by (induction ns rule: joined.induct) auto

lemma strip_no_slash: "q = [] \<or> last q \<noteq> CHR ''/'' \<Longrightarrow> strip_slashes q = q"
  by (cases q rule: rev_cases) (auto simp: strip_slashes_def)

lemma joined_last: "name_ok n \<Longrightarrow> joined (ns @ [n]) \<noteq> [] \<and> last (joined (ns @ [n])) \<noteq> CHR ''/''"
  by (auto simp: joined_snoc name_ok_def last_ConsR dest: last_in_set)

lemma joined_hd: "list_all name_ok (n # ns) \<Longrightarrow> take 1 (joined (n # ns)) \<noteq> ''/''"
  by (cases ns; cases n) (auto simp: name_ok_def)

lemma dir_of_snoc: "CHR ''/'' \<notin> set n \<Longrightarrow> dir_of (d @ CHR ''/'' # n) = d"
proof -
  assume "CHR ''/'' \<notin> set n"
  then have "dropWhile (\<lambda>c. c \<noteq> CHR ''/'') (rev n @ CHR ''/'' # rev d) = CHR ''/'' # rev d"
    by (subst dropWhile_append2) auto
  then show ?thesis by (simp add: dir_of_def)
qed

lemma joined_ends: "list_all name_ok ns \<Longrightarrow> ns \<noteq> [] \<Longrightarrow> joined ns \<noteq> [] \<and> last (joined ns) \<noteq> CHR ''/'' \<and> joined ns \<noteq> ''.''"
  using joined_last [of "last ns" "butlast ns"]
  by (cases ns rule: rev_cases) (auto simp: joined_snoc name_ok_def append_eq_Cons_conv)

lemma dirname_joined:
  assumes "list_all name_ok (ns @ [n])"
  shows "posix_dirname (joined (ns @ [n])) = (if ns = [] then ''.'' else joined ns)"
proof -
  have n: "name_ok n" "list_all name_ok ns" using assms by simp_all
  have strip: "strip_slashes (joined (ns @ [n])) = joined (ns @ [n])"
    using joined_last [OF n(1)] by (intro strip_no_slash) blast
  show ?thesis
  proof (cases "ns = []")
    case True
    with n strip show ?thesis by (simp add: posix_dirname_def name_ok_def)
  next
    case False
    with joined_ends [OF n(2)] have "strip_slashes (joined ns) = joined ns" "joined ns \<noteq> []"
      by (auto intro: strip_no_slash)
    with n strip False dir_of_snoc [of n "joined ns"] show ?thesis
      by (simp add: posix_dirname_def joined_snoc name_ok_def)
  qed
qed

lemma basename_joined: "name_ok n \<Longrightarrow> path_basename (joined (ns @ [n])) = n"
  using basename_slash [of n "joined ns"] basename_loop_no_slash [of n n]
  by (auto simp: joined_snoc path_basename_def name_ok_def)

lemma at_path_snoc:
  assumes "list_all name_ok (ns @ [n])"
  shows "at_path (at_path p (if ns = [] then ''.'' else joined ns)) n = at_path p (joined (ns @ [n]))"
    and "dir_of (at_path p (joined (ns @ [n]))) = at_path p (if ns = [] then ''.'' else joined ns)"
proof -
  have n: "name_ok n" "list_all name_ok ns" using assms by simp_all
  have j: "joined (ns @ [n]) \<noteq> ''.''" using joined_ends [OF assms] by simp
  show "at_path (at_path p (if ns = [] then ''.'' else joined ns)) n = at_path p (joined (ns @ [n]))"
    using n j joined_ends [OF n(2)] by (auto simp: at_path_def name_ok_def joined_snoc)
  have "at_path p (joined (ns @ [n])) = at_path p (if ns = [] then ''.'' else joined ns) @ CHR ''/'' # n"
    using n j joined_ends [OF n(2)] by (auto simp: at_path_def name_ok_def joined_snoc)
  then show "dir_of (at_path p (joined (ns @ [n]))) = at_path p (if ns = [] then ''.'' else joined ns)"
    using dir_of_snoc n(1) by (simp add: name_ok_def)
qed

section \<open>Creating directories\<close>

text \<open>What stands on the way is a directory; what is created is the directories of the way.\<close>

definition way_clear :: "host \<Rightarrow> string \<Rightarrow> string list \<Rightarrow> bool" where
  "way_clear h pre ns \<longleftrightarrow> h_nodes h pre = Some HDir \<and>
     (\<forall>k. 0 < k \<longrightarrow> k \<le> length ns \<longrightarrow> h_nodes h (at_path pre (joined (take k ns))) \<in> {None, Some HDir})"

definition only_dirs_added :: "string \<Rightarrow> string list \<Rightarrow> host \<Rightarrow> host \<Rightarrow> bool" where
  "only_dirs_added pre ns h h' \<longleftrightarrow> (\<exists>N. h' = h\<lparr>h_nodes := N\<rparr> \<and> (\<forall>p. N p = h_nodes h p \<or>
     h_nodes h p = None \<and> N p = Some HDir \<and> (\<exists>k>0. k \<le> length ns \<and> p = at_path pre (joined (take k ns)))))"

lemma only_dirs_added_refl: "only_dirs_added pre ns h h"
  by (auto simp: only_dirs_added_def intro!: exI [of _ "h_nodes h"])

lemma only_dirs_added_mkdir:
  assumes add: "only_dirs_added pre ns h h1" and none: "h_nodes h1 p = None" and p: "p = at_path pre (joined (ns @ [n]))"
  shows "only_dirs_added pre (ns @ [n]) h (h1\<lparr>h_nodes := (h_nodes h1)(p \<mapsto> HDir)\<rparr>)"
proof -
  obtain N where N: "h1 = h\<lparr>h_nodes := N\<rparr>" "\<And>p. N p = h_nodes h p \<or>
     h_nodes h p = None \<and> N p = Some HDir \<and> (\<exists>k>0. k \<le> length ns \<and> p = at_path pre (joined (take k ns)))"
    using add by (auto simp: only_dirs_added_def)
  have "(N(p \<mapsto> HDir)) q = h_nodes h q \<or> h_nodes h q = None \<and> (N(p \<mapsto> HDir)) q = Some HDir \<and>
      (\<exists>k>0. k \<le> length (ns @ [n]) \<and> q = at_path pre (joined (take k (ns @ [n]))))" for q
  proof (cases "q = p")
    case True
    with none N(1) N(2) [of p] show ?thesis using p by (auto intro!: exI [of _ "Suc (length ns)"])
  next
    case False
    then show ?thesis using N(2) [of q] by (auto intro!: exI [of _ "k" for k])
  qed
  with N(1) show ?thesis unfolding only_dirs_added_def by (intro exI [of _ "N(p \<mapsto> HDir)"]) simp
qed

lemma willing_stat_dir: "willing h \<Longrightarrow> h_nodes h p = Some HDir \<Longrightarrow> host_stat h p = Some HDir"
  by (simp add: willing_def host_stat_def)

lemma willing_stat_none: "willing h \<Longrightarrow> h_nodes h p = None \<Longrightarrow> host_stat h p = None"
  by (simp add: willing_def host_stat_def)

lemma willing_open_dir: "willing h \<Longrightarrow> h_nodes h p = Some HDir \<Longrightarrow> host_open h p O_RDONLY 0 = Inr 0"
  by (simp add: willing_def host_open_def IS_WRITE_def O_RDONLY_def)

lemma at_path_joined_inj:
  assumes "list_all name_ok (ns @ [n])" "k \<le> length ns" "0 < k"
  shows "at_path pre (joined (take k ns)) \<noteq> at_path pre (joined (ns @ [n]))"
proof -
  have len: "length (joined xs) \<le> length (joined (xs @ ys))" for xs ys
    by (induction ys rule: rev_induct) (auto simp: joined_snoc simp flip: append_assoc)
  have ne: "ns \<noteq> []" "take k ns \<noteq> []" using assms(2,3) by auto
  have ok: "list_all name_ok (take k ns)" using assms(1) by (auto simp: list_all_iff dest: in_set_takeD)
  have "length (joined (take k ns)) < length (joined (ns @ [n]))"
    using len [of "take k ns" "drop k ns"] ne by (simp add: joined_snoc)
  then have "joined (take k ns) \<noteq> joined (ns @ [n])" by auto
  then show ?thesis
    using joined_ends [OF ok ne(2)] joined_ends [OF assms(1)] by (simp add: at_path_def)
qed

lemma createpath_dirs:
  "willing h \<Longrightarrow> way_clear h pre ns \<Longrightarrow> list_all name_ok ns \<Longrightarrow> ns \<noteq> [] \<Longrightarrow>
   \<exists>h'. mcachefs_createpath pre (joined ns) True h = Some (h', 0) \<and> only_dirs_added pre ns h h' \<and>
     h_nodes h' (at_path pre (joined ns)) = Some HDir"
proof (induction ns rule: rev_induct)
  case (snoc n ns)
  let ?p = "at_path pre (joined (ns @ [n]))" and ?par = "if ns = [] then ''.'' else joined ns"
  have ok: "name_ok n" "list_all name_ok ns" using snoc.prems by simp_all
  have start: "take 1 (joined (ns @ [n])) \<noteq> ''/''" "joined (ns @ [n]) \<noteq> []" "joined (ns @ [n]) \<noteq> ''/''"
    using joined_hd [of "hd (ns @ [n])" "tl (ns @ [n])"] snoc.prems(3) joined_ends [OF snoc.prems(3)]
    by (cases ns; force)+
  note names = dirname_joined [OF snoc.prems(3)] basename_joined [OF ok(1), of ns] at_path_snoc [OF snoc.prems(3), of pre]
  have pre: "host_open h pre O_RDONLY 0 = Inr 0"
    using willing_open_dir snoc.prems(1,2) by (simp add: way_clear_def)
  have at: "h_nodes h ?p \<in> {None, Some HDir}" using snoc.prems(2) unfolding way_clear_def
    by (metis length_append_singleton le_refl take_all zero_less_Suc)
  show ?case
  proof (cases "h_nodes h ?p")
    case (Some x)
    then have "host_stat h ?p \<noteq> None" "h_nodes h ?p = Some HDir" using at willing_stat_dir snoc.prems(1) by auto
    then show ?thesis using start pre by (subst mcachefs_createpath.simps) (auto simp: only_dirs_added_refl Let_def)
  next
    case None
    have par: "\<exists>h1. mcachefs_createpath pre ?par True h = Some (h1, 0) \<and> only_dirs_added pre ns h h1 \<and>
        h_nodes h1 (at_path pre ?par) = Some HDir"
    proof (cases "ns = []")
      case True
      have "host_stat h pre \<noteq> None" using willing_stat_dir snoc.prems(1,2) by (auto simp: way_clear_def)
      then have "mcachefs_createpath pre ''.'' True h = Some (h, 0)"
        using pre by (subst mcachefs_createpath.simps) (simp add: at_path_def)
      with True snoc.prems(2) show ?thesis by (auto simp: only_dirs_added_refl way_clear_def at_path_def)
    next
      case False
      have "way_clear h pre ns" unfolding way_clear_def
      proof (intro conjI allI impI)
        show "h_nodes h pre = Some HDir" using snoc.prems(2) by (simp add: way_clear_def)
        fix k assume "0 < k" "k \<le> length ns"
        then show "h_nodes h (at_path pre (joined (take k ns))) \<in> {None, Some HDir}"
          using snoc.prems(2) [unfolded way_clear_def, THEN conjunct2, rule_format, of k] by simp
      qed
      with snoc.IH snoc.prems(1) ok(2) False show ?thesis by simp
    qed
    then obtain h1 where h1: "mcachefs_createpath pre ?par True h = Some (h1, 0)" "only_dirs_added pre ns h h1"
        "h_nodes h1 (at_path pre ?par) = Some HDir" by blast
    have will: "willing h1" using h1(2) snoc.prems(1) by (auto simp: only_dirs_added_def willing_def)
    have none: "h_nodes h1 ?p = None"
    proof -
      obtain N where "h1 = h\<lparr>h_nodes := N\<rparr>" "N ?p = h_nodes h ?p \<or>
          (\<exists>k>0. k \<le> length ns \<and> ?p = at_path pre (joined (take k ns)))"
        using h1(2) unfolding only_dirs_added_def by blast
      with None at_path_joined_inj [OF snoc.prems(3)] show ?thesis by (metis host.select_convs(1) host.update_convs(1) host.surjective)
    qed
    have mk: "host_mkdir h1 ?p = (h1\<lparr>h_nodes := (h_nodes h1)(?p \<mapsto> HDir)\<rparr>, 0)"
      using will none h1(3) names(4) by (simp add: host_mkdir_def host_make_def refused_def willing_def)
    have "mcachefs_createpath pre (joined (ns @ [n])) True h = Some (h1\<lparr>h_nodes := (h_nodes h1)(?p \<mapsto> HDir)\<rparr>, 0)"
      using start pre willing_stat_none [OF snoc.prems(1) None] names(1-3) h1(1) willing_open_dir [OF will h1(3)] mk
      by (subst mcachefs_createpath.simps) (simp add: Let_def)
    moreover have "only_dirs_added pre (ns @ [n]) h (h1\<lparr>h_nodes := (h_nodes h1)(?p \<mapsto> HDir)\<rparr>)"
      by (rule only_dirs_added_mkdir [OF h1(2) none refl])
    ultimately show ?thesis by auto
  qed
qed simp

section \<open>Creating a file\<close>

text \<open>A host with more names; the new one is an empty file.\<close>

definition file_created :: "host \<Rightarrow> nat \<Rightarrow> string \<Rightarrow> host \<Rightarrow> bool" where
  "file_created h i p h' \<longleftrightarrow> (\<exists>N. h' = h\<lparr>h_nodes := N, h_data := (h_data h)(i := []), h_mtime := (h_mtime h)(i := h_now h)\<rparr> \<and>
     N p = Some (HReg i) \<and> (\<forall>q x. h_nodes h q = Some x \<longrightarrow> N q = Some x))"

lemma createpath_parent:
  assumes "willing h" "way_clear h pre ns" "list_all name_ok (ns @ [n])"
  shows "\<exists>h'. mcachefs_createpath pre (CHR ''/'' # joined (ns @ [n])) False h = Some (h', 0) \<and>
    only_dirs_added pre ns h h' \<and> h_nodes h' (at_path pre (if ns = [] then ''.'' else joined ns)) = Some HDir"
proof -
  let ?par = "if ns = [] then ''.'' else joined ns"
  have ok: "list_all name_ok ns" using assms(3) by simp
  have ne: "joined (ns @ [n]) \<noteq> []" using joined_ends [OF assms(3)] by simp
  have pre: "host_open h pre O_RDONLY 0 = Inr 0" using willing_open_dir assms(1,2) by (simp add: way_clear_def)
  have par: "take 1 ?par \<noteq> ''/''" "?par \<noteq> []" "?par \<noteq> ''/''"
    using joined_hd [of "hd ns" "tl ns"] joined_ends [OF ok] ok by (cases ns; force)+
  have "mcachefs_createpath pre (CHR ''/'' # joined (ns @ [n])) False h = mcachefs_createpath pre ?par True h"
    using par ne dirname_joined [OF assms(3)]
    by (subst (1 2) mcachefs_createpath.simps) (simp add: Let_def)
  moreover have "\<exists>h'. mcachefs_createpath pre ?par True h = Some (h', 0) \<and> only_dirs_added pre ns h h' \<and>
      h_nodes h' (at_path pre ?par) = Some HDir"
  proof (cases "ns = []")
    case True
    have "host_stat h pre \<noteq> None" using willing_stat_dir assms(1,2) by (auto simp: way_clear_def)
    then have "mcachefs_createpath pre ''.'' True h = Some (h, 0)"
      using pre by (subst mcachefs_createpath.simps) (simp add: at_path_def)
    with True assms(2) show ?thesis by (auto simp: only_dirs_added_refl way_clear_def at_path_def)
  next
    case False
    with createpath_dirs [OF assms(1,2) ok False] show ?thesis by simp
  qed
  ultimately show ?thesis by simp
qed

lemma createfile_ok:
  assumes will: "willing h" and way: "way_clear h pre ns" and ok: "list_all name_ok (ns @ [n])"
    and c: "cfg_cache c = Some pre" and none: "h_nodes h (pre @ CHR ''/'' # joined (ns @ [n])) = None"
  shows "\<exists>h'. mcachefs_createfile_cache c i (CHR ''/'' # joined (ns @ [n])) h = Some (h', 0) \<and>
    file_created h i (pre @ CHR ''/'' # joined (ns @ [n])) h'"
proof -
  let ?p = "pre @ CHR ''/'' # joined (ns @ [n])"
  have p: "?p = at_path pre (joined (ns @ [n]))" using joined_ends [OF ok] by (simp add: at_path_def)
  obtain h1 where h1: "mcachefs_createpath pre (CHR ''/'' # joined (ns @ [n])) False h = Some (h1, 0)"
      "only_dirs_added pre ns h h1" "h_nodes h1 (at_path pre (if ns = [] then ''.'' else joined ns)) = Some HDir"
    using createpath_parent [OF will way ok] by blast
  obtain N where N: "h1 = h\<lparr>h_nodes := N\<rparr>" "\<And>q. N q = h_nodes h q \<or>
     h_nodes h q = None \<and> N q = Some HDir \<and> (\<exists>k>0. k \<le> length ns \<and> q = at_path pre (joined (take k ns)))"
    using h1(2) by (auto simp: only_dirs_added_def)
  have none1: "N ?p = None" using N(2) [of ?p] none at_path_joined_inj [OF ok, of _ pre] unfolding p by metis
  have dir: "N (dir_of ?p) = Some HDir" using h1(3) at_path_snoc(2) [OF ok, of pre] p N(1) by simp
  let ?h = "h\<lparr>h_nodes := N(?p \<mapsto> HReg i), h_data := (h_data h)(i := []), h_mtime := (h_mtime h)(i := h_now h)\<rparr>"
  have lst: "host_lstat h1 ?p = None" using none1 N(1) by (simp add: host_lstat_def)
  have mk: "host_mknod h1 i ?p = (?h, 0)"
    using none1 dir will N(1) by (simp add: host_mknod_def host_make_def refused_def willing_def)
  have "mcachefs_createfile_cache c i (CHR ''/'' # joined (ns @ [n])) h = Some (?h, 0)"
    using c h1(1) lst mk
    by (simp add: mcachefs_createfile_cache_def mcachefs_createpath_cache_def mcachefs_makepath_cache_def makepath_append)
  moreover have "(N(?p \<mapsto> HReg i)) q = Some x" if "h_nodes h q = Some x" for q x
    using that N(2) [of q] none by auto
  ultimately show ?thesis unfolding file_created_def by auto
qed

end
