(* ===== verification/Transfer_Run.thy ===== *)
theory Transfer_Run
  imports Transfer_Ops Copy_Refine File_Refine Cache_Refine
begin

text \<open>
  Symbolic execution of a transfer: the world is written as what one file, the descriptors and the
  host are, and each operation on that file is an equation between such worlds.
\<close>

section \<open>Worlds\<close>

text \<open>\<open>w\<close> with \<open>m\<close> as the file \<open>f\<close>, and with these descriptors, inodes and host.\<close>

definition set_world :: "tworld \<Rightarrow> fh \<Rightarrow> mfile \<Rightarrow> int list \<Rightarrow> (int \<Rightarrow> nat) \<Rightarrow> host \<Rightarrow> tworld" where
  "set_world w f m fds ino h = w\<lparr>tw_file := (tw_file w)\<lparr>fw_ms := (tw_ms w)\<lparr>files := (files (tw_ms w))(f \<mapsto> m)\<rparr>,
     fw_fds := fds, fw_ino := ino, fw_host := h\<rparr>\<rparr>"

named_theorems world_simps \<open>operations on a world written with \<open>set_world\<close>\<close>

lemma set_world_id:
  "files (tw_ms w) f = Some m \<Longrightarrow> set_world w f m (fw_fds (tw_file w)) (fw_ino (tw_file w)) (tw_host w) = w"
  by (simp add: set_world_def fun_upd_idem)

lemma set_world_sel [world_simps]:
  "tw_queue (set_world w f m fds ino h) = tw_queue w" "tw_journal (set_world w f m fds ino h) = tw_journal w"
  "tw_host (set_world w f m fds ino h) = h" "fw_fds (tw_file (set_world w f m fds ino h)) = fds"
  "fw_ino (tw_file (set_world w f m fds ino h)) = ino"
  "file_env e (set_world w f m fds ino h) = file_env e w"
  "files (tw_ms (set_world w f m fds ino h)) f = Some m"
  "entry (tw_ms (set_world w f m fds ino h)) = entry (tw_ms w)"
  by (simp_all add: set_world_def file_env_def)

lemma set_world_journal: "(set_world w f m fds ino h)\<lparr>tw_journal := j\<rparr> = set_world (w\<lparr>tw_journal := j\<rparr>) f m fds ino h"
  by (simp add: set_world_def)

lemma ldf_set_world [world_simps]:
  "f \<noteq> 0 \<Longrightarrow> ldf (tw_ms (set_world w f m fds ino h)) f g = Some (g m)"
  by (simp add: set_world_def)

lemma ld_set_world [world_simps]: "ld (tw_ms (set_world w f m fds ino h)) i g = ld (tw_ms w) i g"
  by (simp add: set_world_def ld_def valid_def)

lemma valid_set_world [world_simps]: "valid (tw_ms (set_world w f m fds ino h)) i = valid (tw_ms w) i"
  by (simp add: set_world_def valid_def)

lemma do_get_set_world [world_simps]: "do_get (tw_ms (set_world w f m fds ino h)) i = do_get (tw_ms w) i"
  by (simp add: set_world_def mcachefs_metadata_do_get_def)

lemma upd_mfile_set_world [world_simps]:
  "f \<noteq> 0 \<Longrightarrow> upd_mfile (set_world w f m fds ino h) f g = Some (set_world w f (g m) fds ino h)"
  by (simp add: upd_mfile_def set_world_def with_ms_def)

lemma with_host_set_world [world_simps]:
  "with_host (set_world w f m fds ino h) h' = set_world w f m fds ino h'"
  by (simp add: with_host_def set_world_def)

lemma file_path_set_world [world_simps]:
  "f \<noteq> 0 \<Longrightarrow> file_path (set_world w f m fds ino h) f = mf_path m"
  by (cases "mf_path m") (simp_all add: file_path_def world_simps)

lemma upd_source_set_world [world_simps]:
  "f \<noteq> 0 \<Longrightarrow> in_file_only (set_world w f m fds ino h) (upd_source (tw_file (set_world w f m fds ino h)) f r g) =
     Some (set_world w f (with_source r g m) fds ino h)"
  by (simp add: upd_source_def set_world_def in_file_only_def)

lemma close_set_world [world_simps]:
  "f \<noteq> 0 \<Longrightarrow> in_file_only (set_world w f m fds ino h)
       (upd_source (os_close (tw_file (set_world w f m fds ino h)) fd) f r g) =
     Some (set_world w f (with_source r g m) (removeAll fd fds) ino h)"
  by (simp add: upd_source_def set_world_def os_close_def in_file_only_def)

text \<open>A source that has no descriptor gets the one that \<open>open\<close> returns.\<close>

lemma with_source_twice [simp]: "with_source r g (with_source r k m) = with_source r (\<lambda>s. g (k s)) m"
  by (simp add: with_source_def)

lemma upd_source_eq:
  "f \<noteq> 0 \<Longrightarrow> files (fw_ms v) f = Some m \<Longrightarrow> upd_source v f r g =
     Some (v\<lparr>fw_ms := (fw_ms v)\<lparr>files := (files (fw_ms v))(f \<mapsto> with_source r g m)\<rparr>\<rparr>)"
  by (simp add: upd_source_def)

definition opened :: "int \<Rightarrow> 32 word \<Rightarrow> file_source \<Rightarrow> file_source" where
  "opened fd flags s = s\<lparr>src_fd := fd, src_use := src_use s + 1, src_wr := (if IS_WRITE flags then 1 else 0)\<rparr>"

lemma do_open_closed:
  assumes f: "f \<noteq> 0" "files (fw_ms v) f = Some m" and closed: "src_fd (source_of_file r m) = -1"
    and creat: "and flags O_CREAT = 0" and path: "mf_path m = Some path"
    and op: "host_open (fw_host v) (mcachefs_makepath path pre) flags 0 = Inr i"
    and fd: "fd = lowest_free (fw_fds v)"
  shows "mcachefs_file_do_open e v f flags 0 r (Some pre) =
    Some (v\<lparr>fw_ms := (fw_ms v)\<lparr>files := (files (fw_ms v))(f \<mapsto> with_source r (opened fd flags) m)\<rparr>,
      fw_fds := fd # fw_fds v, fw_ino := (fw_ino v)(fd := i)\<rparr>, fd)"
proof -
  let ?v = "v\<lparr>fw_fds := fd # fw_fds v, fw_ino := (fw_ino v)(fd := i)\<rparr>"
  let ?u = "?v\<lparr>fw_ms := (fw_ms v)\<lparr>files := (files (fw_ms v))(f \<mapsto> with_source r (\<lambda>s. s\<lparr>src_fd := fd\<rparr>) m)\<rparr>\<rparr>"
  have "fd \<noteq> -1" using lowest_free_fresh(2) [of "fw_fds v"] by (simp add: fd)
  moreover have "mcachefs_file_may_reuse_source e v f r a = Some (v, False)" for a
    using f closed by (simp add: mcachefs_file_may_reuse_source_def)
  moreover have "os_open v (mcachefs_makepath path pre) flags 0 = (?v, fd, 0)"
    using op by (simp add: os_open_def Let_def fd)
  moreover have "upd_source ?v f r (\<lambda>s. s\<lparr>src_fd := fd\<rparr>) = Some ?u" using f by (simp add: upd_source_eq)
  moreover have "upd_source ?u f r g = Some (?u\<lparr>fw_ms := (fw_ms ?u)\<lparr>files := (files (fw_ms ?u))(f \<mapsto>
      with_source r g (with_source r (\<lambda>s. s\<lparr>src_fd := fd\<rparr>) m))\<rparr>\<rparr>)" for g
    by (rule upd_source_eq) (use f in simp_all)
  ultimately show ?thesis
    using f path creat by (simp add: mcachefs_file_do_open_def opened_def [abs_def])
qed

lemma getfd_set_world:
  assumes f: "f \<noteq> 0" and r: "r < 2" and closed: "src_fd (source_of_file r m) = -1"
    and creat: "and flags O_CREAT = 0" and path: "mf_path m = Some path"
    and prefix: "(if r = 0 then cfg_cache (fe_config e) else cfg_source (fe_config e)) = Some pre"
    and state: "if r = 0 then mf_cache_status m \<noteq> BackingNone else cfg_read_state (fe_config e) \<noteq> read_state_code StateHandsup"
    and op: "host_open h (mcachefs_makepath path pre) flags 0 = Inr i" and fd: "fd = lowest_free fds"
  shows "in_file (set_world w f m fds ino h)
      (mcachefs_file_getfd e (tw_file (set_world w f m fds ino h)) f r flags) =
    Some (set_world w f (with_source r (opened fd flags) m) (fd # fds) (ino(fd := i)) h, fd)"
proof -
  let ?v = "tw_file (set_world w f m fds ino h)"
  have pos: "\<not> fd < 0" using lowest_free_fresh(2) [of fds] by (simp add: fd)
  have v: "files (fw_ms ?v) f = Some m" "fw_host ?v = h" "fw_fds ?v = fds" "fw_ino ?v = ino" by (simp_all add: set_world_def)
  have op: "mcachefs_file_do_open e ?v f flags 0 r (Some pre) =
      Some (?v\<lparr>fw_ms := (fw_ms ?v)\<lparr>files := (files (fw_ms ?v))(f \<mapsto> with_source r (opened fd flags) m)\<rparr>,
        fw_fds := fd # fds, fw_ino := ino(fd := i)\<rparr>, fd)"
    using do_open_closed [OF f v(1) closed creat path, of pre i fd e] op fd v by simp
  have ldf: "ldf (fw_ms ?v) f (\<lambda>m. m) = Some m" using f by (simp add: set_world_def)
  have "mcachefs_file_getfd e ?v f r flags = mcachefs_file_do_open e ?v f flags 0 r (Some pre)"
    using r prefix state pos creat op ldf
    by (cases "r = 0") (auto simp: mcachefs_file_getfd_def mcachefs_file_getfd_mode_def less_2_cases_iff)
  then show ?thesis unfolding op by (simp add: in_file_def set_world_def)
qed

lemma putfd_set_world [world_simps]:
  "f \<noteq> 0 \<Longrightarrow> 0 \<le> r \<Longrightarrow> r \<le> 1 \<Longrightarrow>
   in_file_only (set_world w f m fds ino h) (mcachefs_file_putfd (tw_file (set_world w f m fds ino h)) f r) =
     Some (set_world w f (with_source (nat r) (\<lambda>s. if src_use s = 0 then s else s\<lparr>src_use := src_use s - 1\<rparr>) m) fds ino h)"
  by (simp add: mcachefs_file_putfd_def mcachefs_file_source_putfd_def upd_source_set_world)

lemma release_set_world [world_simps]:
  "f \<noteq> 0 \<Longrightarrow> 1 < mf_use m \<Longrightarrow>
   in_file_only (set_world w f m fds ino h) (mcachefs_file_release (tw_file (set_world w f m fds ino h)) f) =
     Some (set_world w f (m\<lparr>mf_use := mf_use m - 1\<rparr>) fds ino h)"
  by (simp add: mcachefs_file_release_def set_world_def in_file_only_def Let_def)

lemma get_metadata_set_world [world_simps]:
  "f \<noteq> 0 \<Longrightarrow> mf_metadata_id m \<noteq> 0 \<Longrightarrow> valid (tw_ms w) (mf_metadata_id m) \<Longrightarrow>
   in_file (set_world w f m fds ino h) (mcachefs_file_get_metadata e (tw_file (set_world w f m fds ino h)) f) =
     Some (set_world w f m fds ino h, mf_metadata_id m)"
  by (simp add: mcachefs_file_get_metadata_def set_world_def in_file_def mcachefs_metadata_do_get_def valid_def)

section \<open>A copy\<close>

text \<open>Nothing is in the way of copies: the host, the memory and the program go along, the clock advances.\<close>

definition undisturbed :: "tenv \<Rightarrow> host \<Rightarrow> bool" where
  "undisturbed e h \<longleftrightarrow> willing h \<and> strict_mono (te_clock e) \<and>
     (\<forall>n. te_read_state e n \<noteq> read_state_code StateQuitting) \<and> (\<forall>n. te_realloc e n)"

text \<open>Both sources of the file are closed and unused.\<close>

definition sources_closed :: "mfile \<Rightarrow> bool" where
  "sources_closed m \<longleftrightarrow> src_fd (mf_backing m) = -1 \<and> src_use (mf_backing m) = 0 \<and>
     src_fd (mf_real m) = -1 \<and> src_use (mf_real m) = 0"

text \<open>What a transfer leaves of the structure.\<close>

definition file_kept :: "mfile \<Rightarrow> mfile \<Rightarrow> bool" where
  "file_kept m m' \<longleftrightarrow> mf_use m' = mf_use m \<and> mf_type m' = mf_type m \<and> mf_path m' = mf_path m \<and>
     mf_metadata_id m' = mf_metadata_id m \<and> mf_dirty m' = mf_dirty m \<and> links_of m' = links_of m"

lemma willing_open_file: "willing h \<Longrightarrow> h_nodes h p = Some (HReg i) \<Longrightarrow> host_open h p flags mode = Inr i"
  by (simp add: willing_def host_open_def)

lemma transfer_done_set_world:
  assumes "f \<noteq> 0" "src_use (mf_real m) = 0"
  shows "transfer_done (set_world w f m fds ino h) f tobacking =
    Some (set_world w f (with_source MCACHEFS_FILE_SOURCE_REAL (\<lambda>s. s\<lparr>src_fd := -1\<rparr>)
      (if tobacking then m\<lparr>mf_cache_status := BackingDone\<rparr> else m)) (removeAll (src_fd (mf_real m)) fds) ino h)"
  using assms by (simp add: transfer_done_def world_simps)

lemma transfer_between_set_world:
  fixes fds :: "int list" and h :: host
  assumes f: "f \<noteq> 0" and use: "src_use (mf_real m) \<le> 1"
    and cp: "copy_loop (transfer_copy_env e (set_world w f m fds ino h) source_fd target_fd)
        (copy_start h (min (tr_total_size tr) (int (length (h_data h (ino source_fd))))) tr (te_clock e 0)) = Some (cp, True)"
  shows "\<exists>m' fds'. transfer_between e (set_world w f m fds ino h) f tobacking tr source_fd target_fd =
      Some (set_world w f m' fds' ino (cp_host cp), 0) \<and> file_kept m m' \<and> src_fd (mf_real m') = -1 \<and>
    mf_cache_status m' = (if tobacking then BackingDone else mf_cache_status m)"
proof -
  let ?dec = "\<lambda>s. if src_use s = 0 then s else s\<lparr>src_use := src_use s - 1\<rparr>"
  define m1 where "m1 = with_source 0 ?dec (with_source 1 ?dec (m\<lparr>mf_transfer := cp_transfer cp\<rparr>))"
  let ?m2 = "with_source 1 (\<lambda>s. s\<lparr>src_fd := -1\<rparr>) (if tobacking then m1\<lparr>mf_cache_status := BackingDone\<rparr> else m1)"
  have use1: "src_use (mf_real m1) = 0" using use by (simp add: m1_def with_source_def)
  have put: "in_file_only (set_world w f (m\<lparr>mf_transfer := cp_transfer cp\<rparr>) fds ino (cp_host cp))
        (mcachefs_file_putfd (tw_file (set_world w f (m\<lparr>mf_transfer := cp_transfer cp\<rparr>) fds ino (cp_host cp))) f 1) =
      Some (set_world w f (with_source 1 ?dec (m\<lparr>mf_transfer := cp_transfer cp\<rparr>)) fds ino (cp_host cp))"
    "in_file_only (set_world w f (with_source 1 ?dec (m\<lparr>mf_transfer := cp_transfer cp\<rparr>)) fds ino (cp_host cp))
        (mcachefs_file_putfd (tw_file (set_world w f (with_source 1 ?dec (m\<lparr>mf_transfer := cp_transfer cp\<rparr>)) fds ino (cp_host cp))) f 0) =
      Some (set_world w f m1 fds ino (cp_host cp))"
    using putfd_set_world [OF f, of 1] putfd_set_world [OF f, of 0] by (simp_all add: m1_def)
  have "transfer_between e (set_world w f m fds ino h) f tobacking tr source_fd target_fd =
      Some (set_world w f ?m2 (removeAll (src_fd (mf_real m1)) fds) ino (cp_host cp), 0)"
    using cp put transfer_done_set_world [OF f use1] upd_mfile_set_world [OF f]
    by (simp add: transfer_between_def with_host_set_world set_world_sel transfer_copy_env_def Let_def)
  moreover have "file_kept m ?m2 \<and> src_fd (mf_real ?m2) = -1 \<and>
      mf_cache_status ?m2 = (if tobacking then BackingDone else mf_cache_status m)"
    by (simp add: file_kept_def with_source_def m1_def links_of_def)
  ultimately show ?thesis by blast
qed

lemma transfer_file_ok:
  assumes f: "f \<noteq> 0" and m: "sources_closed m" "mf_path m = Some path" "mf_cache_status m \<noteq> BackingNone"
    and conf: "cfg_cache (te_config e) = Some pre" "cfg_source (te_config e) = Some src"
      "cfg_read_state (te_config e) \<noteq> read_state_code StateHandsup"
    and quiet: "undisturbed e h"
    and nodes: "h_nodes h (if tobacking then src @ path else pre @ path) = Some (HReg a)"
      "h_nodes h (if tobacking then pre @ path else src @ path) = Some (HReg b)" "a \<noteq> 0" "b \<noteq> 0" "a \<noteq> b"
    and sz: "0 \<le> tr_total_size (mf_transfer m)"
  shows "\<exists>m' fds' ino' h'. mcachefs_transfer_file e (set_world w f m fds ino h) f tobacking =
      Some (set_world w f m' fds' ino' h', 0) \<and> file_kept m m' \<and> src_fd (mf_real m') = -1 \<and>
    mf_cache_status m' = (if tobacking then BackingDone else mf_cache_status m) \<and>
    h_nodes h' = h_nodes h \<and> h_refuse h' = h_refuse h \<and>
    (\<forall>i. i \<noteq> b \<longrightarrow> h_data h' i = h_data h i) \<and>
    h_data h' b = write_at (h_data h b) 0 (take (nat (tr_total_size (mf_transfer m))) (h_data h a))"
proof -
  define s t :: nat where "s = (if tobacking then 1 else 0)" and "t = (if tobacking then 0 else 1)"
  let ?e = "file_env e w" and ?sz = "tr_total_size (mf_transfer m)"
  define fd1 where "fd1 = lowest_free fds"
  define fd2 where "fd2 = lowest_free (fd1 # fds)"
  have fd: "\<not> fd1 < 0" "\<not> fd2 < 0" "fd1 \<noteq> fd2"
    using lowest_free_fresh [of fds] lowest_free_fresh [of "fd1 # fds"] by (auto simp: fd1_def fd2_def)
  have conf': "fe_config ?e = te_config e" by (simp add: file_env_def)
  let ?m1 = "with_source s (opened fd1 O_RDONLY) m"
  let ?m2 = "with_source t (opened fd2 O_RDWR) ?m1"
  let ?w1 = "set_world w f ?m1 (fd1 # fds) (ino(fd1 := a)) h"
  let ?w2 = "set_world w f ?m2 (fd2 # fd1 # fds) (ino(fd1 := a, fd2 := b)) h"
  have open1: "in_file (set_world w f m fds ino h)
      (mcachefs_file_getfd ?e (tw_file (set_world w f m fds ino h)) f s O_RDONLY) = Some (?w1, fd1)"
    by (rule getfd_set_world [where path = path and pre = "if tobacking then src else pre"])
      (use f m conf conf' nodes quiet willing_open_file in
        \<open>auto simp: s_def fd1_def source_of_file_def sources_closed_def O_RDONLY_def O_CREAT_def makepath_append undisturbed_def\<close>)
  have open2: "in_file ?w1 (mcachefs_file_getfd ?e (tw_file ?w1) f t O_RDWR) = Some (?w2, fd2)"
    by (rule getfd_set_world [where path = path and pre = "if tobacking then pre else src"])
      (use f m conf conf' nodes quiet willing_open_file in
        \<open>auto simp: s_def t_def fd2_def source_of_file_def sources_closed_def with_source_def O_RDWR_def O_CREAT_def
          makepath_append undisturbed_def\<close>)
  let ?ce = "transfer_copy_env e ?w2 fd1 fd2" and ?n = "min ?sz (int (length (h_data h a)))"
  have ce: "ce_source ?ce = a" "ce_target ?ce = b" "copy_env_ok ?ce" "smooth ?ce h" "ce_begin_copy ?ce = te_clock e 0"
    using fd(3) nodes(3-5) quiet
    by (auto simp: transfer_copy_env_def set_world_sel copy_env_ok_def copy_files_ok_def undisturbed_def smooth_def willing_def)
  obtain cp where cp: "copy_loop ?ce (copy_start h ?n (mf_transfer m) (te_clock e 0)) = Some (cp, True)"
      "copied_prefix ?ce h (nat ?n) (cp_host cp)"
    using copy_loop_ok [OF ce(3), of ?n h "mf_transfer m"] ce sz by auto
  have "src_use (mf_real ?m2) \<le> 1"
    using m(1) by (simp add: with_source_def s_def t_def opened_def sources_closed_def)
  moreover have "(ino(fd1 := a, fd2 := b)) fd1 = a" using fd(3) by simp
  ultimately obtain m' fds' where m': "transfer_between e ?w2 f tobacking (mf_transfer m) fd1 fd2 =
        Some (set_world w f m' fds' (ino(fd1 := a, fd2 := b)) (cp_host cp), 0)" "file_kept ?m2 m'" "src_fd (mf_real m') = -1"
      "mf_cache_status m' = (if tobacking then BackingDone else mf_cache_status ?m2)"
    using transfer_between_set_world [OF f, of ?m2 e w "fd2 # fd1 # fds" "ino(fd1 := a, fd2 := b)" h fd1 fd2 "mf_transfer m" cp tobacking]
      cp(1) by auto
  have "ldf (tw_ms (set_world w f m fds ino h)) f mf_transfer = Some (mf_transfer m)" by (rule ldf_set_world [OF f])
  then have "mcachefs_transfer_file e (set_world w f m fds ino h) f tobacking =
      Some (set_world w f m' fds' (ino(fd1 := a, fd2 := b)) (cp_host cp), 0)"
    using fd(1,2) open1 open2 m'(1) unfolding mcachefs_transfer_file_def s_def t_def
    by (cases tobacking) (simp_all add: set_world_sel)
  moreover have "h_data (cp_host cp) b = write_at (h_data h b) 0 (take (nat ?sz) (h_data h a))"
  proof -
    have "take (nat ?n) (h_data h a) = take (nat ?sz) (h_data h a)" by (simp add: min_def)
    with cp(2) ce show ?thesis by (simp add: copied_prefix_def del: write_at_start)
  qed
  moreover have "file_kept m m'" "mf_cache_status ?m2 = mf_cache_status m"
    using m'(2) by (simp_all add: file_kept_def with_source_def links_of_def)
  moreover have "h_nodes (cp_host cp) = h_nodes h" "h_refuse (cp_host cp) = h_refuse h"
      "\<forall>i. i \<noteq> b \<longrightarrow> h_data (cp_host cp) i = h_data h i"
    using cp(2) ce(2) by (simp_all add: copied_prefix_def)
  ultimately show ?thesis using m'(3,4)
    by (intro exI [of _ m'] exI [of _ fds'] exI [of _ "ino(fd1 := a, fd2 := b)"] exI [of _ "cp_host cp"])
      (simp del: write_at_start)
qed

section \<open>Giving the file back\<close>

text \<open>
  A transfer can give the file back: somebody else uses it too, or it is a closed regular file on one
  of the slices, which then goes to the freed list.
\<close>

definition releasable :: "tworld \<Rightarrow> fh \<Rightarrow> mfile \<Rightarrow> bool" where
  "releasable w f m \<longleftrightarrow> 1 < mf_use m \<or> mf_use m = 1 \<and> mf_type m = FileType \<and>
     mf_path m \<noteq> Some mcachefs_file_path_deleted \<and>
     (mf_metadata_id m = 0 \<or> valid (tw_ms w) (mf_metadata_id m)) \<and>
     (\<exists>L i. slices_rep (tw_ms w) L \<and> i < timeslice_nb + 1 \<and> f \<in> set (L i))"

lemma cleanup_file_host: "mcachefs_file_cleanup_file w f = Some w' \<Longrightarrow> fw_host w' = fw_host w"
  by (auto simp: mcachefs_file_cleanup_file_def mcachefs_file_cleanup_file_source_def os_close_def upd_source_def
      elim!: bindE split: if_splits)

lemma release_host: "mcachefs_file_release w f = Some w' \<Longrightarrow> fw_host w' = fw_host w"
  by (auto simp: mcachefs_file_release_def Let_def elim!: bindE dest!: cleanup_file_host split: if_split_asm file_type.splits)

lemma release_kept:
  assumes f: "f \<noteq> 0" "files (tw_ms w) f = Some m" and r: "releasable w f m" and kept: "file_kept m m'"
  shows "\<exists>w'. in_file_only (set_world w f m' fds ino h) (mcachefs_file_release (tw_file (set_world w f m' fds ino h)) f) = Some w' \<and>
    tw_host w' = h \<and> tw_journal w' = tw_journal w \<and> tw_queue w' = tw_queue w"
proof -
  let ?w = "set_world w f m' fds ino h"
  have "\<exists>v. mcachefs_file_release (tw_file ?w) f = Some v"
  proof (cases "1 < mf_use m")
    case True
    then have "1 < mf_use m'" using kept by (simp add: file_kept_def)
    from release_set_world [OF f(1) this, of w fds ino h] show ?thesis by (auto simp: in_file_only_def)
  next
    case False
    with r obtain L i where L: "mf_use m = 1" "mf_type m = FileType" "mf_path m \<noteq> Some mcachefs_file_path_deleted"
      "mf_metadata_id m = 0 \<or> valid (tw_ms w) (mf_metadata_id m)"
      "slices_rep (tw_ms w) L" "i < timeslice_nb + 1" "f \<in> set (L i)" by (auto simp: releasable_def)
    have "same_links (tw_ms w) (tw_ms ?w)"
      using f(2) kept by (simp add: same_links_def set_world_def file_kept_def)
    then have "slices_rep (fw_ms (tw_file ?w)) L" using L(5) by (rule same_links_rep)
    moreover have "files (fw_ms (tw_file ?w)) f = Some m'" by (simp add: set_world_sel)
    moreover have "mf_metadata_id m' = 0 \<or> valid (fw_ms (tw_file ?w)) (mf_metadata_id m')"
      using L(4) kept by (simp add: file_kept_def valid_set_world)
    ultimately show ?thesis
      using release_last_ok [of "tw_file ?w" L i f m'] L kept by (fastforce simp: file_kept_def)
  qed
  then obtain v where v: "mcachefs_file_release (tw_file ?w) f = Some v" by blast
  then show ?thesis using release_host [OF v]
    by (auto simp: in_file_only_def set_world_def)
qed

section \<open>A backup\<close>

text \<open>
  The file \<open>f\<close> waits for its copy into the cache; it is the regular file \<open>a\<close> of the source, the cache
  has no such file, and somebody has it open.
\<close>

definition backup_ready :: "tenv \<Rightarrow> tworld \<Rightarrow> fh \<Rightarrow> mfile \<Rightarrow> string list \<Rightarrow> string \<Rightarrow> nat \<Rightarrow> bool" where
  "backup_ready e w f m ns n a \<longleftrightarrow> f \<noteq> 0 \<and> files (tw_ms w) f = Some m \<and> mf_type m = FileType \<and>
     mf_cache_status m = BackingAsked \<and> 1 < mf_use m \<and> sources_closed m \<and>
     mf_path m = Some (CHR ''/'' # joined (ns @ [n])) \<and> list_all name_ok (ns @ [n]) \<and>
     mf_metadata_id m \<noteq> 0 \<and> valid (tw_ms w) (mf_metadata_id m) \<and>
     cfg_read_state (te_config e) \<noteq> read_state_code StateHandsup \<and> undisturbed e (tw_host w) \<and>
     (\<exists>pre src. cfg_cache (te_config e) = Some pre \<and> cfg_source (te_config e) = Some src \<and>
       way_clear (tw_host w) pre ns \<and> h_nodes (tw_host w) (pre @ CHR ''/'' # joined (ns @ [n])) = None \<and>
       h_nodes (tw_host w) (src @ CHR ''/'' # joined (ns @ [n])) = Some (HReg a)) \<and>
     a \<noteq> 0 \<and> host_new (tw_host w) (te_ino e (tw_host w)) \<and> a \<noteq> te_ino e (tw_host w)"

lemma file_created_host:
  assumes "file_created h i p h'" "undisturbed e h"
  shows "undisturbed e h'" "h_nodes h' p = Some (HReg i)" "h_data h' = (h_data h)(i := [])"
    "\<And>q x. h_nodes h q = Some x \<Longrightarrow> h_nodes h' q = Some x"
  using assms by (auto simp: file_created_def undisturbed_def willing_def)

lemma backup_run_ok:
  assumes ready: "backup_ready e w f m ns n a" and sz: "0 \<le> st_size (md_st (entry (tw_ms w) (mf_metadata_id m)))"
  shows "\<exists>m' fds' ino' h'. transfer_run e w f TRANSFER_TYPE_BACKUP = Some (set_world w f m' fds' ino' h') \<and>
    mf_cache_status m' = BackingDone \<and> mf_use m' = mf_use m - 1 \<and>
    (\<exists>pre b. cfg_cache (te_config e) = Some pre \<and> h_nodes h' (pre @ CHR ''/'' # joined (ns @ [n])) = Some (HReg b) \<and>
      h_data h' b = take (nat (st_size (md_st (entry (tw_ms w) (mf_metadata_id m))))) (h_data (tw_host w) a)) \<and>
    h_data h' a = h_data (tw_host w) a"
proof -
  let ?path = "CHR ''/'' # joined (ns @ [n])" and ?h = "tw_host w" and ?b = "te_ino e (tw_host w)"
  let ?fds = "fw_fds (tw_file w)" and ?ino = "fw_ino (tw_file w)" and ?i = "mf_metadata_id m"
  let ?st = "md_st (entry (tw_ms w) ?i)"
  have f: "f \<noteq> 0" "files (tw_ms w) f = Some m" "mf_type m = FileType" "mf_cache_status m = BackingAsked" "1 < mf_use m"
      "sources_closed m" "mf_path m = Some ?path" "list_all name_ok (ns @ [n])" "?i \<noteq> 0" "valid (tw_ms w) ?i"
      "cfg_read_state (te_config e) \<noteq> read_state_code StateHandsup" "undisturbed e ?h" "a \<noteq> 0" "?b \<noteq> 0" "a \<noteq> ?b"
    using ready by (auto simp: backup_ready_def host_new_def)
  obtain pre src where c: "cfg_cache (te_config e) = Some pre" "cfg_source (te_config e) = Some src"
      "way_clear ?h pre ns" "h_nodes ?h (pre @ ?path) = None" "h_nodes ?h (src @ ?path) = Some (HReg a)"
    using ready by (auto simp: backup_ready_def)
  define m1 where "m1 = m\<lparr>mf_cache_status := BackingInProgress, mf_transfer := \<lparr>tr_tobacking = 1,
      tr_total_size = st_size ?st, tr_transfered_size = 0, tr_rate = 0, tr_total_time = 0\<rparr>\<rparr>"
  have m1: "sources_closed m1" "mf_path m1 = Some ?path" "mf_cache_status m1 \<noteq> BackingNone"
      "tr_total_size (mf_transfer m1) = st_size ?st" "mf_use m1 = mf_use m"
    using f by (simp_all add: m1_def sources_closed_def)
  have will: "willing ?h" using f(12) by (simp add: undisturbed_def)
  obtain h1 where h1: "mcachefs_createfile_cache (te_config e) ?b ?path ?h = Some (h1, 0)" "file_created ?h ?b (pre @ ?path) h1"
    using createfile_ok [OF will c(3) f(8) c(1,4)] by blast
  note created = file_created_host [OF h1(2) f(12)]
  obtain m2 fds' ino' h2 where run: "mcachefs_transfer_file e (set_world w f m1 ?fds ?ino h1) f True =
        Some (set_world w f m2 fds' ino' h2, 0)" and m2: "file_kept m1 m2" "mf_cache_status m2 = BackingDone"
      and h2: "h_nodes h2 = h_nodes h1" "\<forall>i. i \<noteq> ?b \<longrightarrow> h_data h2 i = h_data h1 i"
        "h_data h2 ?b = write_at (h_data h1 ?b) 0 (take (nat (st_size ?st)) (h_data h1 a))"
    using transfer_file_ok [OF f(1) m1(1-3) c(1,2) f(11) created(1), of True a ?b w ?fds ?ino]
      created(2,4) c(5) f(13-15) m1(4) sz by auto
  have backing_run: "mcachefs_transfer_do_backing e (set_world w f m1 ?fds ?ino ?h) f = Some (set_world w f m2 fds' ino' h2)"
    using f(1) m1(2) c(1,4) h1(1) run
    by (simp add: mcachefs_transfer_do_backing_def world_simps mcachefs_fileincache_def mcachefs_makepath_cache_def
        makepath_append host_lstat_def)
  have w: "w = set_world w f m ?fds ?ino ?h" using set_world_id [OF f(2)] by simp
  have "transfer_run e (set_world w f m ?fds ?ino ?h) f TRANSFER_TYPE_BACKUP =
      Some (set_world w f (m2\<lparr>mf_use := mf_use m2 - 1\<rparr>) fds' ino' h2)"
    using f(1,3-5,9-11) backing_run m2 m1(5)
    by (simp add: transfer_run_def mcachefs_transfer_do_transfer_def world_simps mcachefs_config_get_read_state_def
        m1_def ld_def file_kept_def)
  moreover have "h_data h2 ?b = take (nat (st_size ?st)) (h_data ?h a)" "h_data h2 a = h_data ?h a"
    using h2 created(3) f(15) by simp_all
  moreover have "h_nodes h2 (pre @ ?path) = Some (HReg ?b)" using h2(1) created(2) by simp
  ultimately show ?thesis using m2 m1(5) c(1) w
    by (intro exI [of _ "m2\<lparr>mf_use := mf_use m2 - 1\<rparr>"] exI [of _ fds'] exI [of _ ino'] exI [of _ h2])
      (simp add: file_kept_def)
qed

section \<open>A write-back\<close>

text \<open>The cache has the file as \<open>a\<close>, the source as \<open>b\<close>, which does not seem fresher with the same size.\<close>

definition writeback_ready :: "tenv \<Rightarrow> tworld \<Rightarrow> fh \<Rightarrow> mfile \<Rightarrow> string \<Rightarrow> nat \<Rightarrow> nat \<Rightarrow> bool" where
  "writeback_ready e w f m path a b \<longleftrightarrow> f \<noteq> 0 \<and> files (tw_ms w) f = Some m \<and> mf_type m = FileType \<and>
     mf_cache_status m = BackingDone \<and> releasable w f m \<and> sources_closed m \<and> mf_path m = Some path \<and>
     mf_metadata_id m \<noteq> 0 \<and> valid (tw_ms w) (mf_metadata_id m) \<and>
     cfg_read_state (te_config e) \<noteq> read_state_code StateHandsup \<and> undisturbed e (tw_host w) \<and>
     (\<exists>pre src. cfg_cache (te_config e) = Some pre \<and> cfg_source (te_config e) = Some src \<and>
       h_nodes (tw_host w) (pre @ path) = Some (HReg a) \<and> h_nodes (tw_host w) (src @ path) = Some (HReg b)) \<and>
     a \<noteq> 0 \<and> b \<noteq> 0 \<and> a \<noteq> b"

lemma writeback_run_ok:
  assumes ready: "writeback_ready e w f m path a b"
    and st: "st = md_st (entry (tw_ms w) (mf_metadata_id m))" "0 \<le> st_size st"
    and older: "h_mtime (tw_host w) b < st_mtime st \<or> int (length (h_data (tw_host w) b)) \<noteq> st_size st"
    and j: "mcachefs_notify_sync_end (tw_journal w) True = Some j"
  shows "\<exists>w'. transfer_run e w f TRANSFER_TYPE_WRITEBACK = Some w' \<and> tw_journal w' = j \<and> tw_queue w' = tw_queue w \<and>
    h_mtime (tw_host w') b = st_mtime st \<and> h_data (tw_host w') a = h_data (tw_host w) a \<and>
    h_data (tw_host w') b = take (nat (st_size st)) (h_data (tw_host w) a) @
      drop (length (take (nat (st_size st)) (h_data (tw_host w) a))) (h_data (tw_host w) b)"
proof -
  let ?h = "tw_host w" and ?fds = "fw_fds (tw_file w)" and ?ino = "fw_ino (tw_file w)" and ?i = "mf_metadata_id m"
  have f: "f \<noteq> 0" "files (tw_ms w) f = Some m" "mf_type m = FileType" "mf_cache_status m = BackingDone" "releasable w f m"
      "sources_closed m" "mf_path m = Some path" "?i \<noteq> 0" "valid (tw_ms w) ?i"
      "cfg_read_state (te_config e) \<noteq> read_state_code StateHandsup" "undisturbed e ?h" "a \<noteq> 0" "b \<noteq> 0" "a \<noteq> b"
    using ready by (auto simp: writeback_ready_def)
  obtain pre src where c: "cfg_cache (te_config e) = Some pre" "cfg_source (te_config e) = Some src"
      "h_nodes ?h (pre @ path) = Some (HReg a)" "h_nodes ?h (src @ path) = Some (HReg b)"
    using ready by (auto simp: writeback_ready_def)
  define m1 where "m1 = m\<lparr>mf_transfer := \<lparr>tr_tobacking = 0,
      tr_total_size = st_size st, tr_transfered_size = 0, tr_rate = 0, tr_total_time = 0\<rparr>\<rparr>"
  have m1: "sources_closed m1" "mf_path m1 = Some path" "mf_cache_status m1 \<noteq> BackingNone"
      "tr_total_size (mf_transfer m1) = st_size st" "mf_use m1 = mf_use m" "mf_cache_status m1 = BackingDone"
    using f by (simp_all add: m1_def sources_closed_def)
  obtain m2 fds' ino' h2 where run: "mcachefs_transfer_file e (set_world w f m1 ?fds ?ino ?h) f False =
        Some (set_world w f m2 fds' ino' h2, 0)" and m2: "file_kept m1 m2"
      and h2: "h_nodes h2 = h_nodes ?h" "h_refuse h2 = h_refuse ?h" "\<forall>i. i \<noteq> b \<longrightarrow> h_data h2 i = h_data ?h i"
        "h_data h2 b = write_at (h_data ?h b) 0 (take (nat (st_size st)) (h_data ?h a))"
    using transfer_file_ok [OF f(1) m1(1-3) c(1,2) f(10) f(11), of False a b w ?fds ?ino] c(3,4) f(12-14) m1(4) st(2)
    by auto
  let ?h3 = "h2\<lparr>h_mtime := (h_mtime h2)(b := st_mtime st)\<rparr>"
  have "host_utime h2 (src @ path) (st_atime st) (st_mtime st) = (?h3, 0)"
    using h2(1,2) c(4) f(11) by (simp add: host_utime_def refused_def undisturbed_def willing_def)
  moreover have "host_stat ?h (src @ path) = Some (HReg b)"
    using c(4) f(11) by (simp add: host_stat_def undisturbed_def willing_def)
  ultimately have wb: "mcachefs_transfer_do_writeback e (set_world w f m1 ?fds ?ino ?h) f (st_atime st, st_mtime st) =
      Some ((set_world w f m2 fds' ino' ?h3)\<lparr>tw_journal := j\<rparr>)"
    using f(1) m1(2,4) c(2) run older j
    by (auto simp: mcachefs_transfer_do_writeback_def world_simps mcachefs_makepath_source_def makepath_append
        stat_times_size_def Let_def)
  have w: "w = set_world w f m ?fds ?ino ?h" using set_world_id [OF f(2)] by simp
  have kept: "file_kept m m2" using m2 by (simp add: file_kept_def m1_def links_of_def)
  have rel: "releasable (w\<lparr>tw_journal := j\<rparr>) f m" using f(5) by (simp add: releasable_def)
  obtain w' where w': "in_file_only (set_world (w\<lparr>tw_journal := j\<rparr>) f m2 fds' ino' ?h3)
        (mcachefs_file_release (tw_file (set_world (w\<lparr>tw_journal := j\<rparr>) f m2 fds' ino' ?h3)) f) = Some w'"
      "tw_host w' = ?h3" "tw_journal w' = j" "tw_queue w' = tw_queue w"
    using release_kept [OF f(1) _ rel kept, of fds' ino' ?h3] f(2) by auto
  have "transfer_run e (set_world w f m ?fds ?ino ?h) f TRANSFER_TYPE_WRITEBACK = Some w'"
    using f(1,3,4,8-10) wb w'(1)
    by (simp add: set_world_journal transfer_run_def mcachefs_transfer_do_transfer_def world_simps mcachefs_config_get_read_state_def
        m1_def ld_def st(1))
  then show ?thesis using w w'(2-4) h2 f(14) by auto
qed

section \<open>Transfers that do not take place\<close>

text \<open>The program gave up reading the source, or the file of the cache exists or cannot be created.\<close>

definition backup_blocked :: "tenv \<Rightarrow> tworld \<Rightarrow> mfile \<Rightarrow> bool" where
  "backup_blocked e w m \<longleftrightarrow> cfg_read_state (te_config e) = read_state_code StateHandsup \<or>
     mf_type m = FileType \<and> mf_metadata_id m \<noteq> 0 \<and> valid (tw_ms w) (mf_metadata_id m) \<and>
     (\<exists>path. mf_path m = Some path \<and> (mcachefs_fileincache (te_config e) (tw_host w) path = Some True \<or>
        mcachefs_fileincache (te_config e) (tw_host w) path = Some False \<and>
        (\<exists>h res. mcachefs_createfile_cache (te_config e) (te_ino e (tw_host w)) path (tw_host w) = Some (h, res) \<and> res \<noteq> 0)))"

lemma backup_blocked_run:
  assumes "f \<noteq> 0" "files (tw_ms w) f = Some m" "mf_cache_status m = BackingAsked" "1 < mf_use m" "backup_blocked e w m"
  shows "\<exists>m' h'. transfer_run e w f TRANSFER_TYPE_BACKUP =
      Some (set_world w f m' (fw_fds (tw_file w)) (fw_ino (tw_file w)) h') \<and> mf_cache_status m' = BackingInProgress"
proof -
  let ?w = "set_world w f m (fw_fds (tw_file w)) (fw_ino (tw_file w)) (tw_host w)"
  let ?m = "m\<lparr>mf_cache_status := BackingInProgress\<rparr>"
  let ?m2 = "?m\<lparr>mf_transfer := \<lparr>tr_tobacking = 1, tr_total_size = st_size (md_st (entry (tw_ms w) (mf_metadata_id m))),
      tr_transfered_size = 0, tr_rate = 0, tr_total_time = 0\<rparr>\<rparr>"
  have w: "w = ?w" using set_world_id [OF assms(2)] by simp
  have run: "transfer_run e ?w f TRANSFER_TYPE_BACKUP = (if cfg_read_state (te_config e) = read_state_code StateHandsup
      then Some (set_world w f (?m\<lparr>mf_use := mf_use m - 1\<rparr>) (fw_fds (tw_file w)) (fw_ino (tw_file w)) (tw_host w))
      else transfer_run e ?w f TRANSFER_TYPE_BACKUP)"
    using assms(1,3,4)
    by (simp add: transfer_run_def mcachefs_transfer_do_transfer_def mcachefs_config_get_read_state_def world_simps)
  have "\<exists>m' h'. transfer_run e ?w f TRANSFER_TYPE_BACKUP =
      Some (set_world w f m' (fw_fds (tw_file w)) (fw_ino (tw_file w)) h') \<and> mf_cache_status m' = BackingInProgress"
  proof (cases "cfg_read_state (te_config e) = read_state_code StateHandsup")
    case True
    with run show ?thesis by (auto intro!: exI [of _ "tw_host w"])
  next
    case False
    then obtain path where p: "mf_type m = FileType" "mf_metadata_id m \<noteq> 0" "valid (tw_ms w) (mf_metadata_id m)"
        "mf_path m = Some path" "mcachefs_fileincache (te_config e) (tw_host w) path = Some True \<or>
        mcachefs_fileincache (te_config e) (tw_host w) path = Some False \<and>
        (\<exists>h res. mcachefs_createfile_cache (te_config e) (te_ino e (tw_host w)) path (tw_host w) = Some (h, res) \<and> res \<noteq> 0)"
      using assms(5) unfolding backup_blocked_def by blast
    have "\<exists>h. mcachefs_transfer_do_backing e (set_world w f m1 fds ino (tw_host w)) f = Some (set_world w f m1 fds ino h)"
      if "mf_path m1 = Some path" for m1 fds ino
      using p(5) that assms(1) by (auto simp: mcachefs_transfer_do_backing_def world_simps)
    then obtain h where h: "mcachefs_transfer_do_backing e (set_world w f ?m2 (fw_fds (tw_file w)) (fw_ino (tw_file w)) (tw_host w)) f =
        Some (set_world w f ?m2 (fw_fds (tw_file w)) (fw_ino (tw_file w)) h)" using p(4) by fastforce
    have "transfer_run e ?w f TRANSFER_TYPE_BACKUP =
        Some (set_world w f (?m2\<lparr>mf_use := mf_use m - 1\<rparr>) (fw_fds (tw_file w)) (fw_ino (tw_file w)) h)"
      using assms(1,3,4) p(1-4) False h
      by (simp add: transfer_run_def mcachefs_transfer_do_transfer_def mcachefs_config_get_read_state_def world_simps ld_def)
    then show ?thesis by auto
  qed
  with w show ?thesis by simp
qed

end
