(* ===== verification/Props_Transfer.thy ===== *)
theory Props_Transfer
  imports Transfer_Threads Transfer_Run Props_File Journal_Refine
begin

text \<open>
  The properties of the transfers: the queue and its threads, the copy, and what a backup or a
  write-back leaves.
\<close>

section \<open>The queue\<close>

text \<open>Three transfers, two of them backups.\<close>

definition sample_queue :: transfer_queue where
  "sample_queue = \<lparr>tq_nodes = [10 \<mapsto> \<lparr>tn_type = 0, tn_mfile = 7, tn_next = 20\<rparr>,
     20 \<mapsto> \<lparr>tn_type = 1, tn_mfile = 8, tn_next = 30\<rparr>, 30 \<mapsto> \<lparr>tn_type = 0, tn_mfile = 9, tn_next = 0\<rparr>],
     tq_head = 10, tq_tail = 30, tq_sem = (\<lambda>t. if t = 0 then 2 else if t = 1 then 1 else 0)\<rparr>"

lemma sample_queue_rep: "transfers_rep sample_queue [(0, 7), (1, 8), (0, 9)]"
  unfolding transfers_rep_def
  by (rule exI [of _ "[(10, 0, 7), (20, 1, 8), (30, 0, 9)]"]) (auto simp: tnodes_rep_def sample_queue_def split: if_splits)

text \<open>C24: Asking for the transfer of a file that is not queued appends it to the list that the queue
  represents and posts the semaphore of its type; asking again changes nothing and answers that it
  exists.\<close>

theorem queue_file_appends:
  assumes "transfers_rep q ts" "transfer_fresh q a" "t < MCACHEFS_TRANSFER_TYPES"
  shows "\<exists>q'. mcachefs_transfer_queue_file a q f t = Some (q', if f \<in> snd ` set ts then - EEXIST else 0) \<and>
    (if f \<in> snd ` set ts then q' = q
     else transfers_rep q' (ts @ [(t, f)]) \<and> tq_sem q' = (tq_sem q)(t := tq_sem q t + 1))"
proof -
  obtain q' res where run: "transfer_queue_locked a q f t = Some (q', res)"
    using tq.enq_result [OF assms(1,2)] by blast
  from queue_locked_cases [OF assms(1,2) run] run assms(3) show ?thesis
    by (auto simp: mcachefs_transfer_queue_file_def transfer_sem_post_def EEXIST_def)
qed

lemma queue_file_appends_witness:
  "\<exists>q'. mcachefs_transfer_queue_file 40 sample_queue 5 2 = Some (q', 0) \<and>
    transfers_rep q' [(0, 7), (1, 8), (0, 9), (2, 5)] \<and> tq_sem q' 2 = 1"
  using queue_file_appends [OF sample_queue_rep, of 40 2 5]
  by (simp add: transfer_fresh_def sample_queue_def MCACHEFS_TRANSFER_TYPES_def) force

text \<open>C25: The files of a type are handed to the threads in the order in which they were asked, and the
  transfers of the other types stay as they are.\<close>

theorem transfers_in_order:
  assumes "transfers_rep q ts" "n \<le> length (filter (\<lambda>x. fst x = t) ts)"
  shows "\<exists>q' ts'. take_times mcachefs_transfer_get_next_file_to_back_locked n q t =
      Some (q', take n (map snd (filter (\<lambda>x. fst x = t) ts))) \<and> transfers_rep q' ts' \<and>
    filter (\<lambda>x. fst x \<noteq> t) ts' = filter (\<lambda>x. fst x \<noteq> t) ts \<and>
    filter (\<lambda>x. fst x = t) ts' = drop n (filter (\<lambda>x. fst x = t) ts)"
  by (rule tq.take_in_order [OF assms])

lemma transfers_in_order_witness:
  "\<exists>q' ts'. take_times mcachefs_transfer_get_next_file_to_back_locked 2 sample_queue 0 = Some (q', [7, 9]) \<and>
    transfers_rep q' ts' \<and> filter (\<lambda>x. fst x \<noteq> 0) ts' = [(1, 8)] \<and> filter (\<lambda>x. fst x = 0) ts' = []"
  using transfers_in_order [OF sample_queue_rep, of 2 0] by simp

section \<open>The threads\<close>

text \<open>C26: In no reachable state does a thread fault: whoever is about to take a transfer finds one of its
  type in the queue.\<close>

theorem transfer_threads_never_fault:
  assumes "transfer_reachable c s" "i < length (sys_threads s)"
  shows "mcachefs_transfer_thread (sys_queue s) (sys_read_state s) (sys_threads s ! i) \<noteq> Some Bug"
  by (rule thread_no_fault [OF transfer_reachable_inv [OF assms(1)] assms(2)])

definition three_threads :: config where
  "three_threads = initial_config\<lparr>cfg_threads_nb := [1, 1, 1]\<rparr>"

lemma three_threads_start:
  "mcachefs_transfer_start_threads three_threads = map (\<lambda>t. \<lparr>th_type = t, th_currentfile = 0, th_point = Waiting\<rparr>) [0, 1, 2]"
  by (simp add: mcachefs_transfer_start_threads_def three_threads_def MCACHEFS_TRANSFER_TYPES_def upt_rec numeral_2_eq_2)

lemma transfer_threads_never_fault_witness:
  "mcachefs_transfer_thread (sys_queue (initial_system three_threads)) (sys_read_state (initial_system three_threads))
     (sys_threads (initial_system three_threads) ! 2) \<noteq> Some Bug"
  by (rule transfer_threads_never_fault [OF transfer_reachable.init])
    (simp add: initial_system_def three_threads_start)

text \<open>C27: Once the threads are stopped, a step other than a new request is possible until all of them have
  returned, and each such step brings them closer: they can all be joined.\<close>

theorem stopped_threads_end:
  assumes "transfer_reachable c s" "sys_stopping s"
  shows "((\<exists>th\<in>set (sys_threads s). th_point th \<noteq> Ended) \<longrightarrow>
      (\<exists>ev s'. transfer_step ev s s' \<and> (\<forall>t f. ev \<noteq> Ask t f))) \<and>
    (\<forall>ev s'. transfer_step ev s s' \<longrightarrow> (\<forall>t f. ev \<noteq> Ask t f) \<longrightarrow> remaining_work s' < remaining_work s)"
  using stopping_step_exists [OF transfer_reachable_inv [OF assms(1)] assms(2)]
    stopping_step_decreases [OF _ transfer_reachable_inv [OF assms(1)] assms(2)] by blast

definition quitting_system :: transfer_system where
  "quitting_system = (initial_system three_threads)\<lparr>sys_read_state := read_state_code StateQuitting\<rparr>"

definition stopped_system :: transfer_system where
  "stopped_system = quitting_system\<lparr>sys_stopping := True,
     sys_posts := (\<lambda>t. length (filter (\<lambda>th. th_type th = t) (sys_threads quitting_system)))\<rparr>"

lemma stopped_reachable: "transfer_reachable three_threads stopped_system"
proof (rule transfer_reachable.step [OF transfer_reachable.step [OF transfer_reachable.init]])
  show "transfer_step (SetState (read_state_code StateQuitting)) (initial_system three_threads) quitting_system"
    unfolding quitting_system_def by (rule transfer_step.set_state) (simp add: initial_system_def)
  show "transfer_step Stop quitting_system stopped_system"
    by (rule transfer_step.stop)
      (simp_all add: stopped_system_def mcachefs_transfer_stop_threads_def quitting_system_def initial_system_def)
qed

lemma stopped_threads_end_witness:
  "\<exists>ev s'. transfer_step ev stopped_system s' \<and> (\<forall>t f. ev \<noteq> Ask t f) \<and> remaining_work s' < remaining_work stopped_system"
proof -
  have "\<exists>th\<in>set (sys_threads stopped_system). th_point th \<noteq> Ended"
    by (simp add: stopped_system_def quitting_system_def initial_system_def three_threads_start)
  with stopped_threads_end [OF stopped_reachable] show ?thesis
    by (simp add: stopped_system_def) blast
qed

section \<open>The copy\<close>

definition sample_copy :: copy_env where
  "sample_copy = \<lparr>ce_read_state = (\<lambda>_. 0), ce_clock = int, ce_max_rate = 0, ce_realloc = (\<lambda>_. True),
     ce_source = 1, ce_target = 2, ce_begin_copy = 0\<rparr>"

text \<open>A file of two windows and one byte.\<close>

definition long_host :: host where
  "long_host = sample_host\<lparr>h_data := (\<lambda>_. [])(1 := replicate 8193 CHR ''x'', 2 := ''yyy'')\<rparr>"

lemma sample_copy_ok: "copy_env_ok sample_copy" "copy_files_ok sample_copy" "smooth sample_copy long_host"
  by (simp_all add: copy_env_ok_def copy_files_ok_def sample_copy_def strict_mono_def smooth_def long_host_def sample_host_def)

text \<open>C28: While the clock advances, the copy loop always ends without a fault, whatever the host, the
  memory and the state of the program do: the target then starts with the first bytes of the
  source and keeps what it had behind them, nothing else changes; success means that all the bytes
  asked for are there, and is certain when nothing fails.\<close>

theorem copy_ends_with_prefix:
  assumes "copy_env_ok ce" "0 \<le> sz" "sz \<le> int (length (h_data h (ce_source ce)))"
  shows "\<exists>cp ok k. copy_loop ce (copy_start h sz tr (ce_begin_copy ce)) = Some (cp, ok) \<and> k \<le> nat sz \<and>
    h_data (cp_host cp) (ce_target ce) = take k (h_data h (ce_source ce)) @ drop k (h_data h (ce_target ce)) \<and>
    (\<forall>i. i \<noteq> ce_target ce \<longrightarrow> h_data (cp_host cp) i = h_data h i) \<and> h_nodes (cp_host cp) = h_nodes h \<and>
    (ok \<longrightarrow> k = nat sz) \<and> (smooth ce h \<longrightarrow> ok)"
proof -
  obtain cp ok k where cp: "copy_loop ce (copy_start h sz tr (ce_begin_copy ce)) = Some (cp, ok)" "k \<le> nat sz"
      "copied_prefix ce h k (cp_host cp)" "ok \<longrightarrow> k = nat sz" "smooth ce h \<longrightarrow> ok"
    using copy_loop_ok [OF assms] by blast
  moreover have "length (take k (h_data h (ce_source ce))) = k" using cp(2) assms(2,3) by simp
  ultimately show ?thesis
    by (intro exI [of _ cp] exI [of _ ok] exI [of _ k]) (auto simp: copied_prefix_def)
qed

lemma copy_ends_with_prefix_witness:
  "\<exists>cp. copy_loop sample_copy (copy_start long_host 8193 zero_transfer (ce_begin_copy sample_copy)) = Some (cp, True) \<and>
    h_data (cp_host cp) 2 = replicate 8193 CHR ''x''"
  using copy_ends_with_prefix [OF sample_copy_ok(1), of 8193 long_host zero_transfer] sample_copy_ok(3)
  by (auto simp: long_host_def sample_copy_def)

text \<open>C29: If the clock still shows the time of the start when the first window is through, a copy of more
  than that window divides by zero.\<close>

theorem copy_stopped_clock_crashes:
  assumes "copy_files_ok ce" "smooth ce h" "ce_clock ce 2 = ce_begin_copy ce" "transfer_window_size_min < sz"
    "sz \<le> int (length (h_data h (ce_source ce)))"
  shows "copy_loop ce (copy_start h sz tr (ce_begin_copy ce)) = Bug"
  by (rule copy_stopped_clock [OF assms])

lemma copy_stopped_clock_crashes_witness:
  "copy_loop (sample_copy\<lparr>ce_clock := (\<lambda>n. 0)\<rparr>) (copy_start long_host 8193 zero_transfer
     (ce_begin_copy (sample_copy\<lparr>ce_clock := (\<lambda>n. 0)\<rparr>))) = Bug"
  by (rule copy_stopped_clock_crashes)
    (simp_all add: copy_files_ok_def smooth_def sample_copy_def long_host_def sample_host_def transfer_window_size_min_def)

text \<open>Above a positive maximum rate the thread sleeps for a time that \<open>nanosleep\<close> accepts, at most
  nine tenths of a second.\<close>

theorem penalty_bounded:
  assumes "0 < max_rate" "2 ^ 12 \<le> window" "window \<le> transfer_window_size_max" "0 \<le> copy_interval"
  shows "\<exists>p. transfer_penalty window max_rate copy_interval = Some p \<and> 0 \<le> p \<and> p \<le> 900000000"
proof -
  have "window * 2 ^ 20 sdiv max_rate = window * 2 ^ 20 div max_rate"
    using assms(1,2) by (subst signed_divide_int_eq_divide_int) auto
  moreover have "0 \<le> window * 2 ^ 20 div max_rate" using assms(1,2) by (intro div_int_pos_iff [THEN iffD2]) auto
  ultimately show ?thesis using assms(1,4) by (auto simp: transfer_penalty_def c_div_def Let_def)
qed

lemma penalty_bounded_witness:
  "\<exists>p. transfer_penalty 4096 100 2000 = Some p \<and> 0 \<le> p \<and> p \<le> 900000000"
  using penalty_bounded [of 100 4096 2000] by (simp add: transfer_window_size_max_def)

section \<open>Backups\<close>

text \<open>The file /d/a, open twice, of which the cache has nothing yet, not even the directory.\<close>

definition asked_file :: mfile where
  "asked_file = zero_mfile\<lparr>mf_path := Some ''/d/a'', mf_type := FileType, mf_use := 2,
     mf_backing := mcachefs_file_source_init zero_source, mf_real := mcachefs_file_source_init zero_source,
     mf_cache_status := BackingAsked, mf_metadata_id := 2\<rparr>"

definition transfer_host :: host where
  "transfer_host = sample_host\<lparr>h_nodes := [''/src'' \<mapsto> HDir, ''/src/d'' \<mapsto> HDir, ''/src/d/a'' \<mapsto> HReg 1, ''/cache'' \<mapsto> HDir],
     h_data := (\<lambda>_. [])(1 := ''abc'')\<rparr>"

definition transfer_world :: "mfile \<Rightarrow> host \<Rightarrow> tworld" where
  "transfer_world m h = \<lparr>tw_file = \<lparr>fw_ms = \<lparr>entry = (\<lambda>_. zero_metadata)(2 := zero_metadata\<lparr>md_id := 2,
       md_st := zero_stat\<lparr>st_size := 3, st_mtime := 9\<rparr>\<rparr>), alloced_nb = 5, first_free = 0, hash_root = 0,
     files = [7 \<mapsto> m], timeslices = (\<lambda>_. 0), timeslice_current = 0\<rparr>, fw_fds = [0], fw_ino = (\<lambda>_. 0), fw_host = h\<rparr>,
     tw_queue = no_transfers,
     tw_journal = \<lparr>j_file = None, j_fsync_file = Some [], j_action = ActionSync,
       j_fsync = \<lparr>total_files = 1, files_ok = 0, files_error = 0\<rparr>\<rparr>\<rparr>"

definition transfer_env :: tenv where
  "transfer_env = \<lparr>te_file = sample_env, te_node = (\<lambda>q. 40), te_ino = (\<lambda>h. 2), te_read_state = (\<lambda>n. 0),
     te_clock = int, te_realloc = (\<lambda>n. True)\<rparr>"

definition handsup_env :: tenv where
  "handsup_env = transfer_env\<lparr>te_file := sample_env\<lparr>fe_config := (fe_config sample_env)\<lparr>cfg_read_state := read_state_code StateHandsup\<rparr>\<rparr>\<rparr>"

lemmas transfer_sample_defs = asked_file_def transfer_host_def transfer_world_def transfer_env_def handsup_env_def
  sample_env_def sample_host_def initial_config_def zero_mfile_def mcachefs_file_source_init_def zero_source_def
  zero_metadata_def zero_stat_def

lemma sample_undisturbed: "undisturbed transfer_env transfer_host"
  by (simp add: undisturbed_def willing_def transfer_sample_defs strict_mono_def)

lemma sample_backup_ready: "backup_ready transfer_env (transfer_world asked_file transfer_host) 7 asked_file [''d''] ''a'' 1"
  unfolding backup_ready_def using sample_undisturbed
  by (auto simp: transfer_sample_defs sources_closed_def name_ok_def valid_def way_clear_def at_path_def take_Cons'
      host_new_def)

text \<open>C30: Running a backup that nothing disturbs creates the missing directories and the file of the cache
  with the bytes of the source up to the size of the metadata, leaves the source as it is, and marks
  the file as being in the cache.\<close>

theorem backup_fills_cache:
  assumes "backup_ready e w f m ns n a" "0 \<le> st_size (md_st (entry (tw_ms w) (mf_metadata_id m)))"
  shows "\<exists>w' m' pre b. transfer_run e w f TRANSFER_TYPE_BACKUP = Some w' \<and> files (tw_ms w') f = Some m' \<and>
    mf_cache_status m' = BackingDone \<and> mf_use m' = mf_use m - 1 \<and> cfg_cache (te_config e) = Some pre \<and>
    h_nodes (tw_host w') (pre @ CHR ''/'' # joined (ns @ [n])) = Some (HReg b) \<and>
    h_data (tw_host w') b = take (nat (st_size (md_st (entry (tw_ms w) (mf_metadata_id m))))) (h_data (tw_host w) a) \<and>
    h_data (tw_host w') a = h_data (tw_host w) a"
proof -
  obtain m' fds' ino' h' pre b where r: "transfer_run e w f TRANSFER_TYPE_BACKUP = Some (set_world w f m' fds' ino' h')"
      "mf_cache_status m' = BackingDone" "mf_use m' = mf_use m - 1" "cfg_cache (te_config e) = Some pre"
      "h_nodes h' (pre @ CHR ''/'' # joined (ns @ [n])) = Some (HReg b)"
      "h_data h' b = take (nat (st_size (md_st (entry (tw_ms w) (mf_metadata_id m))))) (h_data (tw_host w) a)"
      "h_data h' a = h_data (tw_host w) a"
    using backup_run_ok [OF assms] by blast
  then show ?thesis
    by (intro exI [of _ "set_world w f m' fds' ino' h'"] exI [of _ m'] exI [of _ pre] exI [of _ b])
      (simp add: set_world_sel)
qed

lemma backup_fills_cache_witness:
  "\<exists>w' b. transfer_run transfer_env (transfer_world asked_file transfer_host) 7 TRANSFER_TYPE_BACKUP = Some w' \<and>
    h_nodes (tw_host w') ''/cache/d/a'' = Some (HReg b) \<and> h_data (tw_host w') b = ''abc''"
  using backup_fills_cache [OF sample_backup_ready] by (auto simp: transfer_sample_defs)

text \<open>A backup that is given up because the source is not to be read, because the cache has the file
  or because it cannot be created there leaves the file as being transferred, though no transfer of
  it is queued or running; from then on asking for its backup does nothing.\<close>

theorem abandoned_backup_never_retried:
  assumes "f \<noteq> 0" "files (tw_ms w) f = Some m" "mf_cache_status m = BackingAsked" "1 < mf_use m" "backup_blocked e w m"
  shows "\<exists>w' m'. transfer_run e w f TRANSFER_TYPE_BACKUP = Some w' \<and> files (tw_ms w') f = Some m' \<and>
    mf_cache_status m' = BackingInProgress \<and> tw_queue w' = tw_queue w \<and>
    (\<forall>e'. mcachefs_transfer_backfile e' w' f = Some (w', 0))"
proof -
  obtain m' h' where r: "transfer_run e w f TRANSFER_TYPE_BACKUP =
      Some (set_world w f m' (fw_fds (tw_file w)) (fw_ino (tw_file w)) h')" "mf_cache_status m' = BackingInProgress"
    using backup_blocked_run [OF assms] by blast
  then show ?thesis
    by (intro exI [of _ "set_world w f m' (fw_fds (tw_file w)) (fw_ino (tw_file w)) h'"] exI [of _ m'])
      (simp add: set_world_sel mcachefs_transfer_backfile_def ldf_set_world [OF assms(1)])
qed

lemma abandoned_backup_never_retried_witness:
  "\<exists>w'. transfer_run handsup_env (transfer_world asked_file transfer_host) 7 TRANSFER_TYPE_BACKUP = Some w' \<and>
    tw_queue w' = no_transfers \<and> (\<forall>e'. mcachefs_transfer_backfile e' w' 7 = Some (w', 0))"
proof -
  have "backup_blocked handsup_env (transfer_world asked_file transfer_host) asked_file"
    by (simp add: backup_blocked_def transfer_sample_defs)
  from abandoned_backup_never_retried [OF _ _ _ _ this, of 7] show ?thesis
    by (auto simp: transfer_sample_defs)
qed

section \<open>Write-backs\<close>

definition backed_file :: mfile where
  "backed_file = asked_file\<lparr>mf_cache_status := BackingDone\<rparr>"

definition written_host :: host where
  "written_host = transfer_host\<lparr>h_nodes := [''/src'' \<mapsto> HDir, ''/src/d'' \<mapsto> HDir, ''/src/d/a'' \<mapsto> HReg 1,
     ''/cache'' \<mapsto> HDir, ''/cache/d'' \<mapsto> HDir, ''/cache/d/a'' \<mapsto> HReg 2], h_data := (\<lambda>_. [])(1 := ''abcd'', 2 := ''xyz'')\<rparr>"

text \<open>C31: Running the write-back of a file that nothing disturbs, whether somebody still has the file open
  or the write-back is its last user, puts the bytes of the cache at the start of the file of the
  source and keeps what the source has behind them, sets the time of modification, and notifies the
  journal of a success.  It is required that the source is not being given up, that both sources of the
  file are closed, that the host, the memory and the clock go along, and that the file of the source is
  older than the entry or has another size: a source that is as new with the same size crashes the
  write-back.\<close>

theorem writeback_updates_source:
  assumes "writeback_ready e w f m path a b" "st = md_st (entry (tw_ms w) (mf_metadata_id m))" "0 \<le> st_size st"
    "h_mtime (tw_host w) b < st_mtime st \<or> int (length (h_data (tw_host w) b)) \<noteq> st_size st"
    "mcachefs_notify_sync_end (tw_journal w) True = Some j"
  shows "\<exists>w'. transfer_run e w f TRANSFER_TYPE_WRITEBACK = Some w' \<and> tw_journal w' = j \<and> tw_queue w' = tw_queue w \<and>
    h_mtime (tw_host w') b = st_mtime st \<and> h_data (tw_host w') a = h_data (tw_host w) a \<and>
    h_data (tw_host w') b = take (nat (st_size st)) (h_data (tw_host w) a) @
      drop (length (take (nat (st_size st)) (h_data (tw_host w) a))) (h_data (tw_host w) b)"
  by (rule writeback_run_ok [OF assms])

text \<open>A file that only the transfer uses, on the first slice.\<close>

definition unused_file :: mfile where
  "unused_file = backed_file\<lparr>mf_use := 1, mf_timeslice := 0, mf_ts_previous := 0, mf_ts_next := 0\<rparr>"

definition unused_world :: tworld where
  "unused_world = transfer_world unused_file written_host\<lparr>tw_file := (tw_file (transfer_world unused_file written_host))
     \<lparr>fw_ms := (tw_ms (transfer_world unused_file written_host))\<lparr>timeslices := (\<lambda>_. 0)(0 := 7), timeslice_current := 0\<rparr>\<rparr>\<rparr>"

lemma unused_world_rep: "slices_rep (tw_ms unused_world) ((\<lambda>_. [])(0 := [7]))"
  by (auto simp: slices_rep_def unused_world_def unused_file_def transfer_world_def timeslice_nb_def split: if_splits)

lemma unused_releasable: "releasable unused_world 7 unused_file"
proof -
  have "\<exists>L i. slices_rep (tw_ms unused_world) L \<and> i < timeslice_nb + 1 \<and> 7 \<in> set (L i)"
    using unused_world_rep by (intro exI [of _ "(\<lambda>_. [])(0 := [7])"] exI [of _ 0]) simp
  then show ?thesis
    by (auto simp: releasable_def unused_file_def unused_world_def backed_file_def transfer_sample_defs valid_def
        mcachefs_file_path_deleted_def)
qed

lemma writeback_updates_source_witness:
  "\<exists>w'. transfer_run transfer_env unused_world 7 TRANSFER_TYPE_WRITEBACK = Some w' \<and>
    j_action (tw_journal w') = ActionNone \<and> h_mtime (tw_host w') 1 = 9 \<and> h_data (tw_host w') 1 = ''xyzd''"
proof -
  have "writeback_ready transfer_env unused_world 7 unused_file ''/d/a'' 2 1"
    using unused_releasable
    by (auto simp: writeback_ready_def unused_file_def unused_world_def backed_file_def written_host_def transfer_sample_defs
        sources_closed_def valid_def undisturbed_def willing_def strict_mono_def)
  moreover have "mcachefs_notify_sync_end (tw_journal unused_world) True =
      Some \<lparr>j_file = None, j_fsync_file = None, j_action = ActionNone, j_fsync = no_fsync\<rparr>"
    by (simp add: mcachefs_notify_sync_end_def unused_world_def transfer_world_def)
  ultimately show ?thesis
    using writeback_updates_source [OF _ refl]
    by (fastforce simp: unused_file_def unused_world_def backed_file_def written_host_def transfer_sample_defs)
qed

text \<open>A write-back of a file that the source seems to have fresher, with the same size, uses the path
  it has freed.\<close>

theorem fresher_writeback_crashes:
  assumes "file_path w f = Some path" "cfg_source (te_config e) = Some src"
    "host_stat (tw_host w) (src @ path) = Some (HReg b)" "snd timbuf \<le> h_mtime (tw_host w) b"
    "ldf (tw_ms w) f (\<lambda>m. tr_total_size (mf_transfer m)) = Some (int (length (h_data (tw_host w) b)))"
  shows "mcachefs_transfer_do_writeback e w f timbuf = Bug"
  using assms
  by (simp add: mcachefs_transfer_do_writeback_def mcachefs_makepath_source_def makepath_append stat_times_size_def Let_def
      case_prod_unfold)

lemma fresher_writeback_crashes_witness:
  "mcachefs_transfer_do_writeback transfer_env (transfer_world (backed_file\<lparr>mf_transfer := zero_transfer\<lparr>tr_total_size := 4\<rparr>\<rparr>)
     written_host) 7 (0, 0) = Bug"
  by (rule fresher_writeback_crashes [where b = 1 and path = "''/d/a''" and src = "''/src''"])
    (simp_all add: file_path_def backed_file_def written_host_def transfer_sample_defs host_stat_def)

text \<open>C32: A write-back that a thread takes while the source is not to be read is dropped without a
  notification: the journal is left synchronising with its counts as they were, the file is not
  queued again, and nothing is written to the source.  From then on an application of the journal
  does nothing, and so it stays however many of the other write-backs, fewer than those the
  journal waits for, are notified.\<close>

theorem handsup_writeback_not_notified:
  assumes "cfg_read_state (te_config e) = read_state_code StateHandsup" "f \<noteq> 0" "files (tw_ms w) f = Some m"
    "releasable w f m" "j_action (tw_journal w) = ActionSync"
    "int (length oks) < pending (tw_journal w)"
  shows "\<exists>w'. transfer_run e w f TRANSFER_TYPE_WRITEBACK = Some w' \<and> tw_journal w' = tw_journal w \<and>
    tw_queue w' = tw_queue w \<and> tw_host w' = tw_host w \<and>
    (\<exists>j. notify_all (tw_journal w') oks = Some j \<and> j_action j = ActionSync \<and>
      (\<forall>errno source wb x. mcachefs_journal_apply errno source wb j x = Some (j, x :: tworld, [])))"
proof -
  let ?w = "\<lambda>m. set_world w f m (fw_fds (tw_file w)) (fw_ino (tw_file w)) (tw_host w)"
  let ?m = "if mf_cache_status m = BackingAsked then m\<lparr>mf_cache_status := BackingInProgress\<rparr> else m"
  have "file_kept m ?m" by (simp add: file_kept_def links_of_def)
  from release_kept [OF assms(2-4) this] obtain w' where w': "in_file_only (?w ?m) (mcachefs_file_release (tw_file (?w ?m)) f) = Some w'"
    "tw_host w' = tw_host w" "tw_journal w' = tw_journal w" "tw_queue w' = tw_queue w" by blast
  have "transfer_run e (?w m) f TRANSFER_TYPE_WRITEBACK = Some w'"
    using assms(1,2) w'(1)
    by (simp add: transfer_run_def mcachefs_transfer_do_transfer_def mcachefs_config_get_read_state_def upd_mfile_set_world)
  moreover have "?w m = w" by (rule set_world_id [OF assms(3)])
  moreover obtain j where "notify_all (tw_journal w) oks = Some j" "j_action j = ActionSync"
    using notify_fewer [OF assms(6)] assms(5) by auto
  ultimately show ?thesis using w' by (auto simp: mcachefs_journal_apply_def)
qed

text \<open>A journal that waits for two write-backs, one of which is dropped and the other succeeds.\<close>

definition two_waited :: tworld where
  "two_waited = unused_world\<lparr>tw_journal := (tw_journal unused_world)\<lparr>j_fsync := \<lparr>total_files = 2, files_ok = 0, files_error = 0\<rparr>\<rparr>\<rparr>"

lemma handsup_writeback_not_notified_witness:
  "\<exists>w'. transfer_run handsup_env two_waited 7 TRANSFER_TYPE_WRITEBACK = Some w' \<and>
    (\<exists>j. notify_all (tw_journal w') [True] = Some j \<and> j_action j = ActionSync)"
proof -
  have "releasable two_waited 7 unused_file"
    using unused_releasable by (simp add: releasable_def two_waited_def)
  then show ?thesis
    using handsup_writeback_not_notified [of handsup_env 7 two_waited unused_file "[True]"]
    by (auto simp: two_waited_def unused_world_def pending_def transfer_world_def handsup_env_def transfer_sample_defs)
qed

end
