(* ===== verification/File_Io.thy ===== *)
theory File_Io
  imports Transfer_Ops Vops
begin

text \<open>
  Reading and writing of open files, src/src/mcachefs-io.c: the choice between the cache and the
  source, the waits for a copy that is under way, the entry of the journal for the first write, and
  what opening and releasing do with the two kinds of files.
\<close>

section \<open>State and environment\<close>

text \<open>The configuration, and the files, the queue and the journal.\<close>

type_synonym ioworld = "tworld vstate"

text \<open>
  The environment of the transfers; the actions and the listings of the virtual files; the memory
  that \<open>realloc\<close> adds; what the other threads make of the world while this one sleeps; the value
  that \<open>errno\<close> has when a call neither fails nor sets it; and the room that the disk has for the
  journal.
\<close>

record ienv =
  ie_transfer :: tenv
  ie_externs :: "tworld externs"
  ie_junk :: "nat \<Rightarrow> string"
  ie_others :: "ioworld \<Rightarrow> ioworld"
  ie_errno :: int
  ie_room :: "journal \<Rightarrow> nat"

text \<open>The state by its number; directories are read as in the current one.\<close>

definition read_state_of :: "int \<Rightarrow> read_state" where
  "read_state_of n = (if n = 1 then StateFull else if n = 2 then StateHandsup
     else if n = 3 then StateNocache else if n = 4 then StateQuitting else StateNormal)"

definition io_tenv :: "ienv \<Rightarrow> ioworld \<Rightarrow> tenv" where
  "io_tenv e s = (ie_transfer e)\<lparr>te_file := (te_file (ie_transfer e))\<lparr>fe_config := v_config s,
     fe_env := (fe_env (te_file (ie_transfer e)))\<lparr>env_read_state := read_state_of (cfg_read_state (v_config s))\<rparr>\<rparr>\<rparr>"

abbreviation io_fenv :: "ienv \<Rightarrow> ioworld \<Rightarrow> fenv" where
  "io_fenv e s \<equiv> file_env (io_tenv e s) (v_world s)"

abbreviation io_env :: "ienv \<Rightarrow> ioworld \<Rightarrow> env" where
  "io_env e s \<equiv> fe_env (te_file (io_tenv e s))"

abbreviation io_ms :: "ioworld \<Rightarrow> mstate" where
  "io_ms s \<equiv> tw_ms (v_world s)"

abbreviation io_host :: "ioworld \<Rightarrow> host" where
  "io_host s \<equiv> tw_host (v_world s)"

definition io_with_ms :: "ioworld \<Rightarrow> mstate \<Rightarrow> ioworld" where
  "io_with_ms s m = s\<lparr>v_world := with_ms (v_world s) m\<rparr>"

definition io_with_host :: "ioworld \<Rightarrow> host \<Rightarrow> ioworld" where
  "io_with_host s h = s\<lparr>v_world := with_host (v_world s) h\<rparr>"

definition io_world :: "ioworld \<Rightarrow> tworld option \<Rightarrow> ioworld option" where
  "io_world s r = map_option (\<lambda>w. s\<lparr>v_world := w\<rparr>) r"

definition io_upd_mfile :: "ioworld \<Rightarrow> fh \<Rightarrow> (mfile \<Rightarrow> mfile) \<Rightarrow> ioworld option" where
  "io_upd_mfile s f g = io_world s (upd_mfile (v_world s) f g)"

text \<open>Operations on the files with a result, and without one.\<close>

definition io_file :: "ioworld \<Rightarrow> (fworld \<times> 'a) option \<Rightarrow> (ioworld \<times> 'a) option" where
  "io_file s r = map_option (\<lambda>(w, x). (s\<lparr>v_world := w\<rparr>, x)) (in_file (v_world s) r)"

definition io_file_only :: "ioworld \<Rightarrow> fworld option \<Rightarrow> ioworld option" where
  "io_file_only s r = io_world s (in_file_only (v_world s) r)"

definition io_journal :: "ienv \<Rightarrow> ioworld \<Rightarrow> journal_op \<Rightarrow> string \<Rightarrow> string \<Rightarrow> journal_entry \<Rightarrow> ioworld option" where
  "io_journal e s op path to attrs = do {
     (j, room) \<leftarrow> mcachefs_journal_append (ie_errno e) (ie_room e (tw_journal (v_world s)))
       (tw_journal (v_world s)) op path to attrs;
     Some (s\<lparr>v_world := (v_world s)\<lparr>tw_journal := j\<rparr>\<rparr>)
   }"

text \<open>\<open>(int)\<close> of a 64-bit number.\<close>

definition c_int :: "int \<Rightarrow> int" where
  "c_int v = signed_take_bit 31 v"

text \<open>\<open>struct fuse_file_info\<close>, as far as the program uses it.\<close>

record fuse_file_info =
  fi_flags :: "32 word"
  fi_fh :: fh
  fi_direct_io :: bool

section \<open>Opening\<close>

definition mcachefs_open_mfile ::
  "ienv \<Rightarrow> ioworld \<Rightarrow> fh \<Rightarrow> fuse_file_info \<Rightarrow> file_type \<Rightarrow> (ioworld \<times> fuse_file_info \<times> int) option" where
  "mcachefs_open_mfile e s f info type =
     (if type = FileType then do {
        s \<leftarrow> (if mcachefs_config_get_read_state (v_config s) \<noteq> read_state_code StateNocache \<or> IS_WRITE (fi_flags info)
          then do {
            (w, res) \<leftarrow> mcachefs_transfer_backfile (io_tenv e s) (v_world s) f;
            Some (s\<lparr>v_world := w\<rparr>)
          }
          else do {
            st \<leftarrow> ldf (io_ms s) f mf_cache_status;
            if st = BackingNone then do {
              path \<leftarrow> file_path (v_world s) f;
              cached \<leftarrow> mcachefs_fileincache (v_config s) (io_host s) path;
              if cached then io_upd_mfile s f (\<lambda>m. m\<lparr>mf_cache_status := BackingDone\<rparr>) else Some s
            }
            else Some s
          });
        Some (s, info, 0)
      }
      else if type = VopsType then do {
        let info = info\<lparr>fi_direct_io := True\<rparr>;
        s \<leftarrow> (if \<not> IS_WRITE (fi_flags info) then do {
                m \<leftarrow> ldf (io_ms s) f (\<lambda>m. m);
                m \<leftarrow> mcachefs_vops_build (ie_externs e) (ie_junk e) s m;
                io_upd_mfile s f (\<lambda>_. m)
              }
              else Some s);
        Some (s, info, 0)
      }
      else Some (s, info, 0))"

section \<open>Reading\<close>

text \<open>The wait for the bytes to be in the cache, a tenth of a second at a time: 1 to read the source.\<close>

partial_function (option) read_wait_loop ::
  "ienv \<Rightarrow> fh \<Rightarrow> nat \<Rightarrow> int \<Rightarrow> nat \<Rightarrow> ioworld \<Rightarrow> (ioworld \<times> nat) option" where
  "read_wait_loop e f n offset waited_backing s = do {
     m \<leftarrow> ldf (io_ms s) f (\<lambda>m. m);
     if mf_cache_status m = BackingDone then Some (s, 0)
     else if mcachefs_config_get_read_state (v_config s) = read_state_code StateNocache then Some (s, 1)
     else if mf_cache_status m = BackingNone \<or> mf_cache_status m = BackingAsked \<or> mf_cache_status m = BackingError
     then Some (s, 1)
     else if mf_cache_status m = BackingInProgress \<and> tr_transfered_size (mf_transfer m) \<ge> offset + int n
     then Some (s, 0)
     else if waited_backing = 10 then Some (s, 1)
     else read_wait_loop e f n offset (waited_backing + 1) (ie_others e s)
   }"

declare read_wait_loop.simps [code]

definition mcachefs_read_wait_accessible ::
  "ienv \<Rightarrow> ioworld \<Rightarrow> fh \<Rightarrow> nat \<Rightarrow> int \<Rightarrow> (ioworld \<times> nat) option" where
  "mcachefs_read_wait_accessible e s f n offset = read_wait_loop e f n offset 0 s"

text \<open>The result and the bytes; the statistics count those of the source that was read.\<close>

definition count_read :: "int \<Rightarrow> file_source \<Rightarrow> file_source" where
  "count_read res src = src\<lparr>src_nbrd := src_nbrd src + 1, src_bytesrd := src_bytesrd src + nat res\<rparr>"

definition mcachefs_read_file :: "ienv \<Rightarrow> ioworld \<Rightarrow> fh \<Rightarrow> nat \<Rightarrow> int \<Rightarrow> (ioworld \<times> int \<times> string) option" where
  "mcachefs_read_file e s f n offset = do {
     (s, use_real) \<leftarrow> mcachefs_read_wait_accessible e s f n offset;
     if use_real \<noteq> 0 \<and> mcachefs_config_get_read_state (v_config s) = read_state_code StateHandsup
     then Some (s, - EIO, [])
     else do {
       (s, fd) \<leftarrow> io_file s (mcachefs_file_getfd (io_fenv e s) (tw_file (v_world s)) f use_real O_RDONLY);
       if fd < 0 then Some (s, - EIO, [])
       else do {
         let (res, buf) = host_pread (io_host s) (fw_ino (tw_file (v_world s)) fd) n offset;
         s \<leftarrow> (if res < 0 then Some s else io_file_only s (upd_source (tw_file (v_world s)) f use_real (count_read res)));
         s \<leftarrow> io_file_only s (mcachefs_file_putfd (tw_file (v_world s)) f (int use_real));
         s \<leftarrow> (if res > 0
               then io_file_only s (mcachefs_file_update_metadata (io_fenv e s) (tw_file (v_world s)) f 0 False)
               else Some s);
         s \<leftarrow> (if res \<noteq> c_int (int n) then do {
                 (s, mdata) \<leftarrow> io_file s (mcachefs_file_get_metadata (io_fenv e s) (tw_file (v_world s)) f);
                 Some s
               }
               else Some s);
         Some (s, res, buf)
       }
     }
   }"

definition mcachefs_read_mfile :: "ienv \<Rightarrow> ioworld \<Rightarrow> fh \<Rightarrow> nat \<Rightarrow> int \<Rightarrow> (ioworld \<times> int \<times> string) option" where
  "mcachefs_read_mfile e s f n offset = do {
     m \<leftarrow> ldf (io_ms s) f (\<lambda>m. m);
     if mf_type m = VopsType then do {
       b \<leftarrow> (if mf_contents m \<noteq> None \<and> offset < 0 then Bug else mcachefs_read_vops m n (nat offset));
       Some (s, int (length b), b)
     }
     else if mf_type m = FileType then mcachefs_read_file e s f n offset
     else Some (s, - ENOSYS, [])
   }"

section \<open>Writing\<close>

text \<open>The wait for the copy to be complete, a second at a time; the result is that of the wait.\<close>

partial_function (option) write_wait_loop :: "ienv \<Rightarrow> fh \<Rightarrow> ioworld \<Rightarrow> (ioworld \<times> int) option" where
  "write_wait_loop e f s = do {
     st \<leftarrow> ldf (io_ms s) f mf_cache_status;
     if st = BackingDone then Some (s, 0)
     else if st = BackingError then Some (s, - EIO)
     else write_wait_loop e f (ie_others e s)
   }"

declare write_wait_loop.simps [code]

definition count_written :: "int \<Rightarrow> file_source \<Rightarrow> file_source" where
  "count_written bytes src = src\<lparr>src_nbwr := src_nbwr src + 1, src_byteswr := src_byteswr src + nat bytes\<rparr>"

text \<open>The first write since the file was opened puts an fsync into the journal.\<close>

definition write_mark_dirty :: "ienv \<Rightarrow> ioworld \<Rightarrow> fh \<Rightarrow> ioworld option" where
  "write_mark_dirty e s f = do {
     m \<leftarrow> ldf (io_ms s) f (\<lambda>m. m);
     if \<not> mf_dirty m then do {
       s \<leftarrow> io_upd_mfile s f (\<lambda>m. m\<lparr>mf_dirty := True\<rparr>);
       path \<leftarrow> file_path (v_world s) f;
       io_journal e s OpFsync path [] zero_entry
     }
     else Some s
   }"

text \<open>\<open>pwrite\<close> on a descriptor that may be a negative error number.\<close>

definition fd_pwrite :: "ioworld \<Rightarrow> int \<Rightarrow> string \<Rightarrow> int \<Rightarrow> ioworld \<times> int" where
  "fd_pwrite s fd buf offset =
     (if fd < 0 then (s, - EBADF)
      else let (h, r) = host_pwrite (io_host s) (fw_ino (tw_file (v_world s)) fd) buf offset
        in (io_with_host s h, r))"

definition mcachefs_write_file :: "ienv \<Rightarrow> ioworld \<Rightarrow> fh \<Rightarrow> string \<Rightarrow> int \<Rightarrow> (ioworld \<times> int) option" where
  "mcachefs_write_file e s f buf offset = do {
     (s, res) \<leftarrow> write_wait_loop e f s;
     if res \<noteq> 0 then Some (s, res)
     else do {
       (s, fd) \<leftarrow> io_file s (mcachefs_file_getfd (io_fenv e s) (tw_file (v_world s)) f 0 O_RDWR);
       if fd = -1 then Some (s, - EIO)
       else do {
         let (s, r) = fd_pwrite s fd buf offset;
         let bytes = (if r < 0 then -1 else r);
         let errno = (if r < 0 then - r else ie_errno e);
         s \<leftarrow> io_file_only s (mcachefs_file_putfd (tw_file (v_world s)) f 0);
         if bytes \<noteq> c_int (int (length buf)) then Some (s, - errno)
         else do {
           s \<leftarrow> io_file_only s (upd_source (tw_file (v_world s)) f 0 (count_written bytes));
           s \<leftarrow> write_mark_dirty e s f;
           s \<leftarrow> io_file_only s (mcachefs_file_update_metadata (io_fenv e s) (tw_file (v_world s)) f
                 (offset + int (length buf)) True);
           Some (s, c_int bytes)
         }
       }
     }
   }"

definition mcachefs_write_mfile :: "ienv \<Rightarrow> ioworld \<Rightarrow> fh \<Rightarrow> string \<Rightarrow> int \<Rightarrow> (ioworld \<times> int) option" where
  "mcachefs_write_mfile e s f buf offset = do {
     m \<leftarrow> ldf (io_ms s) f (\<lambda>m. m);
     if mf_type m = VopsType then do {
       (m, n) \<leftarrow> (if offset < 0 then Bug else mcachefs_write_vops (ie_junk e) m buf (nat offset));
       s \<leftarrow> io_upd_mfile s f (\<lambda>_. m);
       Some (s, c_int (int n))
     }
     else if mf_type m = FileType then mcachefs_write_file e s f buf offset
     else Some (s, - ENOSYS)
   }"

section \<open>Releasing\<close>

text \<open>The host's \<open>fsync\<close> changes nothing that the program sees; its failure is only logged.\<close>

definition mcachefs_fsync_mfile :: "ioworld \<Rightarrow> fh \<Rightarrow> int option" where
  "mcachefs_fsync_mfile s f = do {
     m \<leftarrow> ldf (io_ms s) f (\<lambda>m. m);
     Some 0
   }"

definition mcachefs_release_mfile :: "ienv \<Rightarrow> ioworld \<Rightarrow> fh \<Rightarrow> fuse_file_info \<Rightarrow> (ioworld \<times> int) option" where
  "mcachefs_release_mfile e s f info = do {
     m \<leftarrow> ldf (io_ms s) f (\<lambda>m. m);
     s \<leftarrow> (if mf_type m = VopsType then
             if IS_WRITE (fi_flags info) then do {
               (m', s) \<leftarrow> mcachefs_vops_parse (ie_externs e) m s;
               io_upd_mfile s f (\<lambda>m. m\<lparr>mf_contents := mf_contents m'\<rparr>)
             }
             else io_upd_mfile s f mcachefs_vops_cleanup_vops
           else if mf_type m = FileType \<and> IS_WRITE (fi_flags info)
           then do { res \<leftarrow> mcachefs_fsync_mfile s f; Some s }
           else Some s);
     s \<leftarrow> io_file_only s (mcachefs_fileid_put (tw_file (v_world s)) (fi_fh info));
     Some (s, 0)
   }"

end
