(* ===== verification/Lowlevel.thy ===== *)
theory Lowlevel
  imports File_Io Transfer_Threads
begin

text \<open>
  The handlers of src/src/mcachefs-lowlevel.c that FUSE calls: each on the whole state, with the
  entry of the metafile, the file of the cache and the record in the journal in the order of the
  code.  The result is that of the handler, 0 or minus an error number.
\<close>

section \<open>Lookups\<close>

definition io_find :: "ienv \<Rightarrow> ioworld \<Rightarrow> string \<Rightarrow> (ioworld \<times> mid) option" where
  "io_find e s path = do {
     (m, mdata) \<leftarrow> mcachefs_metadata_find_locked (io_env e s) (io_ms s) path;
     Some (io_with_ms s m, mdata)
   }"

definition io_upd :: "ioworld \<Rightarrow> mid \<Rightarrow> (metadata \<Rightarrow> metadata) \<Rightarrow> ioworld option" where
  "io_upd s mdata g = map_option (io_with_ms s) (upd (io_ms s) mdata g)"

definition io_fileincache :: "ioworld \<Rightarrow> string \<Rightarrow> bool option" where
  "io_fileincache s path = mcachefs_fileincache (v_config s) (io_host s) path"

definition io_makepath_cache :: "ioworld \<Rightarrow> string \<Rightarrow> string option" where
  "io_makepath_cache s path = mcachefs_makepath_cache (v_config s) path"

text \<open>\<open>mcachefs_createpath_cache(path, 0)\<close>.\<close>

definition io_createpath_cache :: "ioworld \<Rightarrow> string \<Rightarrow> (ioworld \<times> int) option" where
  "io_createpath_cache s path = do {
     (h, res) \<leftarrow> mcachefs_createpath_cache (v_config s) path False (io_host s);
     Some (io_with_host s h, res)
   }"

text \<open>The paths of the virtual files start with \<open>/.mcachefs/\<close>.\<close>

definition MCACHEFS_VOPS_FILE_PREFIX :: string where "MCACHEFS_VOPS_FILE_PREFIX = ''/.mcachefs/''"

definition IS_VOPS_FILE :: "string \<Rightarrow> bool" where
  "IS_VOPS_FILE path \<longleftrightarrow> strncmp_eq path MCACHEFS_VOPS_FILE_PREFIX 11"

definition mcachefs_getattr :: "ienv \<Rightarrow> ioworld \<Rightarrow> string \<Rightarrow> (ioworld \<times> (int + stat)) option" where
  "mcachefs_getattr e s path = do {
     (m, r) \<leftarrow> mcachefs_metadata_getattr (io_env e s) (io_ms s) path;
     Some (io_with_ms s m, r)
   }"

section \<open>Reading a directory\<close>

text \<open>\<open>filler\<close> adds a name to the buffer of FUSE; a result that is not 0 stops the reading.\<close>

partial_function (option) readdir_loop ::
  "mstate \<Rightarrow> ('b \<Rightarrow> string \<Rightarrow> stat \<Rightarrow> 'b \<times> int) \<Rightarrow> mid \<Rightarrow> 'b \<Rightarrow> int \<Rightarrow> ('b \<times> int) option" where
  "readdir_loop s filler mchild buf res =
     (if mchild = 0 then Some (buf, res)
      else do {
        m \<leftarrow> ld s mchild (\<lambda>m. m);
        let (buf, res) = filler buf (md_d_name m) (md_st m);
        if res \<noteq> 0 then Some (buf, res)
        else do {
          next_child \<leftarrow> do_get s (md_next m);
          readdir_loop s filler next_child buf res
        }
      })"

declare readdir_loop.simps [code]

definition mcachefs_readdir ::
  "ienv \<Rightarrow> ioworld \<Rightarrow> ('b \<Rightarrow> string \<Rightarrow> stat \<Rightarrow> 'b \<times> int) \<Rightarrow> string \<Rightarrow> 'b \<Rightarrow> (ioworld \<times> 'b \<times> int) option" where
  "mcachefs_readdir e s filler path buf =
     (let st = zero_stat\<lparr>st_mode := 0x4000\<rparr>;
          (buf, res) = filler buf ''.'' st
      in if res \<noteq> 0 then Some (s, buf, res)
      else let (buf, res) = filler buf ''..'' st
      in if res \<noteq> 0 then Some (s, buf, res)
      else do {
        (s, mfather) \<leftarrow> io_find e s path;
        if mfather = 0 then Some (s, buf, - ENOENT)
        else do {
          (m, mchild) \<leftarrow> mcachefs_metadata_get_child (io_env e s) (io_ms s) mfather;
          (buf, res) \<leftarrow> readdir_loop m filler mchild buf res;
          Some (io_with_ms s m, buf, res)
        }
      })"

section \<open>Symbolic links\<close>

text \<open>
  The buffer holds the link without an end of string when the link fills it; the copy of the link
  for the cache then runs past the buffer.
\<close>

definition mcachefs_readlink :: "ienv \<Rightarrow> ioworld \<Rightarrow> string \<Rightarrow> nat \<Rightarrow> (ioworld \<times> string \<times> int) option" where
  "mcachefs_readlink e s path n = do {
     let buf = replicate n NUL;
     (s, mdata) \<leftarrow> io_find e s path;
     if mdata = 0 then Some (s, buf, - ENOENT)
     else do {
       mode \<leftarrow> ld (io_ms s) mdata md_mode;
       if \<not> S_ISLNK mode then Some (s, buf, - EINVAL)
       else do {
         backingpath \<leftarrow> io_makepath_cache s path;
         case host_readlink (io_host s) backingpath n of
           Inr t \<Rightarrow> Some (s, t @ replicate (n - length t) NUL, 0)
         | Inl _ \<Rightarrow> do {
             realpath \<leftarrow> mcachefs_makepath_source (v_config s) path;
             case host_readlink (io_host s) realpath n of
               Inl errno \<Rightarrow> Some (s, buf, - errno)
             | Inr t \<Rightarrow> do {
                 let buf = t @ replicate (n - length t) NUL;
                 (s, res) \<leftarrow> io_createpath_cache s path;
                 target \<leftarrow> c_string buf;
                 Some (io_with_host s (fst (host_symlink (io_host s) target backingpath)), buf, 0)
               }
           }
       }
     }
   }"

text \<open>\<open>path\<close> is what the link says, \<open>to\<close> the link; the directories are created twice.\<close>

definition mcachefs_symlink :: "ienv \<Rightarrow> ioworld \<Rightarrow> string \<Rightarrow> string \<Rightarrow> (ioworld \<times> int) option" where
  "mcachefs_symlink e s path to = do {
     (m, res) \<leftarrow> mcachefs_metadata_make_entry (io_env e s) (io_ms s) to 0xA1FF 0;
     let s = io_with_ms s m;
     if res \<noteq> 0 then Some (s, - res)
     else do {
       (s, res) \<leftarrow> io_createpath_cache s to;
       if res \<noteq> 0 then Some (s, res)
       else do {
         backingto \<leftarrow> io_makepath_cache s to;
         (s, res) \<leftarrow> io_createpath_cache s to;
         let (h, errno) = host_symlink (io_host s) path backingto;
         let s = io_with_host s h;
         if errno \<noteq> 0 then do {
           (m, res) \<leftarrow> mcachefs_metadata_rmdir_unlink (io_env e s) (io_ms s) to False;
           Some (io_with_ms s m, - errno)
         }
         else do {
           s \<leftarrow> io_journal e s OpSymlink to path zero_entry;
           Some (s, 0)
         }
       }
     }
   }"

section \<open>Creating\<close>

definition mcachefs_mknod :: "ienv \<Rightarrow> ioworld \<Rightarrow> string \<Rightarrow> nat \<Rightarrow> nat \<Rightarrow> (ioworld \<times> int) option" where
  "mcachefs_mknod e s path mode rdev = do {
     (m, res) \<leftarrow> mcachefs_metadata_make_entry (io_env e s) (io_ms s) path mode rdev;
     let s = io_with_ms s m;
     if res \<noteq> 0 then Some (s, res)
     else do {
       s \<leftarrow> io_journal e s OpMknod path [] (zero_entry\<lparr>je_mode := int mode, je_rdev := int rdev,
             je_uid := int (env_uid (io_env e s)), je_gid := int (env_gid (io_env e s))\<rparr>);
       if S_ISREG mode then do {
         (h, res) \<leftarrow> mcachefs_createfile_cache (v_config s) (te_ino (ie_transfer e) (io_host s)) path (io_host s);
         Some (io_with_host s h, if res \<noteq> 0 then res else 0)
       }
       else Some (s, 0)
     }
   }"

text \<open>\<open>mode | S_IFDIR\<close>.\<close>

definition dir_mode :: "nat \<Rightarrow> nat" where
  "dir_mode mode = unat (or (of_nat mode) 0x4000 :: 32 word)"

definition mcachefs_mkdir :: "ienv \<Rightarrow> ioworld \<Rightarrow> string \<Rightarrow> nat \<Rightarrow> (ioworld \<times> int) option" where
  "mcachefs_mkdir e s path mode = do {
     (m, res) \<leftarrow> mcachefs_metadata_make_entry (io_env e s) (io_ms s) path (dir_mode mode) 0;
     let s = io_with_ms s m;
     if res \<noteq> 0 then Some (s, res)
     else do {
       s \<leftarrow> io_journal e s OpMkdir path [] (zero_entry\<lparr>je_mode := int mode,
             je_uid := int (env_uid (io_env e s)), je_gid := int (env_gid (io_env e s))\<rparr>);
       Some (s, 0)
     }
   }"

section \<open>Removing\<close>

definition mcachefs_unlink :: "ienv \<Rightarrow> ioworld \<Rightarrow> string \<Rightarrow> (ioworld \<times> int) option" where
  "mcachefs_unlink e s path = do {
     (m, res) \<leftarrow> mcachefs_metadata_rmdir_unlink (io_env e s) (io_ms s) path False;
     let s = io_with_ms s m;
     if res \<noteq> 0 then Some (s, res)
     else do {
       cached \<leftarrow> io_fileincache s path;
       s \<leftarrow> (if cached then do {
               backingpath \<leftarrow> io_makepath_cache s path;
               Some (io_with_host s (fst (host_unlink (io_host s) backingpath)))
             }
             else Some s);
       s \<leftarrow> io_journal e s OpUnlink path [] zero_entry;
       Some (s, 0)
     }
   }"

definition mcachefs_rmdir :: "ienv \<Rightarrow> ioworld \<Rightarrow> string \<Rightarrow> (ioworld \<times> int) option" where
  "mcachefs_rmdir e s path = do {
     (m, res) \<leftarrow> mcachefs_metadata_rmdir_unlink (io_env e s) (io_ms s) path True;
     let s = io_with_ms s m;
     if res \<noteq> 0 then Some (s, res)
     else do {
       s \<leftarrow> io_journal e s OpRmdir path [] zero_entry;
       cached \<leftarrow> io_fileincache s path;
       s \<leftarrow> (if cached then do {
               backingpath \<leftarrow> io_makepath_cache s path;
               Some (io_with_host s (fst (host_rmdir (io_host s) backingpath)))
             }
             else Some s);
       Some (s, 0)
     }
   }"

section \<open>Renaming and linking\<close>

definition mcachefs_rename :: "ienv \<Rightarrow> ioworld \<Rightarrow> string \<Rightarrow> string \<Rightarrow> (ioworld \<times> int) option" where
  "mcachefs_rename e s path to = do {
     (m, res) \<leftarrow> mcachefs_metadata_rename_entry (io_env e s) (io_ms s) path to;
     let s = io_with_ms s m;
     if res \<noteq> 0 then Some (s, res)
     else do {
       s \<leftarrow> io_journal e s OpRename path to zero_entry;
       cached \<leftarrow> io_fileincache s path;
       s \<leftarrow> (if cached then do {
               backingpath \<leftarrow> io_makepath_cache s path;
               backingto \<leftarrow> io_makepath_cache s to;
               (s, res) \<leftarrow> io_createpath_cache s to;
               Some (io_with_host s (fst (host_rename (io_host s) backingpath backingto)))
             }
             else Some s);
       Some (s, 0)
     }
   }"

text \<open>\<open>st_nlink++\<close> on a 64-bit count.  The device of the new entry is that of the stat, which is not kept.\<close>

definition incr_nlink :: "metadata \<Rightarrow> metadata" where
  "incr_nlink m = m\<lparr>md_st := (md_st m)\<lparr>st_nlink := (st_nlink (md_st m) + 1) mod 2 ^ 64\<rparr>\<rparr>"

definition mcachefs_link :: "ienv \<Rightarrow> (stat \<Rightarrow> nat) \<Rightarrow> ioworld \<Rightarrow> string \<Rightarrow> string \<Rightarrow> (ioworld \<times> int) option" where
  "mcachefs_link e st_dev s from_path to = do {
     (s, meta) \<leftarrow> io_find e s from_path;
     if meta = 0 then Some (s, - ENOENT)
     else do {
       fromm \<leftarrow> ld (io_ms s) meta (\<lambda>m. m);
       backingfrom \<leftarrow> io_makepath_cache s from_path;
       backingto \<leftarrow> io_makepath_cache s to;
       let (h, errno) = host_link (io_host s) backingfrom backingto;
       let s = io_with_host s h;
       if errno \<noteq> 0 then Some (s, - errno)
       else do {
         (m, res) \<leftarrow> mcachefs_metadata_make_entry (io_env e s) (io_ms s) to (md_mode fromm) (st_dev (md_st fromm));
         let s = io_with_ms s m;
         if res \<noteq> 0 then Some (s, res)
         else do {
           (s, meta) \<leftarrow> io_find e s to;
           toid \<leftarrow> ld (io_ms s) meta md_id;
           s \<leftarrow> io_upd s meta (\<lambda>m. incr_nlink (m\<lparr>md_st := md_st fromm,
                 md_hardlink := (if md_hardlink fromm \<noteq> 0 then md_hardlink fromm else md_id fromm)\<rparr>));
           (s, meta) \<leftarrow> io_find e s from_path;
           s \<leftarrow> io_upd s meta (\<lambda>m. (incr_nlink m)\<lparr>md_hardlink := toid\<rparr>);
           s \<leftarrow> io_journal e s OpLink from_path to zero_entry;
           Some (s, 0)
         }
       }
     }
   }"

section \<open>Attributes\<close>

text \<open>The permissions, 0777, are replaced.\<close>

definition chmod_mode :: "nat \<Rightarrow> nat \<Rightarrow> nat" where
  "chmod_mode old mode = (let umask = 0x1FF :: 32 word in
     unat (or (and (of_nat old) (not umask)) (and (of_nat mode) umask)))"

definition mcachefs_chmod :: "ienv \<Rightarrow> ioworld \<Rightarrow> string \<Rightarrow> nat \<Rightarrow> (ioworld \<times> int) option" where
  "mcachefs_chmod e s path mode = do {
     (s, mdata) \<leftarrow> io_find e s path;
     if mdata = 0 then Some (s, - ENOENT)
     else do {
       s \<leftarrow> io_upd s mdata (\<lambda>m. m\<lparr>md_st := (md_st m)\<lparr>st_mode := chmod_mode (md_mode m) mode\<rparr>\<rparr>);
       m \<leftarrow> mcachefs_metadata_notify_update (io_ms s) mdata;
       s \<leftarrow> io_journal e (io_with_ms s m) OpChmod path [] (zero_entry\<lparr>je_mode := int mode\<rparr>);
       Some (s, 0)
     }
   }"

text \<open>\<open>(uid_t) -1\<close> keeps the owner.\<close>

definition NO_ID :: nat where "NO_ID = 0xFFFFFFFF"

definition mcachefs_chown :: "ienv \<Rightarrow> ioworld \<Rightarrow> string \<Rightarrow> nat \<Rightarrow> nat \<Rightarrow> (ioworld \<times> int) option" where
  "mcachefs_chown e s path uid gid =
     (if IS_VOPS_FILE path then Some (s, - ENOSYS)
      else do {
        (s, mdata) \<leftarrow> io_find e s path;
        if mdata = 0 then Some (s, - ENOENT)
        else do {
          st \<leftarrow> ld (io_ms s) mdata md_st;
          let uid = (if uid = NO_ID then st_uid st else uid);
          let gid = (if gid = NO_ID then st_gid st else gid);
          s \<leftarrow> io_upd s mdata (\<lambda>m. m\<lparr>md_st := (md_st m)\<lparr>st_uid := uid, st_gid := gid\<rparr>\<rparr>);
          m \<leftarrow> mcachefs_metadata_notify_update (io_ms s) mdata;
          s \<leftarrow> io_journal e (io_with_ms s m) OpChown path [] (zero_entry\<lparr>je_uid := int uid, je_gid := int gid\<rparr>);
          Some (s, 0)
        }
      })"

text \<open>A virtual file that is open elsewhere is waited for, three seconds at a time, then emptied.\<close>

partial_function (option) vops_use_loop :: "ienv \<Rightarrow> fh \<Rightarrow> ioworld \<Rightarrow> ioworld option" where
  "vops_use_loop e f s = do {
     u \<leftarrow> ldf (io_ms s) f mf_use;
     if u > 1 then vops_use_loop e f (ie_others e s) else Some s
   }"

declare vops_use_loop.simps [code]

definition truncate_cached :: "ioworld \<Rightarrow> string \<Rightarrow> int \<Rightarrow> ioworld option" where
  "truncate_cached s path n = do {
     cached \<leftarrow> io_fileincache s path;
     if cached then do {
       backingpath \<leftarrow> io_makepath_cache s path;
       Some (io_with_host s (fst (host_truncate (io_host s) backingpath n)))
     }
     else Some s
   }"

definition mcachefs_truncate :: "ienv \<Rightarrow> ioworld \<Rightarrow> string \<Rightarrow> int \<Rightarrow> (ioworld \<times> int) option" where
  "mcachefs_truncate e s path n = do {
     (s, mdata) \<leftarrow> io_find e s path;
     if mdata = 0 then Some (s, - ENOENT)
     else do {
       s \<leftarrow> io_upd s mdata (\<lambda>m. m\<lparr>md_st := (md_st m)\<lparr>st_size := n\<rparr>\<rparr>);
       f \<leftarrow> ld (io_ms s) mdata md_fh;
       isvops \<leftarrow> (if f \<noteq> 0 then do { t \<leftarrow> ldf (io_ms s) f mf_type; Some (t = VopsType) } else Some False);
       if isvops then do {
         s \<leftarrow> vops_use_loop e f s;
         s \<leftarrow> io_upd_mfile s f (\<lambda>m. m\<lparr>mf_contents_size := 0, mf_contents_alloced := 0, mf_contents := None\<rparr>);
         Some (s, 0)
       }
       else if IS_VOPS_FILE path then Some (s, 0)
       else do {
         s \<leftarrow> io_journal e s OpTruncate path [] (zero_entry\<lparr>je_size := n\<rparr>);
         s \<leftarrow> truncate_cached s path n;
         Some (s, 0)
       }
     }
   }"

definition mcachefs_utime :: "ienv \<Rightarrow> ioworld \<Rightarrow> string \<Rightarrow> int \<times> int \<Rightarrow> (ioworld \<times> int) option" where
  "mcachefs_utime e s path buf = do {
     (s, mdata) \<leftarrow> io_find e s path;
     if mdata = 0 then Some (s, - ENOENT)
     else do {
       s \<leftarrow> io_upd s mdata (\<lambda>m. m\<lparr>md_st := (md_st m)\<lparr>st_atime := fst buf, st_mtime := snd buf\<rparr>\<rparr>);
       s \<leftarrow> io_journal e s OpUtime path [] (zero_entry\<lparr>je_actime := fst buf, je_modtime := snd buf\<rparr>);
       Some (s, 0)
     }
   }"

section \<open>Open files\<close>

definition mcachefs_open :: "ienv \<Rightarrow> ioworld \<Rightarrow> string \<Rightarrow> fuse_file_info \<Rightarrow> (ioworld \<times> fuse_file_info \<times> int) option" where
  "mcachefs_open e s path info = do {
     (s, mdata) \<leftarrow> io_find e s path;
     if mdata = 0 then Some (s, info, - ENOENT)
     else do {
       mode \<leftarrow> ld (io_ms s) mdata md_mode;
       if \<not> S_ISREG mode then Some (s, info, - EISDIR)
       else do {
         let type = (if IS_VOPS_FILE path then VopsType else FileType);
         (m, f) \<leftarrow> mcachefs_fileid_get (io_fenv e s) (io_ms s) mdata (Some path) type;
         let s = io_with_ms s m;
         let info = info\<lparr>fi_fh := f\<rparr>;
         if f = 0 then Some (s, info, - ENOMEM)
         else mcachefs_open_mfile e s f info type
       }
     }
   }"

definition io_freshen :: "ioworld \<Rightarrow> fh \<Rightarrow> ioworld option" where
  "io_freshen s f = map_option (io_with_ms s) (mcachefs_file_timeslice_freshen (io_ms s) f)"

definition mcachefs_read ::
  "ienv \<Rightarrow> ioworld \<Rightarrow> nat \<Rightarrow> int \<Rightarrow> fuse_file_info \<Rightarrow> (ioworld \<times> int \<times> string) option" where
  "mcachefs_read e s n offset info =
     (if fi_fh info = 0 then Some (s, - EBADF, [])
      else do { s \<leftarrow> io_freshen s (fi_fh info); mcachefs_read_mfile e s (fi_fh info) n offset })"

definition mcachefs_write ::
  "ienv \<Rightarrow> ioworld \<Rightarrow> string \<Rightarrow> int \<Rightarrow> fuse_file_info \<Rightarrow> (ioworld \<times> int) option" where
  "mcachefs_write e s buf offset info =
     (if buf = [] then Some (s, 0)
      else if fi_fh info = 0 then Some (s, - EBADF)
      else do { s \<leftarrow> io_freshen s (fi_fh info); mcachefs_write_mfile e s (fi_fh info) buf offset })"

definition mcachefs_fsync :: "ioworld \<Rightarrow> fuse_file_info \<Rightarrow> int option" where
  "mcachefs_fsync s info = (if fi_fh info = 0 then Some (- EBADF) else mcachefs_fsync_mfile s (fi_fh info))"

definition mcachefs_release :: "ienv \<Rightarrow> ioworld \<Rightarrow> fuse_file_info \<Rightarrow> (ioworld \<times> int) option" where
  "mcachefs_release e s info =
     (if fi_fh info = 0 then Some (s, - EBADF) else mcachefs_release_mfile e s (fi_fh info) info)"

section \<open>Start and end\<close>

text \<open>The threads that are started, and the journal that must not be in the middle of a synchronisation.\<close>

definition mcachefs_init :: "ioworld \<Rightarrow> (ioworld \<times> transfer_thread list) option" where
  "mcachefs_init s = do {
     j \<leftarrow> mcachefs_journal_init (tw_journal (v_world s));
     Some (s\<lparr>v_world := (v_world s)\<lparr>tw_journal := j\<rparr>\<rparr>, mcachefs_transfer_start_threads (v_config s))
   }"

text \<open>
  The state is quitting before the threads are stopped; the system of the threads is given as it is
  then.  The last result is that of the command, run by \<open>system\<close>, which the code drops.
\<close>

definition mcachefs_destroy ::
  "(string \<Rightarrow> int) \<Rightarrow> ioworld \<Rightarrow> transfer_system \<Rightarrow> (ioworld \<times> transfer_system \<times> int) option" where
  "mcachefs_destroy run s sys = do {
     let s = s\<lparr>v_config := mcachefs_config_set_read_state (read_state_code StateQuitting) (v_config s)\<rparr>;
     sys \<leftarrow> mcachefs_transfer_stop_threads (sys\<lparr>sys_read_state := cfg_read_state (v_config s)\<rparr>);
     Some (s, sys, mcachefs_config_run_post_umount_cmd run (v_config s))
   }"

section \<open>The table of operations\<close>

text \<open>The requests that change the file system by path; \<open>mcachefs_oper\<close> has a handler for each.\<close>

datatype fuse_request = Mknod string nat nat | Mkdir string nat | Unlink string | Rmdir string
  | Symlink string string | Rename string string | Link string string | Chmod string nat
  | Chown string nat nat | Truncate string int | Utime string "int \<times> int"

fun mcachefs_oper :: "ienv \<Rightarrow> (stat \<Rightarrow> nat) \<Rightarrow> fuse_request \<Rightarrow> ioworld \<Rightarrow> (ioworld \<times> int) option" where
  "mcachefs_oper e dev (Mknod path mode rdev) s = mcachefs_mknod e s path mode rdev"
| "mcachefs_oper e dev (Mkdir path mode) s = mcachefs_mkdir e s path mode"
| "mcachefs_oper e dev (Unlink path) s = mcachefs_unlink e s path"
| "mcachefs_oper e dev (Rmdir path) s = mcachefs_rmdir e s path"
| "mcachefs_oper e dev (Symlink path to) s = mcachefs_symlink e s path to"
| "mcachefs_oper e dev (Rename path to) s = mcachefs_rename e s path to"
| "mcachefs_oper e dev (Link path to) s = mcachefs_link e dev s path to"
| "mcachefs_oper e dev (Chmod path mode) s = mcachefs_chmod e s path mode"
| "mcachefs_oper e dev (Chown path uid gid) s = mcachefs_chown e s path uid gid"
| "mcachefs_oper e dev (Truncate path n) s = mcachefs_truncate e s path n"
| "mcachefs_oper e dev (Utime path buf) s = mcachefs_utime e s path buf"

end
