(* ===== verification/Io_Run.thy ===== *)
theory Io_Run
  imports Lowlevel Transfer_Run Journal_Refine
begin

text \<open>
  Symbolic execution of reading and writing: the state is written as one file, the entries, the
  descriptors, the host and the journal, and each operation is an equation between such states.
\<close>

section \<open>Waiting\<close>

definition status_of :: "ioworld \<Rightarrow> fh \<Rightarrow> backing option" where
  "status_of s f = map_option mf_cache_status (files (io_ms s) f)"

text \<open>What the choice of the cache (0) or of the source (1) rests on.\<close>

definition choice_ok :: "ioworld \<Rightarrow> fh \<Rightarrow> nat \<Rightarrow> int \<Rightarrow> nat \<Rightarrow> bool" where
  "choice_ok s f n offset use_real \<longleftrightarrow> (\<exists>m. files (io_ms s) f = Some m \<and>
     (if use_real = 0 then mf_cache_status m = BackingDone \<or>
        mf_cache_status m = BackingInProgress \<and> offset + int n \<le> tr_transfered_size (mf_transfer m)
      else use_real = 1 \<and> mf_cache_status m \<noteq> BackingDone))"

lemma read_wait_loop_ends:
  assumes f: "f \<noteq> 0" and there: "\<And>k. k \<le> d \<Longrightarrow> files (io_ms ((ie_others e ^^ k) s)) f \<noteq> None"
    and waited: "waited + d = 10"
  shows "\<exists>k\<le>d. \<exists>u. read_wait_loop e f n offset waited s = Some ((ie_others e ^^ k) s, u) \<and>
    choice_ok ((ie_others e ^^ k) s) f n offset u"
  using there waited
proof (induction d arbitrary: s waited)
  case 0
  then obtain m where m: "files (io_ms s) f = Some m" by (metis funpow_0 le_refl not_None_eq)
  with f 0 show ?case
    by (intro exI [of _ 0], subst read_wait_loop.simps)
      (cases "mf_cache_status m"; simp add: choice_ok_def)
next
  case (Suc d)
  then obtain m where m: "files (io_ms s) f = Some m" by (metis funpow_0 le0 not_None_eq)
  show ?case
  proof (cases "mf_cache_status m = BackingInProgress \<and> tr_transfered_size (mf_transfer m) < offset + int n \<and>
      mcachefs_config_get_read_state (v_config s) \<noteq> read_state_code StateNocache")
    case True
    have "files (io_ms ((ie_others e ^^ k) (ie_others e s))) f \<noteq> None" if "k \<le> d" for k
      using Suc.prems(1) [of "Suc k"] that by (simp add: funpow_swap1)
    from Suc.IH [OF this, of "waited + 1"] Suc.prems(2) obtain k u where k: "k \<le> d"
      "read_wait_loop e f n offset (waited + 1) (ie_others e s) = Some ((ie_others e ^^ k) (ie_others e s), u)"
      "choice_ok ((ie_others e ^^ k) (ie_others e s)) f n offset u" by auto
    moreover have "read_wait_loop e f n offset waited s = read_wait_loop e f n offset (waited + 1) (ie_others e s)"
      using True f m Suc.prems(2) by (subst read_wait_loop.simps) simp
    ultimately show ?thesis by (intro exI [of _ "Suc k"]) (auto simp: funpow_swap1)
  next
    case False
    with f m show ?thesis
      by (intro exI [of _ 0], subst read_wait_loop.simps)
        (cases "mf_cache_status m"; auto simp: choice_ok_def)
  qed
qed

text \<open>A write that returns has found the copy complete or failed.\<close>

lemma write_wait_loop_returns:
  assumes "write_wait_loop e f s = Some r"
  shows "\<exists>k. status_of ((ie_others e ^^ k) s) f \<in> {Some BackingDone, Some BackingError}"
proof -
  let ?P = "\<lambda>e f s r. \<exists>k. status_of ((ie_others e ^^ k) s) f \<in> {Some BackingDone, Some BackingError}"
  have "?P e f s r"
  proof (rule write_wait_loop.raw_induct [of ?P, OF _ assms(1)], goal_cases)
    case (1 wait e f s r)
    from 1(2) obtain m where m: "files (io_ms s) f = Some m"
      by (cases "files (io_ms s) f") (auto simp: ldf_def split: if_splits)
    show ?case
    proof (cases "mf_cache_status m \<in> {BackingDone, BackingError}")
      case True
      with m show ?thesis by (intro exI [of _ 0]) (auto simp: status_of_def)
    next
      case False
      with 1(2) m have "wait e f (ie_others e s) = Some r" by (auto simp: ldf_def split: if_splits)
      from 1(1) [OF this] obtain k where "status_of ((ie_others e ^^ k) (ie_others e s)) f \<in> {Some BackingDone, Some BackingError}"
        by blast
      then show ?thesis by (intro exI [of _ "Suc k"]) (simp add: funpow_swap1)
    qed
  qed
  then show ?thesis .
qed

section \<open>States\<close>

definition set_io :: "ioworld \<Rightarrow> fh \<Rightarrow> (mid \<Rightarrow> metadata) \<Rightarrow> journal \<Rightarrow> mfile \<Rightarrow> int list \<Rightarrow> (int \<Rightarrow> nat) \<Rightarrow> host \<Rightarrow> ioworld" where
  "set_io s f E j m fds ino h =
     s\<lparr>v_world := set_world (with_ms ((v_world s)\<lparr>tw_journal := j\<rparr>) ((io_ms s)\<lparr>entry := E\<rparr>)) f m fds ino h\<rparr>"

named_theorems io_simps \<open>operations on a state written with \<open>set_io\<close>\<close>

lemma set_io_id:
  assumes "files (io_ms s) f = Some m"
  shows "set_io s f (entry (io_ms s)) (tw_journal (v_world s)) m (fw_fds (tw_file (v_world s))) (fw_ino (tw_file (v_world s))) (io_host s) = s"
  using assms by (simp add: set_io_def set_world_def with_ms_def fun_upd_idem)

lemma set_io_sel [io_simps]:
  "v_config (set_io s f E j m fds ino h) = v_config s" "tw_journal (v_world (set_io s f E j m fds ino h)) = j"
  "io_host (set_io s f E j m fds ino h) = h" "fw_fds (tw_file (v_world (set_io s f E j m fds ino h))) = fds"
  "fw_ino (tw_file (v_world (set_io s f E j m fds ino h))) = ino"
  "files (io_ms (set_io s f E j m fds ino h)) f = Some m" "entry (io_ms (set_io s f E j m fds ino h)) = E"
  "io_tenv e (set_io s f E j m fds ino h) = io_tenv e s"
  "timeslice_current (io_ms (set_io s f E j m fds ino h)) = timeslice_current (io_ms s)"
  by (simp_all add: set_io_def io_tenv_def world_simps with_ms_def) (simp_all add: set_world_def)

lemma set_io_valid [io_simps]: "valid (io_ms (set_io s f E j m fds ino h)) i = valid (io_ms s) i"
  by (simp add: set_io_def set_world_def with_ms_def valid_def)

lemma ldf_set_io [io_simps]: "f \<noteq> 0 \<Longrightarrow> ldf (io_ms (set_io s f E j m fds ino h)) f g = Some (g m)"
  by (simp add: set_io_def world_simps)

lemma upd_mfile_set_io [io_simps]:
  "f \<noteq> 0 \<Longrightarrow> io_upd_mfile (set_io s f E j m fds ino h) f g = Some (set_io s f E j (g m) fds ino h)"
  by (simp add: io_upd_mfile_def io_world_def set_io_def world_simps)

lemma upd_source_set_io [io_simps]:
  "f \<noteq> 0 \<Longrightarrow> io_file_only (set_io s f E j m fds ino h) (upd_source (tw_file (v_world (set_io s f E j m fds ino h))) f r g) =
     Some (set_io s f E j (with_source r g m) fds ino h)"
  by (simp add: io_file_only_def io_world_def set_io_def world_simps)

lemma putfd_set_io [io_simps]:
  "f \<noteq> 0 \<Longrightarrow> 0 \<le> r \<Longrightarrow> r \<le> 1 \<Longrightarrow>
   io_file_only (set_io s f E j m fds ino h) (mcachefs_file_putfd (tw_file (v_world (set_io s f E j m fds ino h))) f r) =
     Some (set_io s f E j (with_source (nat r) (\<lambda>s. if src_use s = 0 then s else s\<lparr>src_use := src_use s - 1\<rparr>) m) fds ino h)"
  by (simp add: io_file_only_def io_world_def set_io_def world_simps)

lemma with_host_set_io [io_simps]: "io_with_host (set_io s f E j m fds ino h) h' = set_io s f E j m fds ino h'"
  by (simp add: io_with_host_def set_io_def world_simps)

lemma file_path_set_io [io_simps]: "f \<noteq> 0 \<Longrightarrow> file_path (v_world (set_io s f E j m fds ino h)) f = mf_path m"
  by (simp add: set_io_def world_simps)

lemma journal_set_io [io_simps]:
  "mcachefs_journal_append (ie_errno e) (ie_room e j) j op p t attrs = Some (j', room) \<Longrightarrow>
   io_journal e (set_io s f E j m fds ino h) op p t attrs = Some (set_io s f E j' m fds ino h)"
  by (simp add: io_journal_def set_io_def set_world_def with_ms_def)

lemma get_metadata_set_io [io_simps]:
  "f \<noteq> 0 \<Longrightarrow> mf_metadata_id m \<noteq> 0 \<Longrightarrow> valid (io_ms s) (mf_metadata_id m) \<Longrightarrow>
   io_file (set_io s f E j m fds ino h) (mcachefs_file_get_metadata fe (tw_file (v_world (set_io s f E j m fds ino h))) f) =
     Some (set_io s f E j m fds ino h, mf_metadata_id m)"
  by (simp add: io_file_def set_io_def world_simps with_ms_def valid_def)

lemma io_with_ms_same [simp]: "io_with_ms s (io_ms s) = s"
  by (simp add: io_with_ms_def with_ms_def)

lemma freshen_current:
  "f \<noteq> 0 \<Longrightarrow> files (io_ms s) f = Some m \<Longrightarrow> mf_timeslice m = int (timeslice_current (io_ms s)) \<Longrightarrow> io_freshen s f = Some s"
  by (simp add: io_freshen_def mcachefs_file_timeslice_freshen_def)

lemma freshen_set_io [io_simps]:
  "f \<noteq> 0 \<Longrightarrow> mf_timeslice m = int (timeslice_current (io_ms s)) \<Longrightarrow>
   io_freshen (set_io s f E j m fds ino h) f = Some (set_io s f E j m fds ino h)"
  by (rule freshen_current) (simp_all add: io_simps)

text \<open>The descriptor is opened, or the one that is open is used.\<close>

lemma getfd_open_set_io:
  assumes "f \<noteq> 0" "src_fd (mf_backing m) = -1" "mf_path m = Some path" "cfg_cache (v_config s) = Some pre"
    "mf_cache_status m = BackingDone" "h_nodes h (pre @ path) = Some (HReg i)" "willing h" "and flags O_CREAT = 0"
    and fd: "fd = lowest_free fds"
  shows "io_file (set_io s f E j m fds ino h)
      (mcachefs_file_getfd (io_fenv e (set_io s f E j m fds ino h)) (tw_file (v_world (set_io s f E j m fds ino h))) f 0 flags) =
    Some (set_io s f E j (with_source 0 (opened fd flags) m) (fd # fds) (ino(fd := i)) h, fd)"
proof -
  have "host_open h (mcachefs_makepath path pre) flags 0 = Inr i"
    using assms by (simp add: makepath_append willing_open_file)
  moreover have "cfg_cache (fe_config (io_fenv e (set_io s f E j m fds ino h))) = Some pre"
    using assms by (simp add: io_tenv_def file_env_def set_io_def)
  ultimately show ?thesis
    using getfd_set_world [OF assms(1), of 0 m flags path "io_fenv e (set_io s f E j m fds ino h)" pre h i fd fds _ ino] assms
    by (simp add: io_file_def set_io_def source_of_file_def)
qed

lemma getfd_reuse_set_io:
  assumes "f \<noteq> 0" "src_fd (mf_backing m) = fd" "fd \<noteq> -1" "mf_cache_status m = BackingDone" "and flags O_CREAT = 0"
    "(if IS_WRITE flags then 1 else 0) \<le> src_wr (mf_backing m)"
  shows "io_file (set_io s f E j m fds ino h)
      (mcachefs_file_getfd fe (tw_file (v_world (set_io s f E j m fds ino h))) f 0 flags) =
    Some (set_io s f E j (with_source 0 (\<lambda>src. src\<lparr>src_use := src_use src + 1\<rparr>) m) fds ino h, fd)"
proof -
  let ?v = "tw_file (v_world (set_io s f E j m fds ino h))"
  have v: "files (fw_ms ?v) f = Some m" by (simp add: io_simps)
  have "mcachefs_file_getfd fe ?v f 0 flags = Some (?v\<lparr>fw_ms := (fw_ms ?v)\<lparr>files := (files (fw_ms ?v))
      (f \<mapsto> with_source 0 (\<lambda>src. src\<lparr>src_use := src_use src + 1\<rparr>) m)\<rparr>\<rparr>, fd)"
    using assms v by (simp add: mcachefs_file_getfd_def mcachefs_file_getfd_mode_def mcachefs_file_do_open_def
        mcachefs_file_may_reuse_source_def source_of_file_def upd_source_eq with_source_def)
  then show ?thesis by (simp add: io_file_def in_file_def set_io_def set_world_def)
qed

text \<open>What reading and writing leave in the entry of a file without other links.\<close>

definition touched :: "int \<Rightarrow> int \<Rightarrow> bool \<Rightarrow> metadata \<Rightarrow> metadata" where
  "touched now sz modified md = md\<lparr>md_st := (md_st md)\<lparr>st_size := max (st_size (md_st md)) sz, st_atime := now,
     st_mtime := (if modified then now else st_mtime (md_st md))\<rparr>\<rparr>"

lemma touched_steps:
  fixes now :: int
  shows "(\<lambda>m. if modified then m\<lparr>md_st := (md_st m)\<lparr>st_mtime := now\<rparr>\<rparr> else m)
      ((\<lambda>m. m\<lparr>md_st := (md_st m)\<lparr>st_atime := now\<rparr>\<rparr>)
        (if st_size (md_st md) < sz then md\<lparr>md_st := (md_st md)\<lparr>st_size := sz\<rparr>\<rparr> else md)) = touched now sz modified md"
  by (cases md; cases "md_st md") (simp add: touched_def max_def)

lemma update_metadata_run:
  assumes "mcachefs_file_get_metadata fe v f = Some (v, d)" "d \<noteq> 0" "valid (fw_ms v) d"
    "st_nlink (md_st (entry (fw_ms v) d)) \<le> 1"
  shows "mcachefs_file_update_metadata fe v f sz modified = Some (v\<lparr>fw_ms := (fw_ms v)\<lparr>entry :=
    (entry (fw_ms v))(d := touched (env_now (fe_env fe)) sz modified (entry (fw_ms v) d))\<rparr>\<rparr>)"
proof -
  have nlink: "st_nlink (md_st (touched now z b (entry (fw_ms v) d))) \<le> 1" for now z b
    using assms(4) by (simp add: touched_def)
  have md: "(if modified then (\<lambda>m. m\<lparr>md_st := (md_st m)\<lparr>st_mtime := now\<rparr>\<rparr>) else (\<lambda>m. m))
      ((\<lambda>m. m\<lparr>md_st := (md_st m)\<lparr>st_atime := now\<rparr>\<rparr>)
        (if st_size (md_st m) < sz then m\<lparr>md_st := (md_st m)\<lparr>st_size := sz\<rparr>\<rparr> else m)) = touched now sz modified m" for now m
    using touched_steps [of modified now m sz] by (cases modified) simp_all
  define s1 where "s1 = (fw_ms v)\<lparr>entry := (entry (fw_ms v))(d := touched (env_now (fe_env fe)) sz modified (entry (fw_ms v) d))\<rparr>"
  have "mcachefs_metadata_notify_update s1 d = Some s1"
    using nlink assms(3) by (simp add: mcachefs_metadata_notify_update_def s1_def ld_def)
  moreover have "(do {
       s \<leftarrow> upd (fw_ms v) d (\<lambda>m. if st_size (md_st m) < sz then m\<lparr>md_st := (md_st m)\<lparr>st_size := sz\<rparr>\<rparr> else m);
       s \<leftarrow> upd s d (\<lambda>m. m\<lparr>md_st := (md_st m)\<lparr>st_atime := env_now (fe_env fe)\<rparr>\<rparr>);
       if modified then upd s d (\<lambda>m. m\<lparr>md_st := (md_st m)\<lparr>st_mtime := env_now (fe_env fe)\<rparr>\<rparr>) else Some s
     }) = Some s1"
    using assms(3) md [of "env_now (fe_env fe)" "entry (fw_ms v) d"]
    by (cases modified) (simp_all add: upd_valid s1_def)
  moreover have "mcachefs_file_update_metadata fe v f sz modified = Option.bind (do {
       s \<leftarrow> upd (fw_ms v) d (\<lambda>m. if st_size (md_st m) < sz then m\<lparr>md_st := (md_st m)\<lparr>st_size := sz\<rparr>\<rparr> else m);
       s \<leftarrow> upd s d (\<lambda>m. m\<lparr>md_st := (md_st m)\<lparr>st_atime := env_now (fe_env fe)\<rparr>\<rparr>);
       if modified then upd s d (\<lambda>m. m\<lparr>md_st := (md_st m)\<lparr>st_mtime := env_now (fe_env fe)\<rparr>\<rparr>) else Some s
     }) (\<lambda>s. do { s \<leftarrow> mcachefs_metadata_notify_update s d; Some (v\<lparr>fw_ms := s\<rparr>) })"
    using assms(1,2) by (simp add: mcachefs_file_update_metadata_def Let_def)
  ultimately show ?thesis by (simp add: s1_def)
qed

lemma update_metadata_set_io [io_simps]:
  assumes "f \<noteq> 0" "mf_metadata_id m = d" "d \<noteq> 0" "valid (io_ms s) d" "st_nlink (md_st (E d)) \<le> 1"
  shows "io_file_only (set_io s f E j m fds ino h)
      (mcachefs_file_update_metadata fe (tw_file (v_world (set_io s f E j m fds ino h))) f sz modified) =
    Some (set_io s f (E(d := touched (env_now (fe_env fe)) sz modified (E d))) j m fds ino h)"
proof -
  let ?v = "tw_file (v_world (set_io s f E j m fds ino h))"
  have get: "mcachefs_file_get_metadata fe ?v f = Some (?v, d)"
    using assms by (simp add: mcachefs_file_get_metadata_def set_io_def set_world_def with_ms_def
        mcachefs_metadata_do_get_def valid_def)
  have "valid (fw_ms ?v) d" using assms by (simp add: io_simps)
  from update_metadata_run [OF get assms(3) this] assms(5) show ?thesis
    by (simp add: io_simps) (simp add: io_file_only_def io_world_def in_file_only_def set_io_def set_world_def with_ms_def)
qed

section \<open>Reading and writing the cache\<close>

text \<open>The file is in the cache as the inode \<open>i\<close>; an open descriptor of it is one of that inode, for writing.\<close>

definition cached_file :: "ioworld \<Rightarrow> mfile \<Rightarrow> (int \<Rightarrow> nat) \<Rightarrow> host \<Rightarrow> nat \<Rightarrow> bool" where
  "cached_file s m ino h i \<longleftrightarrow> mf_type m = FileType \<and> mf_cache_status m = BackingDone \<and> i \<noteq> 0 \<and> willing h \<and>
     (\<exists>path pre. mf_path m = Some path \<and> cfg_cache (v_config s) = Some pre \<and> h_nodes h (pre @ path) = Some (HReg i)) \<and>
     (src_fd (mf_backing m) = -1 \<or> 0 \<le> src_fd (mf_backing m) \<and> ino (src_fd (mf_backing m)) = i \<and> 1 \<le> src_wr (mf_backing m)) \<and>
     mf_metadata_id m \<noteq> 0 \<and> valid (io_ms s) (mf_metadata_id m)"

lemma with_source_backing: "with_source 0 g m = m\<lparr>mf_backing := g (mf_backing m)\<rparr>"
  by (simp add: with_source_def)

lemma getfd_cached:
  assumes "cached_file s m ino h i" "f \<noteq> 0" "and flags O_CREAT = 0"
  shows "\<exists>src fds' ino'. io_file (set_io s f E j m fds ino h)
      (mcachefs_file_getfd (io_fenv e (set_io s f E j m fds ino h)) (tw_file (v_world (set_io s f E j m fds ino h))) f 0 flags) =
      Some (set_io s f E j (m\<lparr>mf_backing := src\<rparr>) fds' ino' h, src_fd src) \<and>
    0 \<le> src_fd src \<and> ino' (src_fd src) = i \<and> 0 < src_use src \<and> (IS_WRITE flags \<longrightarrow> 1 \<le> src_wr src) \<and>
    (src_fd (mf_backing m) \<noteq> -1 \<longrightarrow> 1 \<le> src_wr src)"
proof (cases "src_fd (mf_backing m) = -1")
  case True
  from assms(1) obtain path pre where p: "mf_path m = Some path" "cfg_cache (v_config s) = Some pre" "h_nodes h (pre @ path) = Some (HReg i)"
    "mf_cache_status m = BackingDone" "willing h"
    by (auto simp: cached_file_def)
  show ?thesis
    using getfd_open_set_io [OF assms(2) True p(1,2,4,3,5) assms(3) refl, of E j fds ino e] lowest_free_fresh [of fds]
    by (intro exI [of _ "opened (lowest_free fds) flags (mf_backing m)"] exI [of _ "lowest_free fds # fds"]
        exI [of _ "ino(lowest_free fds := i)"]) (auto simp: opened_def with_source_backing True)
next
  case False
  with assms(1) have "src_fd (mf_backing m) \<noteq> -1" "mf_cache_status m = BackingDone" "1 \<le> src_wr (mf_backing m)"
    "ino (src_fd (mf_backing m)) = i" "0 \<le> src_fd (mf_backing m)"
    by (auto simp: cached_file_def)
  then show ?thesis
    using getfd_reuse_set_io [OF assms(2) refl, of m flags s E j fds ino h] assms(3)
    by (intro exI [of _ "(mf_backing m)\<lparr>src_use := src_use (mf_backing m) + 1\<rparr>"] exI [of _ fds] exI [of _ ino])
      (auto simp: with_source_backing)
qed

lemma c_int_small: "n < 2 ^ 31 \<Longrightarrow> c_int (int n) = int n"
  unfolding c_int_def by (rule signed_take_bit_int_eq_self) auto

text \<open>Reading gives the bytes of the cache, and counts as an access.\<close>

lemma read_file_cached:
  assumes c: "cached_file s m ino h i" and f: "f \<noteq> 0" and n: "0 < n" "n < 2 ^ 31" "0 \<le> off" "nat off + n \<le> length (h_data h i)"
    and link: "st_nlink (md_st (E (mf_metadata_id m))) \<le> 1"
  shows "\<exists>src fds' ino' E'. mcachefs_read_file e (set_io s f E j m fds ino h) f n off =
      Some (set_io s f E' j (m\<lparr>mf_backing := src\<rparr>) fds' ino' h, int n, take n (drop (nat off) (h_data h i)))"
proof -
  have st: "mf_cache_status m = BackingDone" "mf_metadata_id m \<noteq> 0" "valid (io_ms s) (mf_metadata_id m)" "willing h" "i \<noteq> 0"
    using c by (auto simp: cached_file_def)
  have wait: "mcachefs_read_wait_accessible e (set_io s f E j m fds ino h) f n off = Some (set_io s f E j m fds ino h, 0)"
    using st f by (simp add: mcachefs_read_wait_accessible_def io_simps read_wait_loop.simps)
  from getfd_cached [OF c f, of O_RDONLY E j fds e] obtain src fds' ino' where g:
    "io_file (set_io s f E j m fds ino h) (mcachefs_file_getfd (io_fenv e (set_io s f E j m fds ino h))
       (tw_file (v_world (set_io s f E j m fds ino h))) f 0 O_RDONLY) =
      Some (set_io s f E j (m\<lparr>mf_backing := src\<rparr>) fds' ino' h, src_fd src)" "0 \<le> src_fd src" "ino' (src_fd src) = i"
    by (auto simp: O_RDONLY_def)
  have "length (take n (drop (nat off) (h_data h i))) = n" using n by simp
  moreover have "int n \<le> h_read_max h i off n" using st(4) by (simp add: willing_def)
  ultimately have pread: "host_pread h i n off = (int n, take n (drop (nat off) (h_data h i)))"
    using n st(5) by (simp add: host_pread_def Let_def)
  show ?thesis
    unfolding mcachefs_read_file_def
    using wait g f n st link
    by (simp add: io_simps pread c_int_small with_source_backing) blast
qed

text \<open>Writing puts the bytes into the cache, extends the size and sets the times of the entry, and marks
  the file: the first time a record of it goes into the journal.\<close>

definition fsync_record :: "string \<Rightarrow> jrecord" where
  "fsync_record path = (zero_entry\<lparr>je_op := op_code OpFsync\<rparr>, path, [])"

lemma wf_zero_record: "wf_path p \<Longrightarrow> wf_path t \<Longrightarrow> wf_record (zero_entry\<lparr>je_op := op_code op\<rparr>, p, t)"
  by (cases op) (simp_all add: wf_record_def wf_entry_def zero_entry_def)

lemma mark_dirty_ok:
  assumes f: "f \<noteq> 0" and path: "mf_path m = Some path" "wf_path path" and j: "journal_rep j rs"
    and room: "ENTRY_BYTES + length path \<le> ie_room e j"
  shows "\<exists>j'. write_mark_dirty e (set_io s f E j m fds ino h) f = Some (set_io s f E j' (m\<lparr>mf_dirty := True\<rparr>) fds ino h) \<and>
    journal_rep j' (if mf_dirty m then rs else rs @ [fsync_record path]) \<and> j_action j' = j_action j"
proof (cases "mf_dirty m")
  case True
  then have m: "m\<lparr>mf_dirty := True\<rparr> = m" by (cases m) simp
  show ?thesis unfolding m using True f j by (intro exI [of _ j]) (simp add: write_mark_dirty_def io_simps)
next
  case False
  have wf: "wf_record (fsync_record path)" unfolding fsync_record_def
    by (rule wf_zero_record) (use path(2) in \<open>simp_all add: wf_path_def PATH_MAX_def\<close>)
  from append_record_ok [OF j _ fsync_record_def wf, of "ie_room e j" "ie_errno e"] room obtain j' room' where
    "mcachefs_journal_append (ie_errno e) (ie_room e j) j OpFsync path [] zero_entry = Some (j', room')"
    "journal_rep j' (rs @ [fsync_record path])" "j_action j' = j_action j" by auto
  with False f path show ?thesis by (intro exI [of _ j']) (simp add: write_mark_dirty_def io_simps)
qed

lemma pwrite_willing:
  assumes "willing h" "i \<noteq> 0" "0 \<le> off" "buf \<noteq> []"
  shows "host_pwrite h i buf off = (h\<lparr>h_data := (h_data h)(i := write_at (h_data h i) (nat off) buf),
    h_mtime := (h_mtime h)(i := h_now h)\<rparr>, int (length buf))"
proof -
  have "int (length buf) \<le> h_write_max h i off (length buf)" using assms(1) by (simp add: willing_def)
  with assms show ?thesis by (simp add: host_pwrite_def Let_def)
qed

lemma write_file_cached:
  assumes c: "cached_file s m ino h i" and f: "f \<noteq> 0" and buf: "buf \<noteq> []" "length buf < 2 ^ 31" "0 \<le> off"
    and link: "st_nlink (md_st (E (mf_metadata_id m))) \<le> 1" and j: "journal_rep j rs" and path: "mf_path m = Some path" "wf_path path"
    and room: "ENTRY_BYTES + length path \<le> ie_room e j"
  shows "\<exists>src fds' ino' h' j' m'. mcachefs_write_file e (set_io s f E j m fds ino h) f buf off =
      Some (set_io s f (E(mf_metadata_id m := touched (env_now (io_env e s)) (off + int (length buf)) True (E (mf_metadata_id m))))
        j' m' fds' ino' h', int (length buf)) \<and> m' = m\<lparr>mf_backing := src, mf_dirty := True\<rparr> \<and>
    cached_file s m' ino' h' i \<and> h_data h' = (h_data h)(i := write_at (h_data h i) (nat off) buf) \<and> h_nodes h' = h_nodes h \<and>
    journal_rep j' (if mf_dirty m then rs else rs @ [fsync_record path]) \<and> j_action j' = j_action j"
proof -
  let ?d = "mf_metadata_id m" and ?len = "int (length buf)"
  let ?h = "h\<lparr>h_data := (h_data h)(i := write_at (h_data h i) (nat off) buf), h_mtime := (h_mtime h)(i := h_now h)\<rparr>"
  have st: "mf_cache_status m = BackingDone" "?d \<noteq> 0" "valid (io_ms s) ?d" "willing h" "i \<noteq> 0"
    using c by (auto simp: cached_file_def)
  have wait: "write_wait_loop e f (set_io s f E j m fds ino h) = Some (set_io s f E j m fds ino h, 0)"
    using st f by (simp add: io_simps write_wait_loop.simps)
  from getfd_cached [OF c f, of O_RDWR E j fds e] obtain src fds' ino' where g:
    "io_file (set_io s f E j m fds ino h) (mcachefs_file_getfd (io_fenv e (set_io s f E j m fds ino h))
       (tw_file (v_world (set_io s f E j m fds ino h))) f 0 O_RDWR) =
      Some (set_io s f E j (m\<lparr>mf_backing := src\<rparr>) fds' ino' h, src_fd src)" "0 \<le> src_fd src" "ino' (src_fd src) = i"
      "0 < src_use src" "1 \<le> src_wr src"
    by (auto simp: O_RDWR_def O_CREAT_def O_WRONLY_def IS_WRITE_def)
  let ?src = "count_written ?len (src\<lparr>src_use := src_use src - 1\<rparr>)"
  let ?m = "m\<lparr>mf_backing := ?src\<rparr>"
  have pw: "fd_pwrite (set_io s f E j m' fds' ino' h) (src_fd src) buf off = (set_io s f E j m' fds' ino' ?h, ?len)" for m'
    using g(2,3) by (simp add: fd_pwrite_def io_simps pwrite_willing [OF st(4,5) buf(3,1)])
  obtain j' where j': "write_mark_dirty e (set_io s f E j ?m fds' ino' ?h) f =
      Some (set_io s f E j' (?m\<lparr>mf_dirty := True\<rparr>) fds' ino' ?h)"
      "journal_rep j' (if mf_dirty m then rs else rs @ [fsync_record path])" "j_action j' = j_action j"
    using mark_dirty_ok [OF f _ path(2) j room, of ?m s E fds' ino' ?h] path(1) by auto
  have "mcachefs_write_file e (set_io s f E j m fds ino h) f buf off =
      Some (set_io s f (E(?d := touched (env_now (io_env e s)) (off + ?len) True (E ?d))) j' (?m\<lparr>mf_dirty := True\<rparr>) fds' ino' ?h, ?len)"
    unfolding mcachefs_write_file_def
    using wait g f st link j'(1) buf(2)
    by (simp add: io_simps pw c_int_small with_source_backing file_env_def Let_def)
  moreover have "cached_file s (?m\<lparr>mf_dirty := True\<rparr>) ino' ?h i"
    using c g by (auto simp: cached_file_def count_written_def willing_def)
  moreover have "h_data ?h = (h_data h)(i := write_at (h_data h i) (nat off) buf)" "h_nodes ?h = h_nodes h" by simp_all
  ultimately show ?thesis using j'(2,3)
    by (intro exI [of _ ?src] exI [of _ fds'] exI [of _ ino'] exI [of _ ?h] exI [of _ j'] exI [of _ "?m\<lparr>mf_dirty := True\<rparr>"]) simp
qed

end
