(* ===== verification/Props_Io.thy ===== *)
theory Props_Io
  imports Io_Run Props_Transfer Props_Journal
begin

text \<open>The properties of reading and writing open files.\<close>

section \<open>A state\<close>

definition io_externs :: "tworld externs" where
  "io_externs = \<lparr>x_journal_apply = Some, x_metadata_flush = Some, x_cleanup_backing = Some, x_fill_meta = Some,
     x_transfer_dump = (\<lambda>s m. Some m), x_journal_dump = (\<lambda>s m. Some m), x_metadata_dump = (\<lambda>s m. Some m),
     x_timeslices_dump = (\<lambda>s m. Some m)\<rparr>"

definition sample_ienv :: ienv where
  "sample_ienv = \<lparr>ie_transfer = transfer_env, ie_externs = io_externs, ie_junk = (\<lambda>n. replicate n NUL),
     ie_others = (\<lambda>s. s), ie_errno = 0, ie_room = (\<lambda>j. 1000)\<rparr>"

definition sample_io :: "mfile \<Rightarrow> ioworld" where
  "sample_io m = \<lparr>v_config = fe_config sample_env, v_world = transfer_world m written_host\<rparr>"

definition open_info :: fuse_file_info where
  "open_info = \<lparr>fi_flags = O_RDWR, fi_fh = 7, fi_direct_io = False\<rparr>"

lemmas io_sample_defs = io_externs_def sample_ienv_def sample_io_def open_info_def backed_file_def written_host_def

section \<open>Reading what was written\<close>



section \<open>Waiting for a copy\<close>

text \<open>C34: Whatever the others do, as long as the file stays open a read waits at most ten times for its
  bytes; it then takes them from the cache only if the copy is complete or has come far enough, and
  from the source only while the copy is not complete.\<close>

theorem read_wait_ends:
  assumes "f \<noteq> 0" "\<And>k. k \<le> 10 \<Longrightarrow> files (io_ms ((ie_others e ^^ k) s)) f \<noteq> None"
  shows "\<exists>k\<le>10. \<exists>u. mcachefs_read_wait_accessible e s f n offset = Some ((ie_others e ^^ k) s, u) \<and>
    choice_ok ((ie_others e ^^ k) s) f n offset u"
  unfolding mcachefs_read_wait_accessible_def by (rule read_wait_loop_ends [OF assms]) simp_all

lemma funpow_id: "((\<lambda>s. s) ^^ k) s = s"
  by (induction k) simp_all

lemma read_wait_ends_witness:
  "mcachefs_read_wait_accessible sample_ienv (sample_io (asked_file\<lparr>mf_cache_status := BackingInProgress\<rparr>)) 7 4 0 =
    Some (sample_io (asked_file\<lparr>mf_cache_status := BackingInProgress\<rparr>), 1)"
proof -
  let ?s = "sample_io (asked_file\<lparr>mf_cache_status := BackingInProgress\<rparr>)"
  have f: "files (io_ms ?s) 7 = Some (asked_file\<lparr>mf_cache_status := BackingInProgress\<rparr>)"
    by (simp add: io_sample_defs transfer_world_def)
  obtain u where "mcachefs_read_wait_accessible sample_ienv ?s 7 4 0 = Some (?s, u)" "choice_ok ?s 7 4 0 u"
    using read_wait_ends [of 7 sample_ienv ?s 4 0] f by (auto simp: sample_ienv_def funpow_id)
  with f show ?thesis by (auto simp: choice_ok_def transfer_sample_defs zero_transfer_def split: if_splits)
qed




end
