(* ===== verification/Handlers.thy ===== *)
theory Handlers
  imports Lowlevel Journal_Refine Meta_Make Cache_Refine
begin

text \<open>
  What the handlers of src/src/mcachefs-lowlevel.c have in common: which results they return and
  what they leave in the journal.
\<close>

section \<open>Results\<close>

lemma make_entry_result: "mcachefs_metadata_make_entry e s path mode rdev = Some (s', res) \<Longrightarrow> res = 0 \<or> res = - EEXIST"
  by (auto simp: mcachefs_metadata_make_entry_def bind_eq_Some_conv split: if_splits prod.splits)

lemma rmdir_unlink_result:
  "mcachefs_metadata_rmdir_unlink e s path isDir = Some (s', res) \<Longrightarrow> res \<in> {0, - ENOENT, - ENOTDIR, - ENOTEMPTY, - ENOSYS}"
  by (auto simp: mcachefs_metadata_rmdir_unlink_def bind_eq_Some_conv split: if_splits prod.splits)

lemma rename_entry_result:
  "mcachefs_metadata_rename_entry e s path to = Some (s', res) \<Longrightarrow> res \<in> {0, - ENOENT, - EEXIST, - ENOTDIR}"
  by (auto simp: mcachefs_metadata_rename_entry_def bind_eq_Some_conv split: if_splits prod.splits)

lemma host_mkdir_refuse: "h_refuse (fst (host_mkdir h p)) = h_refuse h"
  by (auto simp: host_mkdir_def host_make_def refused_def split: option.splits)

text \<open>Creating directories and files of the cache returns no positive number, and refuses as before.\<close>

lemma createpath_result:
  assumes "mcachefs_createpath prefix path isdir h = Some (h', res)" "host_errors_ok h"
  shows "res \<le> 0 \<and> h_refuse h' = h_refuse h"
proof -
  let ?P = "\<lambda>prefix path isdir h r. host_errors_ok h \<longrightarrow> snd r \<le> 0 \<and> h_refuse (fst r) = h_refuse h"
  have "?P prefix path isdir h (h', res)"
  proof (rule mcachefs_createpath.raw_induct [of ?P, OF _ assms(1)], intro impI, goal_cases)
    case (1 rec prefix cpath isdir h r)
    define c where "c = (if take 1 cpath = ''/'' then tl cpath else cpath)"
    define path where "path = (if isdir then c else posix_dirname c)"
    note run = 1(2) [unfolded Let_def, folded c_def, folded path_def]
    consider "r = (h, 0)" | x where "host_open h prefix O_RDONLY 0 = Inl x" "r = (h, - x)"
      | h1 res where "rec prefix (posix_dirname path) True h = Some (h1, res)" "r = (h1, res)"
      | h1 where "rec prefix (posix_dirname path) True h = Some (h1, 0)" "r = (h1, -1)"
      | h1 where "rec prefix (posix_dirname path) True h = Some (h1, 0)"
        "fst r = fst (host_mkdir h1 (at_path (at_path prefix (posix_dirname path)) (path_basename path)))" "snd r \<le> 0"
      using run by (auto simp: bind_eq_Some_conv case_prod_unfold split: if_splits sum.splits)
    then show ?case
    proof cases
      case 2
      then show ?thesis using host_open_error [OF 2(1) 1(3)] by simp
    next
      case 3
      then show ?thesis using 1(1) [OF 3(1)] 1(3) by simp
    next
      case 4
      then show ?thesis using 1(1) [OF 4(1)] 1(3) by simp
    next
      case 5
      then show ?thesis using 1(1) [OF 5(1)] 1(3) by (simp add: host_mkdir_refuse)
    qed simp
  qed
  with assms(2) show ?thesis by simp
qed

lemma createpath_cache_result:
  "mcachefs_createpath_cache c path isdir h = Some (h', res) \<Longrightarrow> host_errors_ok h \<Longrightarrow> res \<le> 0 \<and> h_refuse h' = h_refuse h"
  by (auto simp: mcachefs_createpath_cache_def bind_eq_Some_conv dest: createpath_result)

lemma errors_ok_refuse: "h_refuse h' = h_refuse h \<Longrightarrow> host_errors_ok h' = host_errors_ok h"
  by (simp add: host_errors_ok_def)

lemma host_call_errors:
  assumes "host_errors_ok h"
  shows "0 \<le> snd (host_make h c p n)" "0 \<le> snd (host_truncate h p k)" "0 \<le> snd (host_mknod h i p)" "0 \<le> snd (host_symlink h t p)"
    "0 \<le> snd (host_link h p q)"
proof -
  have make: "0 \<le> snd (host_make h c p n)" for c p n
    using assms by (auto simp: host_make_def refused_def host_errors_ok_def errno_defs less_imp_le split: option.splits)
  show "0 \<le> snd (host_make h c p n)" by (rule make)
  show "0 \<le> snd (host_truncate h p k)"
    using assms by (auto simp: host_truncate_def refused_def host_errors_ok_def errno_defs ELOOP_def less_imp_le Let_def
        split: option.splits hnode.splits)
  show "0 \<le> snd (host_mknod h i p)" using make [of CallMknod p "HReg i"]
    by (auto simp: host_mknod_def Let_def case_prod_unfold)
  show "0 \<le> snd (host_symlink h t p)" by (simp add: host_symlink_def make)
  show "0 \<le> snd (host_link h p q)" by (auto simp: host_link_def make errno_defs split: option.splits hnode.splits)
qed

lemma createfile_result:
  assumes "mcachefs_createfile_cache c i path h = Some (h', res)" "host_errors_ok h"
  shows "res \<le> 0"
proof -
  obtain h1 r where r: "mcachefs_createpath_cache c path False h = Some (h1, r)"
    using assms(1) by (auto simp: mcachefs_createfile_cache_def bind_eq_Some_conv)
  from createpath_cache_result [OF r assms(2)] have h1: "r \<le> 0" "host_errors_ok h1"
    using assms(2) errors_ok_refuse [of h1 h] by simp_all
  have trunc: "0 \<le> snd (host_truncate h1 b 0)" for b by (rule host_call_errors(2) [OF h1(2)])
  note run = assms(1) [unfolded mcachefs_createfile_cache_def r, simplified]
  show ?thesis
  proof (cases "r = 0")
    case True
    with run obtain b where b: "mcachefs_makepath_cache c path = Some b" by (auto simp: bind_eq_Some_conv)
    from run True b have "(case host_lstat h1 b of
         Some (HReg _) \<Rightarrow> let (h, errno) = host_truncate h1 b 0 in Some (h, if errno \<noteq> 0 then - errno else r)
       | _ \<Rightarrow> let (h, errno) = host_mknod h1 i b in Some (h, if errno \<noteq> 0 then -1 else 0)) = Some (h', res)" by simp
    then show ?thesis using trunc [of b] True
      by (cases "host_lstat h1 b"; cases "the (host_lstat h1 b)") (auto simp: Let_def case_prod_unfold split: if_splits)
  qed (use run h1(1) in simp)
qed

lemma io_with_ms_sel [simp]:
  "io_host (io_with_ms s m) = io_host s" "v_config (io_with_ms s m) = v_config s"
  "tw_journal (v_world (io_with_ms s m)) = tw_journal (v_world s)" "io_ms (io_with_ms s m) = m"
  by (simp_all add: io_with_ms_def with_ms_def)

lemma io_with_ms_twice [simp]: "io_with_ms (io_with_ms s m) m' = io_with_ms s m'"
  by (simp add: io_with_ms_def with_ms_def)

lemma io_with_host_sel [simp]:
  "io_host (io_with_host s h) = h" "v_config (io_with_host s h) = v_config s"
  "tw_journal (v_world (io_with_host s h)) = tw_journal (v_world s)" "io_ms (io_with_host s h) = io_ms s"
  by (simp_all add: io_with_host_def with_host_def)

lemma io_createpath_cache_ok:
  "io_createpath_cache s path = Some (s', res) \<Longrightarrow> host_errors_ok (io_host s) \<Longrightarrow>
   res \<le> 0 \<and> host_errors_ok (io_host s')"
  by (auto simp: io_createpath_cache_def bind_eq_Some_conv dest!: createpath_cache_result errors_ok_refuse)

lemma io_find_world:
  assumes "io_find e s path = Some (s', mdata)"
  shows "io_host s' = io_host s \<and> tw_journal (v_world s') = tw_journal (v_world s) \<and> v_config s' = v_config s"
  using assms by (auto simp: io_find_def bind_eq_Some_conv)

lemma io_upd_world:
  assumes "io_upd s mdata g = Some s'"
  shows "io_host s' = io_host s \<and> tw_journal (v_world s') = tw_journal (v_world s) \<and> v_config s' = v_config s"
  using assms by (auto simp: io_upd_def)

text \<open>No handler returns a positive number, except the one for symbolic links.\<close>

definition symlinks :: "fuse_request \<Rightarrow> bool" where
  "symlinks r \<longleftrightarrow> (\<exists>path to. r = Symlink path to)"

lemma mknod_result:
  "mcachefs_mknod e s path mode rdev = Some (s', res) \<Longrightarrow> host_errors_ok (io_host s) \<Longrightarrow> res \<le> 0"
  by (auto simp: mcachefs_mknod_def bind_eq_Some_conv Let_def io_journal_def errno_defs split: if_splits
      dest: make_entry_result createfile_result)

lemma mkdir_result: "mcachefs_mkdir e s path mode = Some (s', res) \<Longrightarrow> res \<le> 0"
  by (auto simp: mcachefs_mkdir_def bind_eq_Some_conv Let_def errno_defs split: if_splits dest: make_entry_result)

lemma unlink_result: "mcachefs_unlink e s path = Some (s', res) \<Longrightarrow> res \<le> 0"
  by (auto simp: mcachefs_unlink_def bind_eq_Some_conv Let_def errno_defs split: if_splits dest: rmdir_unlink_result)

lemma rmdir_result: "mcachefs_rmdir e s path = Some (s', res) \<Longrightarrow> res \<le> 0"
  by (auto simp: mcachefs_rmdir_def bind_eq_Some_conv Let_def errno_defs split: if_splits dest: rmdir_unlink_result)

lemma rename_result: "mcachefs_rename e s path to = Some (s', res) \<Longrightarrow> res \<le> 0"
  by (auto simp: mcachefs_rename_def bind_eq_Some_conv Let_def errno_defs split: if_splits dest: rename_entry_result)

lemma link_result:
  assumes "mcachefs_link e dev s path to = Some (s', res)" "host_errors_ok (io_host s)"
  shows "res \<le> 0"
proof -
  obtain s1 meta where f: "io_find e s path = Some (s1, meta)"
    using assms(1) by (auto simp: mcachefs_link_def bind_eq_Some_conv)
  with assms(2) have "host_errors_ok (io_host s1)" using io_find_world by fastforce
  note errs = host_call_errors(5) [OF this]
  show ?thesis
  proof (cases "meta = 0")
    case True
    with assms(1) f show ?thesis by (simp add: mcachefs_link_def errno_defs)
  next
    case False
    note run = assms(1) [unfolded mcachefs_link_def f, simplified, unfolded if_not_P [OF False]]
    obtain m p q where p: "ld (io_ms s1) meta (\<lambda>m. m) = Some m" "io_makepath_cache s1 path = Some p" "io_makepath_cache s1 to = Some q"
      using run False by (auto simp: bind_eq_Some_conv)
    show ?thesis
    proof (cases "snd (host_link (io_host s1) p q) = 0")
      case False
      with run p \<open>meta \<noteq> 0\<close> errs [of p q] show ?thesis by (simp add: Let_def case_prod_unfold)
    next
      case True
      with run p \<open>meta \<noteq> 0\<close> show ?thesis
        by (auto simp: Let_def case_prod_unfold bind_eq_Some_conv errno_defs dest: make_entry_result split: if_split_asm)
    qed
  qed
qed

lemma chmod_result: "mcachefs_chmod e s path mode = Some (s', res) \<Longrightarrow> res \<le> 0"
  by (auto simp: mcachefs_chmod_def bind_eq_Some_conv errno_defs split: if_splits)

lemma chown_result: "mcachefs_chown e s path uid gid = Some (s', res) \<Longrightarrow> res \<le> 0"
  unfolding mcachefs_chown_def Let_def
  by (cases "IS_VOPS_FILE path") (force simp: bind_eq_Some_conv errno_defs split: if_split_asm)+

lemma truncate_result: "mcachefs_truncate e s path n = Some (s', res) \<Longrightarrow> res \<le> 0"
  unfolding mcachefs_truncate_def
  by (cases "IS_VOPS_FILE path") (auto simp: bind_eq_Some_conv errno_defs split: if_split_asm)

lemma utime_result: "mcachefs_utime e s path buf = Some (s', res) \<Longrightarrow> res \<le> 0"
  by (auto simp: mcachefs_utime_def bind_eq_Some_conv errno_defs split: if_splits)

lemmas handler_results = mknod_result mkdir_result unlink_result rmdir_result rename_result link_result
  chmod_result chown_result truncate_result utime_result

lemma oper_result:
  assumes "mcachefs_oper e dev r s = Some (s', res)" "host_errors_ok (io_host s)" "\<not> symlinks r"
  shows "res \<le> 0"
  using assms by (cases r) (auto simp: symlinks_def dest: handler_results)

section \<open>The journal\<close>

abbreviation io_jr :: "ioworld \<Rightarrow> journal" where
  "io_jr s \<equiv> tw_journal (v_world s)"

text \<open>The record of a request.\<close>

fun request_record :: "env \<Rightarrow> fuse_request \<Rightarrow> journal_op \<times> string \<times> string \<times> journal_entry" where
  "request_record e (Mknod path mode rdev) = (OpMknod, path, [], zero_entry\<lparr>je_mode := int mode, je_rdev := int rdev,
     je_uid := int (env_uid e), je_gid := int (env_gid e)\<rparr>)"
| "request_record e (Mkdir path mode) = (OpMkdir, path, [], zero_entry\<lparr>je_mode := int mode,
     je_uid := int (env_uid e), je_gid := int (env_gid e)\<rparr>)"
| "request_record e (Unlink path) = (OpUnlink, path, [], zero_entry)"
| "request_record e (Rmdir path) = (OpRmdir, path, [], zero_entry)"
| "request_record e (Symlink path to) = (OpSymlink, to, path, zero_entry)"
| "request_record e (Rename path to) = (OpRename, path, to, zero_entry)"
| "request_record e (Link path to) = (OpLink, path, to, zero_entry)"
| "request_record e (Chmod path mode) = (OpChmod, path, [], zero_entry\<lparr>je_mode := int mode\<rparr>)"
| "request_record e (Chown path uid gid) = (OpChown, path, [], zero_entry\<lparr>je_uid := int uid, je_gid := int gid\<rparr>)"
| "request_record e (Truncate path n) = (OpTruncate, path, [], zero_entry\<lparr>je_size := n\<rparr>)"
| "request_record e (Utime path buf) = (OpUtime, path, [], zero_entry\<lparr>je_actime := fst buf, je_modtime := snd buf\<rparr>)"

text \<open>The truncation of a virtual file is not recorded, and a change of owner may keep a number.\<close>

fun plain_request :: "fuse_request \<Rightarrow> bool" where
  "plain_request (Truncate path n) = False"
| "plain_request (Chown path uid gid) = (uid \<noteq> NO_ID \<and> gid \<noteq> NO_ID)"
| "plain_request r = True"

fun makes_regular :: "fuse_request \<Rightarrow> bool" where
  "makes_regular (Mknod path mode rdev) = S_ISREG mode"
| "makes_regular r = False"

definition recorded :: "ienv \<Rightarrow> env \<Rightarrow> journal \<Rightarrow> fuse_request \<Rightarrow> journal \<Rightarrow> bool" where
  "recorded e v j r j' \<longleftrightarrow> (case request_record v r of (op, p, t, a) \<Rightarrow>
     \<exists>room. mcachefs_journal_append (ie_errno e) (ie_room e j) j op p t a = Some (j', room))"

lemma io_tenv_same [simp]: "io_tenv e (io_with_ms s m) = io_tenv e s" "io_tenv e (io_with_host s h) = io_tenv e s"
  by (simp_all add: io_tenv_def)

lemma io_journal_ok:
  "io_journal e s op p t a = Some s' \<Longrightarrow>
   (\<exists>room. mcachefs_journal_append (ie_errno e) (ie_room e (io_jr s)) (io_jr s) op p t a = Some (io_jr s', room)) \<and>
   io_ms s' = io_ms s \<and> io_host s' = io_host s"
  by (auto simp: io_journal_def bind_eq_Some_conv)

lemma io_createpath_jr:
  "io_createpath_cache s path = Some (s', res) \<Longrightarrow> io_jr s' = io_jr s \<and> io_ms s' = io_ms s \<and> v_config s' = v_config s"
  by (auto simp: io_createpath_cache_def bind_eq_Some_conv)

lemma recorded_simps:
  "recorded e v j (Mknod path mode rdev) j' \<longleftrightarrow> (\<exists>room. mcachefs_journal_append (ie_errno e) (ie_room e j) j OpMknod path []
     (zero_entry\<lparr>je_mode := int mode, je_rdev := int rdev, je_uid := int (env_uid v), je_gid := int (env_gid v)\<rparr>) = Some (j', room))"
  "recorded e v j (Mkdir path mode) j' \<longleftrightarrow> (\<exists>room. mcachefs_journal_append (ie_errno e) (ie_room e j) j OpMkdir path []
     (zero_entry\<lparr>je_mode := int mode, je_uid := int (env_uid v), je_gid := int (env_gid v)\<rparr>) = Some (j', room))"
  by (simp_all add: recorded_def)

lemma journals_create:
  "mcachefs_mknod e s path mode rdev = Some (s', res) \<Longrightarrow>
   if res = 0 then recorded e (io_env e s) (io_jr s) (Mknod path mode rdev) (io_jr s') else io_jr s' = io_jr s \<or> S_ISREG mode"
  "mcachefs_mkdir e s path mode = Some (s', res) \<Longrightarrow>
   if res = 0 then recorded e (io_env e s) (io_jr s) (Mkdir path mode) (io_jr s') else io_jr s' = io_jr s"
  by (auto simp: mcachefs_mknod_def mcachefs_mkdir_def Let_def recorded_def elim!: bindE
      dest!: io_journal_ok split: if_split_asm)

lemma journals_remove:
  "mcachefs_unlink e s path = Some (s', res) \<Longrightarrow>
   if res = 0 then recorded e v (io_jr s) (Unlink path) (io_jr s') else io_jr s' = io_jr s"
  "mcachefs_rmdir e s path = Some (s', res) \<Longrightarrow>
   if res = 0 then recorded e v (io_jr s) (Rmdir path) (io_jr s') else io_jr s' = io_jr s"
  by (auto simp: mcachefs_unlink_def mcachefs_rmdir_def Let_def recorded_def elim!: bindE
      dest!: io_journal_ok split: if_split_asm)

lemma journals_rename:
  "mcachefs_rename e s path to = Some (s', res) \<Longrightarrow>
   if res = 0 then recorded e v (io_jr s) (Rename path to) (io_jr s') else io_jr s' = io_jr s"
  by (auto simp: mcachefs_rename_def Let_def recorded_def elim!: bindE
      dest!: io_journal_ok io_createpath_jr split: if_split_asm)

lemma journals_symlink:
  "mcachefs_symlink e s path to = Some (s', res) \<Longrightarrow>
   if res = 0 then recorded e v (io_jr s) (Symlink path to) (io_jr s') else io_jr s' = io_jr s"
  by (auto simp: mcachefs_symlink_def Let_def case_prod_unfold recorded_def elim!: bindE
      dest!: io_journal_ok io_createpath_jr split: if_split_asm)

lemma journals_attributes:
  "mcachefs_chmod e s path mode = Some (s', res) \<Longrightarrow>
   if res = 0 then recorded e v (io_jr s) (Chmod path mode) (io_jr s') else io_jr s' = io_jr s"
  "mcachefs_utime e s path buf = Some (s', res) \<Longrightarrow>
   if res = 0 then recorded e v (io_jr s) (Utime path buf) (io_jr s') else io_jr s' = io_jr s"
  by (auto simp: mcachefs_chmod_def mcachefs_utime_def Let_def recorded_def errno_defs elim!: bindE
      dest!: io_journal_ok io_find_world io_upd_world split: if_split_asm)

lemma journals_chown:
  assumes "mcachefs_chown e s path uid gid = Some (s', res)" "uid \<noteq> NO_ID" "gid \<noteq> NO_ID"
  shows "if res = 0 then recorded e v (io_jr s) (Chown path uid gid) (io_jr s') else io_jr s' = io_jr s"
  using assms
  by (auto simp: mcachefs_chown_def Let_def recorded_def errno_defs elim!: bindE
      dest!: io_journal_ok io_find_world io_upd_world split: if_split_asm)

lemma journals_link:
  assumes "mcachefs_link e dev s path to = Some (s', res)"
  shows "if res = 0 then recorded e v (io_jr s) (Link path to) (io_jr s') else io_jr s' = io_jr s"
  using assms
  by (auto simp: mcachefs_link_def Let_def case_prod_unfold recorded_def errno_defs elim!: bindE
      dest!: io_journal_ok io_find_world io_upd_world split: if_split_asm)

lemmas handler_journals = journals_create journals_remove journals_rename journals_symlink journals_attributes
  journals_chown journals_link

lemma oper_journal:
  assumes "mcachefs_oper e dev r s = Some (s', res)" "plain_request r"
  shows "if res = 0 then recorded e (io_env e s) (io_jr s) r (io_jr s') else io_jr s' = io_jr s \<or> makes_regular r"
proof (cases r)
  case (Mknod path mode rdev)
  from assms [unfolded this] journals_create(1) show ?thesis by (force simp: Mknod split: if_split_asm)
next
  case (Mkdir path mode)
  from assms [unfolded this] journals_create(2) show ?thesis by (force simp: Mkdir split: if_split_asm)
next
  case (Unlink path)
  from assms [unfolded this] journals_remove(1) [where v = "io_env e s"] show ?thesis by (force simp: Unlink split: if_split_asm)
next
  case (Rmdir path)
  from assms [unfolded this] journals_remove(2) [where v = "io_env e s"] show ?thesis by (force simp: Rmdir split: if_split_asm)
next
  case (Symlink path to)
  from assms [unfolded this] journals_symlink [where v = "io_env e s"] show ?thesis by (force simp: Symlink split: if_split_asm)
next
  case (Rename path to)
  from assms [unfolded this] journals_rename [where v = "io_env e s"] show ?thesis by (force simp: Rename split: if_split_asm)
next
  case (Link path to)
  from assms [unfolded this] journals_link [where v = "io_env e s"] show ?thesis by (force simp: Link split: if_split_asm)
next
  case (Chmod path mode)
  from assms [unfolded this] journals_attributes(1) [where v = "io_env e s"] show ?thesis by (force simp: Chmod split: if_split_asm)
next
  case (Chown path uid gid)
  from assms [unfolded this] have "mcachefs_chown e s path uid gid = Some (s', res)" "uid \<noteq> NO_ID" "gid \<noteq> NO_ID" by simp_all
  from journals_chown [OF this, of "io_env e s"] show ?thesis by (simp add: Chown split: if_split_asm)
next
  case (Truncate path n)
  with assms(2) show ?thesis by simp
next
  case (Utime path buf)
  from assms [unfolded this] have "mcachefs_utime e s path buf = Some (s', res)" by simp
  from journals_attributes(2) [OF this, of "io_env e s"] show ?thesis by (simp add: Utime split: if_split_asm)
qed

text \<open>Every request but a rename can be recorded, whatever the room; the state with its new journal.\<close>

definition logged :: "ienv \<Rightarrow> ioworld \<Rightarrow> journal_op \<Rightarrow> string \<Rightarrow> string \<Rightarrow> journal_entry \<Rightarrow> ioworld" where
  "logged e s op p t a = the (io_journal e s op p t a)"

lemma io_journal_logged: "op \<noteq> OpRename \<Longrightarrow> io_journal e s op p t a = Some (logged e s op p t a)"
  by (simp add: logged_def io_journal_def mcachefs_journal_append_def Let_def case_prod_unfold)

lemma logged_sel [simp]:
  assumes "op \<noteq> OpRename"
  shows "io_ms (logged e s op p t a) = io_ms s" "io_host (logged e s op p t a) = io_host s"
    "v_config (logged e s op p t a) = v_config s" "io_tenv e' (logged e s op p t a) = io_tenv e' s"
proof -
  have "io_journal e s op p t a = Some x \<Longrightarrow> \<exists>j. x = s\<lparr>v_world := (v_world s)\<lparr>tw_journal := j\<rparr>\<rparr>" for x
    by (auto simp: io_journal_def elim!: bindE)
  from this [OF io_journal_logged [OF assms]] obtain j where "logged e s op p t a = s\<lparr>v_world := (v_world s)\<lparr>tw_journal := j\<rparr>\<rparr>" by blast
  then show "io_ms (logged e s op p t a) = io_ms s" "io_host (logged e s op p t a) = io_host s"
    "v_config (logged e s op p t a) = v_config s" "io_tenv e' (logged e s op p t a) = io_tenv e' s"
    by (simp_all add: io_tenv_def)
qed

end
