(* ===== verification/Props_Handlers.thy ===== *)
theory Props_Handlers
  imports Handlers Props_Io Props_Metadata
begin

text \<open>The properties of the handlers of FUSE.\<close>

section \<open>A state\<close>

text \<open>An empty file system, with its cache.\<close>

definition empty_host :: host where
  "empty_host = sample_host\<lparr>h_nodes := [''/cache'' \<mapsto> HDir, ''/src'' \<mapsto> HDir]\<rparr>"

definition empty_io :: ioworld where
  "empty_io = \<lparr>v_config = fe_config sample_env, v_world = \<lparr>tw_file = \<lparr>fw_ms = empty_process, fw_fds = [0],
     fw_ino = (\<lambda>_. 0), fw_host = empty_host\<rparr>, tw_queue = no_transfers,
     tw_journal = \<lparr>j_file = None, j_fsync_file = None, j_action = ActionNone, j_fsync = no_fsync\<rparr>\<rparr>\<rparr>"

lemma empty_io_sel [simp]:
  "io_ms empty_io = empty_process" "io_host empty_io = empty_host" "cfg_cache (v_config empty_io) = Some ''/cache''"
  "journal_rep (io_jr empty_io) []"
  by (simp_all add: empty_io_def sample_env_def initial_config_def journal_rep_def)

section \<open>Results and records\<close>






text \<open>C38: Making a symbolic link where something exists returns the positive number of the error.\<close>

theorem symlink_over_existing_positive:
  assumes "mcachefs_metadata_find_locked (io_env e s) (io_ms s) to = Some (m, p)" "p \<noteq> 0"
  shows "mcachefs_symlink e s target to = Some (io_with_ms s m, EEXIST)"
  using assms by (simp add: mcachefs_symlink_def mcachefs_metadata_make_entry_def errno_defs)

lemma symlink_over_existing_positive_witness:
  "mcachefs_symlink sample_ienv empty_io ''x'' ''/'' = Some (io_with_ms empty_io empty_process, EEXIST)"
  by (rule symlink_over_existing_positive [where p = 1]) (simp_all add: exec_sample exec)

section \<open>Creating\<close>

text \<open>What lets an entry be created: the path is free, its father is there, and its hash is new.\<close>

definition creatable :: "env \<Rightarrow> mstate \<Rightarrow> htree \<Rightarrow> mid list \<Rightarrow> mid \<Rightarrow> string list \<Rightarrow> string \<Rightarrow> bool" where
  "creatable e s t fs f ns lname \<longleftrightarrow> meta_inv s t fs \<and>
     mcachefs_metadata_find_locked e s (join_path (ns @ [lname])) = Some (s, 0) \<and>
     mcachefs_metadata_find_locked e s (if ns = [] then ''/'' else join_path ns) = Some (s, f) \<and>
     f \<in> set (ids t) \<and> md_child (entry s f) \<noteq> 0 \<and> names_of s f ns \<and>
     hash_of s f = doHash (if ns = [] then ''/'' else join_path ns) \<and>
     CHR ''/'' \<notin> set lname \<and> lname \<noteq> [] \<and> length lname \<le> NAME_MAX \<and> length ns + 1 < MAX_LEVELS \<and>
     (\<forall>i\<in>set (ids t). hash_of s i \<noteq> doHash (join_path (ns @ [lname]))) \<and>
     ENTRY_SIZE * (alloced_nb s + BLOCK_ENTRY_COUNT) \<le> 2 ^ 63"

lemma make_entry_creatable:
  assumes "creatable e s t fs f ns lname"
  shows "\<exists>s' n t' fs'. mcachefs_metadata_make_entry e s (join_path (ns @ [lname])) mode rdev = Some (s', 0) \<and>
    meta_inv s' t' fs' \<and> created e s f n lname mode rdev s' \<and> n \<in> set (ids t') \<and>
    mcachefs_metadata_find_locked e s' (join_path (ns @ [lname])) = Some (s', n)"
  using make_entry_found_lemma [of s t fs e ns lname f mode rdev] assms
  unfolding creatable_def by blast

lemma join_path_joined: "ns \<noteq> [] \<Longrightarrow> join_path ns = CHR ''/'' # joined ns"
  by (induction ns rule: joined.induct) simp_all

text \<open>C39: Making a regular file creates its entry, records it and makes an empty file in the cache, with the
  directories that lead to it; from then on the attributes are those asked for.\<close>

theorem mknod_creates_file:
  assumes "creatable (io_env e s) (io_ms s) t fs f ns n" "S_ISREG mode" "list_all name_ok (ns @ [n])"
    "willing (io_host s)" "cfg_cache (v_config s) = Some pre" "way_clear (io_host s) pre ns"
    "h_nodes (io_host s) (pre @ join_path (ns @ [n])) = None"
    "journal_rep (io_jr s) rs" "r = (zero_entry\<lparr>je_op := op_code OpMknod, je_mode := int mode, je_rdev := int rdev,
       je_uid := int (env_uid (io_env e s)), je_gid := int (env_gid (io_env e s))\<rparr>, path, [])"
    "wf_record r" "path = join_path (ns @ [n])" "ENTRY_BYTES + length path \<le> ie_room e (io_jr s)"
  shows "\<exists>s' st. mcachefs_mknod e s path mode rdev = Some (s', 0) \<and> mcachefs_getattr e s' path = Some (s', Inr st) \<and>
    st_mode st = mode \<and> st_size st = 0 \<and> st_nlink st = 1 \<and> journal_rep (io_jr s') (rs @ [r]) \<and>
    file_created (io_host s) (te_ino (ie_transfer e) (io_host s)) (pre @ path) (io_host s')"
proof -
  let ?i = "te_ino (ie_transfer e) (io_host s)" and ?v = "io_env e s"
  let ?a = "snd (snd (snd (request_record ?v (Mknod path mode rdev))))"
  obtain m k t' fs' where m: "mcachefs_metadata_make_entry ?v (io_ms s) path mode rdev = Some (m, 0)"
      "meta_inv m t' fs'" "created ?v (io_ms s) f k n mode rdev m" "k \<in> set (ids t')"
      "mcachefs_metadata_find_locked ?v m path = Some (m, k)"
    using make_entry_creatable [OF assms(1), of mode rdev] unfolding assms(11) by blast
  have k: "valid m k" "k \<noteq> 0" using m(2,4) table_ids [of m t' k] by (auto simp: meta_inv_def)
  have r: "r = (?a\<lparr>je_op := op_code OpMknod\<rparr>, path, [])" using assms(9) by (simp add: zero_entry_def)
  obtain j room where j: "mcachefs_journal_append (ie_errno e) (ie_room e (io_jr s)) (io_jr s) OpMknod path [] ?a = Some (j, room)"
      "journal_rep j (rs @ [r])"
    using append_record_ok [OF assms(8) _ r assms(10), of "ie_room e (io_jr s)" "ie_errno e"] assms(12) by auto
  have p: "path = CHR ''/'' # joined (ns @ [n])" using assms(11) by (simp add: join_path_joined)
  obtain h where h: "mcachefs_createfile_cache (v_config s) ?i path (io_host s) = Some (h, 0)"
      "file_created (io_host s) ?i (pre @ path) h"
    using createfile_ok [OF assms(4,6,3,5), of ?i] assms(7) p assms(11) by auto
  let ?s = "io_with_host ((io_with_ms s m)\<lparr>v_world := (v_world (io_with_ms s m))\<lparr>tw_journal := j\<rparr>\<rparr>) h"
  have jr: "io_journal e (io_with_ms s m) OpMknod path [] ?a = Some ((io_with_ms s m)\<lparr>v_world := (v_world (io_with_ms s m))\<lparr>tw_journal := j\<rparr>\<rparr>)"
    using j(1) by (simp add: io_journal_def)
  have run: "mcachefs_mknod e s path mode rdev = Some (?s, 0)"
    unfolding mcachefs_mknod_def using m(1) jr assms(2) h(1) by (simp add: Let_def)
  have env: "io_env e ?s = ?v" "io_ms ?s = m" by (simp_all add: io_tenv_def io_with_ms_def with_ms_def io_with_host_def with_host_def)
  have dir: "\<not> S_ISDIR mode" using assms(2) by (simp add: mode_defs)
  have st: "md_st (entry m k) = zero_stat\<lparr>st_mode := mode, st_nlink := 1, st_uid := env_uid ?v, st_gid := env_gid ?v,
      st_rdev := rdev, st_atime := env_now ?v, st_mtime := env_now ?v, st_ctime := env_now ?v\<rparr>"
    using m(3) by (simp add: created_def Let_def)
  have "mcachefs_metadata_getattr ?v m path = Some (m, Inr (md_st (entry m k)))"
    using m(5) k dir st by (simp add: mcachefs_metadata_getattr_def ld_def)
  then have get: "mcachefs_getattr e ?s path = Some (?s, Inr (md_st (entry m k)))"
    unfolding mcachefs_getattr_def env using io_with_ms_same [of ?s] unfolding env by simp
  show ?thesis
    using run get j(2) h(2) unfolding st
    by (intro exI [of _ ?s] exI [of _ "md_st (entry m k)"]) (simp add: st zero_stat_def)
qed

lemma mknod_creates_file_witness:
  "\<exists>s' st. mcachefs_mknod sample_ienv empty_io ''/a'' 0x81A4 0 = Some (s', 0) \<and>
    mcachefs_getattr sample_ienv s' ''/a'' = Some (s', Inr st) \<and> st_mode st = 0x81A4 \<and>
    h_nodes (io_host s') ''/cache/a'' = Some (HReg 2)"
proof -
  have c: "creatable v empty_process root_tree [2..<BLOCK_ENTRY_COUNT] id_root [] ''a''" for v
    unfolding creatable_def using empty_process_inv empty_process_root
    by (simp add: exec_sample exec cong: bind_weak_cong)
  have m: "S_ISREG 0x81A4" by (simp add: mode_defs)
  have h: "willing (io_host empty_io)" "way_clear (io_host empty_io) ''/cache'' []"
      "h_nodes (io_host empty_io) (''/cache'' @ join_path ([] @ [''a''])) = None"
    by (simp_all add: empty_host_def sample_host_def willing_def way_clear_def)
  have i: "te_ino (ie_transfer sample_ienv) empty_host = 2" by (simp add: sample_ienv_def transfer_env_def)
  have v: "env_uid (io_env sample_ienv empty_io) = 0" "env_gid (io_env sample_ienv empty_io) = 0"
    by (simp_all add: io_tenv_def sample_ienv_def transfer_env_def sample_env_def source_of_def)
  have w: "wf_record (zero_entry\<lparr>je_op := op_code OpMknod, je_mode := int 0x81A4, je_rdev := int 0,
       je_uid := int (env_uid (io_env sample_ienv empty_io)), je_gid := int (env_gid (io_env sample_ienv empty_io))\<rparr>, join_path ([] @ [''a'']), [])"
    by (simp add: v wf_record_def wf_entry_def wf_path_def zero_entry_def PATH_MAX_def)
  have room: "ENTRY_BYTES + length (join_path ([] @ [''a''])) \<le> ie_room sample_ienv (io_jr empty_io)"
    by (simp add: sample_ienv_def ENTRY_BYTES_def)
  have c': "creatable (io_env sample_ienv empty_io) (io_ms empty_io) root_tree [2..<BLOCK_ENTRY_COUNT] id_root [] ''a''"
    by (simp add: c)
  have ok: "list_all name_ok ([] @ [''a''])" by (simp add: name_ok_def)
  show ?thesis
    using mknod_creates_file [OF c' m ok h(1) empty_io_sel(3) h(2,3) empty_io_sel(4) refl w refl room]
    by (auto simp: file_created_def i)
qed

section \<open>Reading a directory\<close>

text \<open>The children of an entry, from one on.\<close>

fun siblings :: "mstate \<Rightarrow> mid \<Rightarrow> mid list \<Rightarrow> bool" where
  "siblings s p [] \<longleftrightarrow> p = 0"
| "siblings s p (c # cs) \<longleftrightarrow> p = c \<and> valid s c \<and> siblings s (md_next (entry s c)) cs"

fun fill_all :: "('b \<Rightarrow> string \<Rightarrow> stat \<Rightarrow> 'b \<times> int) \<Rightarrow> (string \<times> stat) list \<Rightarrow> 'b \<Rightarrow> 'b" where
  "fill_all filler [] buf = buf"
| "fill_all filler ((n, st) # ns) buf = fill_all filler ns (fst (filler buf n st))"

lemma siblings_start: "siblings s p cs \<Longrightarrow> do_get s p = Some p"
  by (cases cs) (auto simp: mcachefs_metadata_do_get_def valid_def)

lemma readdir_loop_all:
  assumes "siblings s p cs" "\<And>b n st. snd (filler b n st) = 0"
  shows "readdir_loop s filler p buf 0 = Some (fill_all filler (map (\<lambda>c. (md_d_name (entry s c), md_st (entry s c))) cs) buf, 0)"
  using assms(1)
proof (induction cs arbitrary: p buf)
  case Nil
  then show ?case by (simp add: readdir_loop.simps)
next
  case (Cons c cs)
  then have "do_get s (md_next (entry s c)) = Some (md_next (entry s c))" using siblings_start [of s _ cs] by simp
  moreover have "c \<noteq> 0" using Cons.prems by (auto simp: valid_def)
  ultimately show ?case using Cons
    by (subst readdir_loop.simps) (simp add: ld_def case_prod_unfold assms(2) Let_def)
qed

text \<open>C40: Reading a directory whose children are known gives the two entries for itself and its father and then
  each child once, in the order of the list.\<close>

theorem readdir_lists_children:
  assumes "mcachefs_metadata_find_locked (io_env e s) (io_ms s) path = Some (m, p)" "valid m p"
    "md_child (entry m p) \<noteq> 0" "siblings m (if md_child (entry m p) = id_EMPTY then 0 else md_child (entry m p)) cs"
    "\<And>b n st. snd (filler b n st) = 0" "st = zero_stat\<lparr>st_mode := 0x4000\<rparr>"
  shows "mcachefs_readdir e s filler path buf = Some (io_with_ms s m, fill_all filler ((''.'', st) # (''..'', st) #
    map (\<lambda>c. (md_d_name (entry m c), md_st (entry m c))) cs) buf, 0)"
proof -
  have "mcachefs_metadata_get_child (io_env e s) m p =
      Some (m, if md_child (entry m p) = id_EMPTY then 0 else md_child (entry m p))"
    using assms(2-4) siblings_start [OF assms(4)] by (auto simp: mcachefs_metadata_get_child_def ld_def)
  then show ?thesis
    using assms(1,2,6) readdir_loop_all [OF assms(4,5)]
    by (simp add: mcachefs_readdir_def io_find_def case_prod_unfold assms(5) Let_def)
qed

definition root_with_a :: mstate where
  "root_with_a = with_entry process_a 1 ((entry process_a 1)\<lparr>md_child := 2\<rparr>)"

lemma readdir_lists_children_witness:
  "mcachefs_readdir sample_ienv (io_with_ms empty_io root_with_a) (\<lambda>b n st. (b @ [n], 0)) ''/'' [] =
    Some (io_with_ms empty_io root_with_a, [''.'', ''..'', ''a''], 0)"
  using readdir_lists_children [where cs = "[2]" and m = root_with_a and p = 1 and e = sample_ienv
      and s = "io_with_ms empty_io root_with_a" and path = "''/''" and filler = "\<lambda>b n st. (b @ [n], 0)" and buf = "[]"]
  by (simp add: root_with_a_def process_a_def exec_sample exec)

end
