(* ===== verification/Spec2Isabelle.thy ===== *)
theory Spec2Isabelle
  imports Props_Metadata Props_Scenarios Props_Slices Props_Vops Props_Journal Props_File Props_Transfer Props_Io Props_Handlers
begin

text \<open>
  A verification of mcachefs, a caching file system for FUSE written in C (src/src).

  The program.  mcachefs exposes a slow source directory and keeps three things in local files:
  the metafile, an array of fixed-size entries that is at once the directory tree and a
  hash-keyed red-black tree of all paths; the cache, copies of the files that were opened; and
  the journal of the changes still to be made to the source.  The FUSE handlers
  (mcachefs-lowlevel.c, mcachefs-io.c) look paths up in the metafile, open files through the
  table of open files, and append to the journal; threads copy files into the cache or back
  and garbage-collect open files by timeslices.  Virtual files under /.mcachefs show and set
  the configuration and start actions.

  Conventions (Prelude).  An operation that follows pointers returns an option: None is the crash
  of the process (the Bug macro, a NULL or wild pointer, exit) or a loop that does not end; the
  loops over pointers are partial_function (option), so that each theorem that states a result
  \<open>Some\<close> also states that the loop ends, and no fuel is needed anywhere.  Error codes are
  ordinary values.  Locks are taken as held where the code holds them.

  The theories, in the order of their imports:

  \<^item> Prelude, Path_Hash, Path_Util, File_Types: the option of a crash, C strings, the hash of paths
    (mcachefs-hash.c, variant 32.6.16), paths (mcachefs-util.c), the structures of
    mcachefs-types.h.
  \<^item> Meta_Store, Meta_Alloc: the metafile of mcachefs-metadata.c as a store of entries addressed
    by number; format, allocation, the free list.
  \<^item> Hash_Tree, Hash_Lookup, Hash_Remove: the code of the hash tree.  Rb_Tree is the functional
    red-black tree; Hash_Refine and Hash_Insert show that rotation, repair and insertion on the
    pointers are those of the tree; Hash_Find that the search is the search of a bucket, and
    what the comparison of a path with an entry decides.
  \<^item> Meta_Dir, Meta_Ops: children, reading directories of the source, the search for a path, creation,
    removal, renaming, attributes, hard links, the virtual directory.  Meta_Inv is the invariant
    of the metafile, Meta_Make the creation of an entry, Meta_Exec evaluates the model on samples.
  \<^item> File_Slices: the timeslices of mcachefs-file-ts.c.  Slices_Refine has the interface
    \<open>slice_lists\<close> of lists of files under insertion and removal, its clients, and its
    interpretation on the doubly linked lists of the code; Slices_Clock the tick and the walks.
  \<^item> Config: mcachefs-config.c, with the interface \<open>int_setting\<close> of a setting, interpreted on
    each of the six settings.  Vops_Buffer and Vops: the contents of the virtual files
    (mcachefs-vops.h, mcachefs-io.c) and their building and parsing (mcachefs-vops.c);
    Vops_Text: what they print and read.
  \<^item> Journal, Journal_Apply: mcachefs-journal.c over the bytes of its file.  Journal_Codec reads back
    what is written and turns every loop over the file into a loop over a list of entries;
    Journal_Refine gives the operations on that list.
  \<^item> File: mcachefs-file.c, the open files with their descriptors.  File_Refine has the invariant of
    the descriptors and the release.
  \<^item> Props_Metadata, Props_Scenarios, Props_Slices, Props_Vops, Props_Journal, Props_File: the
    properties, numbered C1 onwards, each with a witness on a concrete state when it has a
    hypothesis.

  What is outside the model and enters as a parameter: the directories of the source and the owner
  of a request (the record env), the result of open and malloc and what other threads do while
  one sleeps (fenv), the bytes that realloc adds (junk), the room left on the disk and the value
  of errno after a short read, the write-back that the application of the journal calls, the
  listings of the virtual files.

  Bounds.  Entry numbers are natural numbers below \<open>alloced_nb\<close>, handles are addresses, both
  without the wrap-around at 64 bits; hashes are 32-bit words; the times and sizes of a journal
  entry are read and written at their width; settings are C ints, printed and read back within
  32 bits.

  Not modelled: the mapping of the metafile into memory, the transfer threads and their queue
  (mcachefs-transfer.c), reading and writing of regular files (mcachefs-io.c), the FUSE handlers
  (mcachefs-lowlevel.c), the cleanup of the cache (mcachefs-cleanup-backing.c), the listings of the
  virtual files, and what only calls the system: threads, mutexes, logging, creating directories.
\<close>

end
